(* ===== verification/Prelude.thy ===== *)
theory Prelude
  imports Main "HOL-Library.List_Lexorder" "HOL-Library.Char_ord"
begin

text \<open>
  What the components share: errors as values of a sum type, a state and
  error effect for code that mutates its state before it raises, the
  preservation calculus for that effect, loops over lists, and the string
  helpers that stand for the few methods of Python's \<open>str\<close> the
  sources use.  A Python exception does not roll the state back, so an effect
  returns the state it has reached together with the error.
\<close>

named_theorems eff_simps \<open>rewrite rules that run an effect\<close>
named_theorems keeps_intros \<open>rules that prove an effect preserves a predicate\<close>

section \<open>Effects: a state, and a result that may be an error\<close>

type_synonym ('s, 'e, 'a) eff = "'s \<Rightarrow> ('e + 'a) \<times> 's"

definition ret :: "'a \<Rightarrow> ('s, 'e, 'a) eff" where
  "ret x = (\<lambda>s. (Inr x, s))"

definition raise :: "'e \<Rightarrow> ('s, 'e, 'a) eff" where
  "raise e = (\<lambda>s. (Inl e, s))"

definition sbind :: "('s, 'e, 'a) eff \<Rightarrow> ('a \<Rightarrow> ('s, 'e, 'b) eff) \<Rightarrow> ('s, 'e, 'b) eff" where
  "sbind m f = (\<lambda>s. case m s of (Inl e, s') \<Rightarrow> (Inl e, s') | (Inr x, s') \<Rightarrow> f x s')"

definition andthen :: "('s, 'e, 'a) eff \<Rightarrow> ('s, 'e, 'b) eff \<Rightarrow> ('s, 'e, 'b) eff" where
  "andthen m k = sbind m (\<lambda>_. k)"

definition gets :: "('s \<Rightarrow> 'a) \<Rightarrow> ('s, 'e, 'a) eff" where
  "gets f = (\<lambda>s. (Inr (f s), s))"

definition modify :: "('s \<Rightarrow> 's) \<Rightarrow> ('s, 'e, unit) eff" where
  "modify f = (\<lambda>s. (Inr (), f s))"

definition guard_else :: "bool \<Rightarrow> 'e \<Rightarrow> ('s, 'e, unit) eff" where
  "guard_else b e = (if b then ret () else raise e)"

definition lift_result :: "'e + 'a \<Rightarrow> ('s, 'e, 'a) eff" where
  "lift_result r = (\<lambda>s. (r, s))"

text \<open>\<open>reads f\<close> looks at the state and may raise; it never changes the state.\<close>

definition reads :: "('s \<Rightarrow> 'e + 'a) \<Rightarrow> ('s, 'e, 'a) eff" where
  "reads f = (\<lambda>s. (f s, s))"

text \<open>\<open>rethrow h m\<close> is \<open>try: m except e: raise h(e)\<close>; the state stays.\<close>

definition rethrow :: "('e \<Rightarrow> 'e) \<Rightarrow> ('s, 'e, 'a) eff \<Rightarrow> ('s, 'e, 'a) eff" where
  "rethrow h m = (\<lambda>s. case m s of (Inl e, s') \<Rightarrow> (Inl (h e), s') | (Inr x, s') \<Rightarrow> (Inr x, s'))"

primrec for_each :: "('a \<Rightarrow> ('s, 'e, unit) eff) \<Rightarrow> 'a list \<Rightarrow> ('s, 'e, unit) eff" where
  "for_each f [] = ret ()"
| "for_each f (x # xs) = andthen (f x) (for_each f xs)"

lemma run_ret [simp, eff_simps]: "ret x s = (Inr x, s)"
  by (simp add: ret_def)

lemma run_raise [simp, eff_simps]: "raise e s = (Inl e, s)"
  by (simp add: raise_def)

lemma run_gets [simp, eff_simps]: "gets f s = (Inr (f s), s)"
  by (simp add: gets_def)

lemma run_modify [simp, eff_simps]: "modify f s = (Inr (), f s)"
  by (simp add: modify_def)

lemma run_guard [simp, eff_simps]:
  "guard_else b e s = (if b then (Inr (), s) else (Inl e, s))"
  by (simp add: guard_else_def)

lemma run_lift [simp, eff_simps]: "lift_result r s = (r, s)"
  by (simp add: lift_result_def)

lemma run_reads [simp, eff_simps]: "reads f s = (f s, s)"
  by (simp add: reads_def)

lemma run_sbind_Inr [eff_simps]: "m s = (Inr x, s') \<Longrightarrow> sbind m f s = f x s'"
  by (simp add: sbind_def)

lemma run_sbind_Inl [eff_simps]: "m s = (Inl e, s') \<Longrightarrow> sbind m f s = (Inl e, s')"
  by (simp add: sbind_def)

lemma run_sbind_prims [simp, eff_simps]:
  "sbind (ret x) f s = f x s"
  "sbind (gets g) f s = f (g s) s"
  "sbind (modify h) f' s = f' () (h s)"
  "sbind (raise e) f s = (Inl e, s)"
  "sbind (guard_else b e) f' s = (if b then f' () s else (Inl e, s))"
  "sbind (reads q) f s = (case q s of Inl e \<Rightarrow> (Inl e, s) | Inr x \<Rightarrow> f x s)"
  by (simp_all add: sbind_def split: sum.split)

lemma run_andthen_prims [simp, eff_simps]:
  "andthen (ret x) k s = k s"
  "andthen (modify h) k s = k (h s)"
  "andthen (raise e) k s = (Inl e, s)"
  "andthen (guard_else b e) k s = (if b then k s else (Inl e, s))"
  "andthen (reads q) k s = (case q s of Inl e \<Rightarrow> (Inl e, s) | Inr x \<Rightarrow> k s)"
  by (simp_all add: andthen_def)

lemma run_andthen_Inr [eff_simps]: "m s = (Inr x, s') \<Longrightarrow> andthen m k s = k s'"
  by (simp add: andthen_def sbind_def)

lemma run_andthen_Inl [eff_simps]: "m s = (Inl e, s') \<Longrightarrow> andthen m k s = (Inl e, s')"
  by (simp add: andthen_def sbind_def)

lemma sbind_returns:
  "sbind m f s = (Inr y, s') \<longleftrightarrow> (\<exists>x s1. m s = (Inr x, s1) \<and> f x s1 = (Inr y, s'))"
  by (auto simp: sbind_def split: prod.splits sum.splits)

lemma andthen_returns:
  "andthen m k s = (Inr y, s') \<longleftrightarrow> (\<exists>x s1. m s = (Inr x, s1) \<and> k s1 = (Inr y, s'))"
  by (simp add: andthen_def sbind_returns)

lemma sbind_raises:
  "sbind m f s = (Inl e, s') \<longleftrightarrow>
     m s = (Inl e, s') \<or> (\<exists>x s1. m s = (Inr x, s1) \<and> f x s1 = (Inl e, s'))"
  by (auto simp: sbind_def split: prod.splits sum.splits)

lemma rethrow_returns [simp]:
  "rethrow h m s = (Inr y, s') \<longleftrightarrow> m s = (Inr y, s')"
  by (auto simp: rethrow_def split: prod.splits sum.splits)

lemma run_rethrow_Inr [eff_simps]: "m s = (Inr y, s') \<Longrightarrow> rethrow h m s = (Inr y, s')"
  by simp

lemma run_rethrow_Inl [eff_simps]: "m s = (Inl e, s') \<Longrightarrow> rethrow h m s = (Inl (h e), s')"
  by (simp add: rethrow_def)

section \<open>Preservation\<close>

text \<open>\<open>keeps P m\<close>: from a state with \<open>P\<close>, \<open>m\<close> ends in a state
  with \<open>P\<close>, whether it returns or raises.\<close>

definition keeps :: "('s \<Rightarrow> bool) \<Rightarrow> ('s, 'e, 'a) eff \<Rightarrow> bool" where
  "keeps P m \<longleftrightarrow> (\<forall>s. P s \<longrightarrow> P (snd (m s)))"

lemma keepsI: "(\<And>s. P s \<Longrightarrow> P (snd (m s))) \<Longrightarrow> keeps P m"
  by (simp add: keeps_def)

lemma keepsD: "keeps P m \<Longrightarrow> P s \<Longrightarrow> m s = (r, s') \<Longrightarrow> P s'"
  by (metis keeps_def snd_conv)

lemma keeps_pure [keeps_intros]:
  "keeps P (ret x)" "keeps P (raise e)" "keeps P (gets g)"
  "keeps P (guard_else b e)" "keeps P (lift_result r)" "keeps P (reads f)"
  by (simp_all add: keeps_def)

lemma keeps_modify [keeps_intros]: "(\<And>s. P s \<Longrightarrow> P (f s)) \<Longrightarrow> keeps P (modify f)"
  by (simp add: keeps_def)

lemma keeps_sbind [keeps_intros]:
  "keeps P m \<Longrightarrow> (\<And>x. keeps P (f x)) \<Longrightarrow> keeps P (sbind m f)"
  by (fastforce simp: keeps_def sbind_def split: prod.splits sum.splits)

lemma keeps_andthen [keeps_intros]: "keeps P m \<Longrightarrow> keeps P k \<Longrightarrow> keeps P (andthen m k)"
  by (simp add: andthen_def keeps_sbind)

lemma keeps_rethrow [keeps_intros]: "keeps P m \<Longrightarrow> keeps P (rethrow h m)"
  by (fastforce simp: keeps_def rethrow_def split: prod.splits sum.splits)

lemma keeps_if [keeps_intros]: "keeps P m \<Longrightarrow> keeps P k \<Longrightarrow> keeps P (if b then m else k)"
  by simp

lemma keeps_case_option [keeps_intros]:
  "keeps P m \<Longrightarrow> (\<And>x. keeps P (f x)) \<Longrightarrow> keeps P (case z of None \<Rightarrow> m | Some x \<Rightarrow> f x)"
  by (simp split: option.split)

lemma keeps_for_each [keeps_intros]:
  "(\<And>x. x \<in> set xs \<Longrightarrow> keeps P (f x)) \<Longrightarrow> keeps P (for_each f xs)"
  by (induction xs) (auto intro!: keeps_intros)

section \<open>Triples\<close>

text \<open>\<open>valid P m Q E\<close>: from \<open>P\<close>, \<open>m\<close> returns into \<open>Q\<close> or raises into \<open>E\<close>.\<close>

definition valid ::
  "('s \<Rightarrow> bool) \<Rightarrow> ('s, 'e, 'a) eff \<Rightarrow> ('a \<Rightarrow> 's \<Rightarrow> bool) \<Rightarrow> ('e \<Rightarrow> 's \<Rightarrow> bool) \<Rightarrow> bool" where
  "valid P m Q E \<longleftrightarrow>
     (\<forall>s. P s \<longrightarrow> (case m s of (Inl e, s') \<Rightarrow> E e s' | (Inr x, s') \<Rightarrow> Q x s'))"

lemma validI:
  "(\<And>s x s'. P s \<Longrightarrow> m s = (Inr x, s') \<Longrightarrow> Q x s') \<Longrightarrow>
   (\<And>s e s'. P s \<Longrightarrow> m s = (Inl e, s') \<Longrightarrow> E e s') \<Longrightarrow> valid P m Q E"
  by (auto simp: valid_def split: prod.split sum.split)

lemma validD:
  assumes "valid P m Q E" and "P s"
  shows "m s = (Inr x, s') \<Longrightarrow> Q x s'" and "m s = (Inl e, s') \<Longrightarrow> E e s'"
  using assms by (auto simp: valid_def dest!: spec [of _ s])

lemma valid_sbind:
  "valid P m R E \<Longrightarrow> (\<And>x. valid (R x) (f x) Q E) \<Longrightarrow> valid P (sbind m f) Q E"
  by (fastforce simp: valid_def sbind_def split: prod.splits sum.splits)

lemma valid_andthen:
  "valid P m (\<lambda>_. R) E \<Longrightarrow> valid R k Q E \<Longrightarrow> valid P (andthen m k) Q E"
  unfolding andthen_def by (rule valid_sbind)

lemma valid_weaken:
  "valid P' m Q' E' \<Longrightarrow> (\<And>s. P s \<Longrightarrow> P' s) \<Longrightarrow> (\<And>x s. Q' x s \<Longrightarrow> Q x s)
   \<Longrightarrow> (\<And>e s. E' e s \<Longrightarrow> E e s) \<Longrightarrow> valid P m Q E"
  by (fastforce simp: valid_def split: prod.splits sum.splits)

lemma valid_ret: "(\<And>s. P s \<Longrightarrow> Q x s) \<Longrightarrow> valid P (ret x) Q E"
  by (simp add: valid_def)

lemma valid_raise: "(\<And>s. P s \<Longrightarrow> E e s) \<Longrightarrow> valid P (raise e) Q E"
  by (simp add: valid_def)

lemma valid_pre: "(\<And>s. P s \<Longrightarrow> b) \<Longrightarrow> (b \<Longrightarrow> valid P m Q E) \<Longrightarrow> valid P m Q E"
  by (auto simp: valid_def)

lemma valid_keeps: "keeps P m \<longleftrightarrow> valid P m (\<lambda>_. P) (\<lambda>_. P)"
  by (auto simp: valid_def keeps_def split: prod.splits sum.splits)
    (metis obj_sumE snd_conv surj_pair)+

lemma valid_for_each:
  "(\<And>x. x \<in> set xs \<Longrightarrow> valid P (f x) (\<lambda>_. P) E) \<Longrightarrow> valid P (for_each f xs) (\<lambda>_. P) E"
  by (induction xs) (auto intro!: valid_ret valid_andthen)

section \<open>Insertion-ordered tables\<close>

text \<open>Rows under a key, in insertion order, with the \<open>INSERT .. ON CONFLICT
  DO UPDATE\<close> of the SQLite stores and the \<open>dict\<close> update of Python: a
  known key keeps its place, a new one goes last.\<close>

fun upsert :: "('r \<Rightarrow> 'k) \<Rightarrow> 'r \<Rightarrow> 'r list \<Rightarrow> 'r list" where
  "upsert key r [] = [r]"
| "upsert key r (x # xs) = (if key x = key r then r # xs else x # upsert key r xs)"

definition lookup_row :: "('r \<Rightarrow> 'k) \<Rightarrow> 'k \<Rightarrow> 'r list \<Rightarrow> 'r option" where
  "lookup_row key k xs = find (\<lambda>r. key r = k) xs"

definition remove_row :: "('r \<Rightarrow> 'k) \<Rightarrow> 'k \<Rightarrow> 'r list \<Rightarrow> 'r list" where
  "remove_row key k xs = filter (\<lambda>r. key r \<noteq> k) xs"

lemma lookup_upsert [simp]:
  "lookup_row key k (upsert key r xs) = (if k = key r then Some r else lookup_row key k xs)"
  by (induction xs) (auto simp: lookup_row_def)

lemma lookup_remove [simp]:
  "lookup_row key k (remove_row key j xs) = (if k = j then None else lookup_row key k xs)"
  by (induction xs) (auto simp: lookup_row_def remove_row_def)

lemma lookup_row_key: "lookup_row key k xs = Some r \<Longrightarrow> key r = k \<and> r \<in> set xs"
  by (auto simp: lookup_row_def find_Some_iff)

lemma lookup_row_None: "lookup_row key k xs = None \<longleftrightarrow> k \<notin> key ` set xs"
  by (auto simp: lookup_row_def find_None_iff)

lemma keys_upsert: "key ` set (upsert key r xs) = insert (key r) (key ` set xs)"
  by (induction xs) auto

lemma distinct_upsert:
  "distinct (map key xs) \<Longrightarrow> distinct (map key (upsert key r xs))"
proof (induction xs)
  case (Cons x xs)
  show ?case
  proof (cases "key x = key r")
    case False
    with Cons.prems have "key x \<notin> key ` set (upsert key r xs)"
      by (auto simp: keys_upsert)
    with Cons False show ?thesis by simp
  qed (use Cons.prems in auto)
qed simp

lemma upsert_fresh: "key r \<notin> key ` set xs \<Longrightarrow> upsert key r xs = xs @ [r]"
  by (induction xs) auto

lemma set_upsert_subset: "set (upsert key r xs) \<subseteq> insert r (set xs)"
  by (induction xs) auto

lemma remove_row_fresh: "k \<notin> key ` set xs \<Longrightarrow> remove_row key k xs = xs"
  by (auto simp: remove_row_def filter_id_conv)

lemma remove_row_append [simp]:
  "remove_row key k (xs @ ys) = remove_row key k xs @ remove_row key k ys"
  by (simp add: remove_row_def)

lemma remove_row_Nil [simp]: "remove_row key k [] = []"
  by (simp add: remove_row_def)

lemma remove_row_Cons [simp]:
  "remove_row key k (r # xs) = (if key r = k then remove_row key k xs else r # remove_row key k xs)"
  by (simp add: remove_row_def)

section \<open>Strings\<close>

text \<open>Python's \<open>str\<close> is modelled as a list of characters below 256.
  \<open>casefold\<close> and \<open>title\<close> act on the ASCII letters.\<close>

definition starts_with :: "string \<Rightarrow> string \<Rightarrow> bool" where
  "starts_with p s \<longleftrightarrow> take (length p) s = p"

definition ends_with :: "string \<Rightarrow> string \<Rightarrow> bool" where
  "ends_with p s \<longleftrightarrow> length p \<le> length s \<and> drop (length s - length p) s = p"

definition fold_char :: "char \<Rightarrow> char" where
  "fold_char c =
     (let n = (of_char c :: nat) in if 65 \<le> n \<and> n \<le> 90 then char_of (n + 32) else c)"

definition casefold :: "string \<Rightarrow> string" where
  "casefold s = map fold_char s"

fun contains_sub :: "string \<Rightarrow> string \<Rightarrow> bool" where
  "contains_sub p [] = (p = [])"
| "contains_sub p (c # s) = (starts_with p (c # s) \<or> contains_sub p s)"

text \<open>\<open>split_on c s\<close> is \<open>s.split(c)\<close> for a one-character separator.\<close>

fun split_on :: "char \<Rightarrow> string \<Rightarrow> string list" where
  "split_on c [] = [[]]"
| "split_on c (x # xs) =
     (if x = c then [] # split_on c xs
      else (case split_on c xs of [] \<Rightarrow> [[x]] | y # ys \<Rightarrow> (x # y) # ys))"

fun join_with :: "string \<Rightarrow> string list \<Rightarrow> string" where
  "join_with sep [] = []"
| "join_with sep [x] = x"
| "join_with sep (x # xs) = x @ sep @ join_with sep xs"

lemma split_on_not_Nil [simp]: "split_on c s \<noteq> []"
  by (induction s) (auto split: list.splits)

lemma starts_with_append [simp]: "starts_with p (p @ s)"
  by (simp add: starts_with_def)

lemma starts_with_iff: "starts_with p s \<longleftrightarrow> (\<exists>t. s = p @ t)"
  by (metis append_eq_conv_conj append_take_drop_id starts_with_def)

lemma join_split: "join_with [c] (split_on c s) = s"
proof (induction s)
  case (Cons x xs)
  obtain y ys where ys: "split_on c xs = y # ys" by (cases "split_on c xs") auto
  show ?case using Cons ys by (cases ys) auto
qed simp

lemma split_on_no_sep: "x \<in> set (split_on c s) \<Longrightarrow> c \<notin> set x"
  by (induction s arbitrary: x) (auto split: if_splits list.splits)

section \<open>Decimal numerals\<close>

text \<open>\<open>str(n)\<close> of a natural number.\<close>

definition digit_char :: "nat \<Rightarrow> char" where
  "digit_char d = char_of (48 + d)"

fun decimal :: "nat \<Rightarrow> string" where
  "decimal n = (if n < 10 then [digit_char n] else decimal (n div 10) @ [digit_char (n mod 10)])"

declare decimal.simps [simp del]

lemma decimal_1: "n < 10 \<Longrightarrow> decimal n = [digit_char n]"
  by (simp add: decimal.simps)

lemma decimal_2: "\<not> n < 10 \<Longrightarrow> decimal n = decimal (n div 10) @ [digit_char (n mod 10)]"
  by (subst decimal.simps) simp

definition digit_value :: "char \<Rightarrow> nat" where
  "digit_value c = of_char c - 48"

definition decimal_value :: "string \<Rightarrow> nat" where
  "decimal_value s = foldl (\<lambda>n c. 10 * n + digit_value c) 0 s"

lemma digit_value_char: "d < 10 \<Longrightarrow> digit_value (digit_char d) = d"
  by (simp add: digit_value_def digit_char_def)

lemma decimal_value_decimal [simp]: "decimal_value (decimal n) = n"
proof (induction n rule: decimal.induct)
  case (1 n)
  show ?case
  proof (cases "n < 10")
    case True
    then show ?thesis by (simp add: decimal_1 decimal_value_def digit_value_char)
  next
    case False
    with 1 have "decimal_value (decimal (n div 10)) = n div 10" by blast
    with False show ?thesis
      by (simp add: decimal_2 decimal_value_def digit_value_char)
  qed
qed

lemma decimal_inject [simp]: "decimal m = decimal n \<longleftrightarrow> m = n"
  by (metis decimal_value_decimal)

lemma decimal_not_Nil [simp]: "decimal n \<noteq> []"
  by (cases "n < 10") (simp_all add: decimal_1 decimal_2)

definition is_digit :: "char \<Rightarrow> bool" where
  "is_digit c \<longleftrightarrow> (let n = (of_char c :: nat) in 48 \<le> n \<and> n \<le> 57)"

lemma is_digit_char: "d < 10 \<Longrightarrow> is_digit (digit_char d)"
  by (simp add: is_digit_def digit_char_def Let_def)

lemma decimal_digits: "list_all is_digit (decimal n)"
proof (induction n rule: decimal.induct)
  case (1 n)
  then show ?case
    by (cases "n < 10") (simp_all add: decimal_1 decimal_2 is_digit_char)
qed

section \<open>Blanks\<close>

text \<open>\<open>str.isspace\<close> on the characters below 256, \<open>rstrip\<close> and \<open>strip\<close>.\<close>

definition is_space :: "char \<Rightarrow> bool" where
  "is_space c \<longleftrightarrow> (let n = (of_char c :: nat) in
     (9 \<le> n \<and> n \<le> 13) \<or> (28 \<le> n \<and> n \<le> 32) \<or> n = 133 \<or> n = 160)"

definition rstrip :: "string \<Rightarrow> string" where
  "rstrip s = rev (dropWhile is_space (rev s))"

definition strip :: "string \<Rightarrow> string" where
  "strip s = dropWhile is_space (rstrip s)"

lemma length_rstrip: "length (rstrip s) \<le> length s"
  by (simp add: rstrip_def) (metis length_dropWhile_le length_rev)

lemma rstrip_prefix: "\<exists>t. s = rstrip s @ t"
proof -
  have "rev (rev s) = rev (takeWhile is_space (rev s) @ dropWhile is_space (rev s))" by simp
  then show ?thesis unfolding rstrip_def by (metis rev_append rev_rev_ident)
qed

text \<open>\<open>str.split()\<close> without an argument.\<close>

fun words_from :: "string \<Rightarrow> string \<Rightarrow> string list" where
  "words_from cur [] = (if cur = [] then [] else [cur])"
| "words_from cur (c # cs) =
     (if is_space c then (if cur = [] then words_from [] cs else cur # words_from [] cs)
      else words_from (cur @ [c]) cs)"

definition normalized :: "string \<Rightarrow> string" where
  "normalized s = join_with '' '' (words_from [] s)"

end
