(* ===== verification/Permissions.thy ===== *)
theory Permissions
  imports Prelude
begin

text \<open>
  \<open>src/awesome_agent/core/tools/permissions.py\<close>: the capabilities, the
  permission session with its grants, and the pure capability policy that the
  executor asks after registration-owned admission.  A capability is the
  string a registration carries, so that extension capabilities the policy
  does not know are values of the model.
\<close>

section \<open>Capabilities, modes, decisions\<close>

datatype tool_capability =
    CONTEXT_READ
  | WORKSPACE_READ
  | WORKSPACE_WRITE
  | WORKSPACE_DELETE
  | SHELL_EXECUTE
  | NETWORK_READ

fun capability_value :: "tool_capability \<Rightarrow> string" where
  "capability_value CONTEXT_READ = ''context.read''"
| "capability_value WORKSPACE_READ = ''workspace.read''"
| "capability_value WORKSPACE_WRITE = ''workspace.write''"
| "capability_value WORKSPACE_DELETE = ''workspace.delete''"
| "capability_value SHELL_EXECUTE = ''shell.execute''"
| "capability_value NETWORK_READ = ''network.read''"

definition all_capabilities :: "tool_capability list" where
  "all_capabilities =
     [CONTEXT_READ, WORKSPACE_READ, WORKSPACE_WRITE, WORKSPACE_DELETE, SHELL_EXECUTE, NETWORK_READ]"

datatype permission_mode = REQUEST_APPROVAL | ACCEPT_EDITS | FULL_ACCESS

datatype policy_action = ALLOW | ASK | DENY

datatype tool_approval_decision =
    ALLOW_ONCE
  | ALLOW_THREAD_WRITES
  | ALLOW_THREAD_NETWORK
  | DENY_APPROVAL

section \<open>The permission session\<close>

datatype session_error = EmptyThreadId

record permission_session =
  ps_mode :: permission_mode
  ps_granted :: "string set"
  ps_generation :: nat
  ps_thread_granted :: "(string \<times> string) set"

definition new_session :: "permission_session" where
  "new_session =
     \<lparr>ps_mode = REQUEST_APPROVAL, ps_granted = {}, ps_generation = 0, ps_thread_granted = {}\<rparr>"

definition grant_thread_writes :: "permission_session \<Rightarrow> permission_session" where
  "grant_thread_writes s =
     s\<lparr>ps_granted := insert (capability_value WORKSPACE_WRITE) (ps_granted s)\<rparr>"

definition grant_thread_network :: "string \<Rightarrow> permission_session \<Rightarrow> session_error + permission_session" where
  "grant_thread_network thread_id s =
     (if thread_id = [] then Inl EmptyThreadId
      else Inr (s\<lparr>ps_thread_granted :=
        insert (thread_id, capability_value NETWORK_READ) (ps_thread_granted s)\<rparr>))"

definition revoke_thread_network :: "string option \<Rightarrow> permission_session \<Rightarrow> permission_session" where
  "revoke_thread_network thread_id s =
     (let capability = capability_value NETWORK_READ in
      s\<lparr>ps_thread_granted :=
        Set.filter (\<lambda>grant. snd grant \<noteq> capability
            \<or> (case thread_id of None \<Rightarrow> False | Some t \<Rightarrow> fst grant \<noteq> t))
          (ps_thread_granted s)\<rparr>)"

definition set_mode :: "permission_mode \<Rightarrow> permission_session \<Rightarrow> permission_session" where
  "set_mode mode s =
     s\<lparr>ps_mode := mode, ps_granted := {}, ps_thread_granted := {},
       ps_generation := ps_generation s + 1\<rparr>"

definition reset_session :: "permission_session \<Rightarrow> permission_session" where
  "reset_session s = set_mode REQUEST_APPROVAL s"

section \<open>The policy\<close>

record policy_request =
  pr_capability :: string
  pr_mode :: permission_mode
  pr_granted :: "string set"
  pr_thread_id :: "string option"
  pr_thread_granted :: "(string \<times> string) set"

record policy_decision =
  pd_action :: policy_action
  pd_reason :: string

definition known_capability :: "string \<Rightarrow> bool" where
  "known_capability c \<longleftrightarrow> c \<in> capability_value ` set all_capabilities"

definition evaluate :: "policy_request \<Rightarrow> policy_decision" where
  "evaluate request =
     (let capability = pr_capability request in
      if capability = ''memory.read'' \<or> capability = ''memory.write'' then
        \<lparr>pd_action = ALLOW, pd_reason = ''Built-in memory operations are governed by memory policy.''\<rparr>
      else if \<not> known_capability capability then
        \<lparr>pd_action = ASK, pd_reason = ''This extension capability requires explicit approval.''\<rparr>
      else if capability = capability_value NETWORK_READ then
        (case pr_thread_id request of
           Some thread_id \<Rightarrow>
             if (thread_id, capability) \<in> pr_thread_granted request then
               \<lparr>pd_action = ALLOW, pd_reason = ''The active Thread explicitly allows network reads.''\<rparr>
             else
               \<lparr>pd_action = ASK,
                 pd_reason = ''Network reads require explicit approval for the active Thread.''\<rparr>
         | None \<Rightarrow>
             \<lparr>pd_action = ASK,
               pd_reason = ''Network reads require explicit approval for the active Thread.''\<rparr>)
      else if capability = capability_value CONTEXT_READ then
        \<lparr>pd_action = ALLOW, pd_reason = ''Frozen context resources are governed by hard admission.''\<rparr>
      else if capability = capability_value WORKSPACE_READ then
        \<lparr>pd_action = ALLOW, pd_reason = ''Workspace reads are allowed in a trusted workspace.''\<rparr>
      else if capability \<in> pr_granted request then
        \<lparr>pd_action = ALLOW, pd_reason = ''The active permission session allows this capability.''\<rparr>
      else if pr_mode request = ACCEPT_EDITS \<and> capability = capability_value WORKSPACE_WRITE then
        \<lparr>pd_action = ALLOW,
          pd_reason = ''Accept edits allows workspace file creation and modification.''\<rparr>
      else if pr_mode request = FULL_ACCESS then
        \<lparr>pd_action = ALLOW, pd_reason = ''Full access allows this built-in local capability.''\<rparr>
      else
        \<lparr>pd_action = ASK,
          pd_reason = ''This operation requires approval in the active permission mode.''\<rparr>)"

text \<open>The request the executor builds from the session (executor.py, the
  \<open>PolicyRequest\<close> of \<open>execute\<close>).\<close>

definition session_request :: "permission_session \<Rightarrow> string \<Rightarrow> string \<Rightarrow> policy_request" where
  "session_request s capability thread_id =
     \<lparr>pr_capability = capability, pr_mode = ps_mode s, pr_granted = ps_granted s,
      pr_thread_id = Some thread_id, pr_thread_granted = ps_thread_granted s\<rparr>"

section \<open>Reachable sessions\<close>

inductive session_step :: "permission_session \<Rightarrow> permission_session \<Rightarrow> bool" where
  step_writes: "session_step s (grant_thread_writes s)"
| step_network: "grant_thread_network t s = Inr s' \<Longrightarrow> session_step s s'"
| step_revoke: "session_step s (revoke_thread_network t s)"
| step_mode: "session_step s (set_mode m s)"
| step_reset: "session_step s (reset_session s)"

inductive reachable_session :: "permission_session \<Rightarrow> bool" where
  session_new: "reachable_session new_session"
| session_next: "reachable_session s \<Longrightarrow> session_step s s' \<Longrightarrow> reachable_session s'"

text \<open>No operation grants anything but workspace writes to the session and
  network reads to a named Thread.\<close>

definition session_inv :: "permission_session \<Rightarrow> bool" where
  "session_inv s \<longleftrightarrow>
     ps_granted s \<subseteq> {capability_value WORKSPACE_WRITE} \<and>
     ps_thread_granted s \<subseteq> {(t, c). t \<noteq> [] \<and> c = capability_value NETWORK_READ}"

lemmas session_defs =
  grant_thread_writes_def grant_thread_network_def revoke_thread_network_def set_mode_def
  reset_session_def new_session_def

lemma session_step_inv: "session_step s s' \<Longrightarrow> session_inv s \<Longrightarrow> session_inv s'"
  by (induction rule: session_step.induct)
     (auto simp: session_defs session_inv_def Let_def split: if_splits)

lemma reachable_session_inv: "reachable_session s \<Longrightarrow> session_inv s"
proof (induction rule: reachable_session.induct)
  case session_new
  show ?case by (simp add: session_inv_def new_session_def)
next
  case (session_next s s')
  then show ?case by (blast intro: session_step_inv)
qed


lemma known_capability_values:
  "known_capability c \<longleftrightarrow>
     c = ''context.read'' \<or> c = ''workspace.read'' \<or> c = ''workspace.write'' \<or>
     c = ''workspace.delete'' \<or> c = ''shell.execute'' \<or> c = ''network.read''"
  by (auto simp: known_capability_def all_capabilities_def)

lemma evaluate_unknown: "\<not> known_capability (pr_capability r) \<Longrightarrow>
    pr_capability r \<noteq> ''memory.read'' \<Longrightarrow> pr_capability r \<noteq> ''memory.write'' \<Longrightarrow>
    pd_action (evaluate r) = ASK"
  by (simp add: evaluate_def Let_def)

lemma evaluate_never_denies: "pd_action (evaluate r) \<noteq> DENY"
  by (auto simp: evaluate_def Let_def split: option.splits)

lemma evaluate_reason_bounded:
  "pd_reason (evaluate r) \<noteq> [] \<and> length (pd_reason (evaluate r)) \<le> 2000"
  by (auto simp: evaluate_def Let_def split: option.splits)

lemma evaluate_allow_iff:
  "pd_action (evaluate r) = ALLOW \<longleftrightarrow>
     pr_capability r \<in> {''memory.read'', ''memory.write'', ''context.read'', ''workspace.read''} \<or>
     (pr_capability r = ''network.read'' \<and>
       (\<exists>t. pr_thread_id r = Some t \<and> (t, ''network.read'') \<in> pr_thread_granted r)) \<or>
     (pr_capability r \<in> {''workspace.write'', ''workspace.delete'', ''shell.execute''} \<and>
       (pr_capability r \<in> pr_granted r \<or> pr_mode r = FULL_ACCESS \<or>
        (pr_mode r = ACCEPT_EDITS \<and> pr_capability r = ''workspace.write'')))"
  by (auto simp: evaluate_def Let_def known_capability_values split: option.splits)

section \<open>Properties\<close>

text \<open>C23: The policy never denies: it answers ALLOW or ASK.  It answers ALLOW for
  exactly the memory, context and workspace reads, for network reads of a
  Thread that holds a network grant, and for workspace writes, deletes and shell
  execution when the session grants them, under Full access, or, for writes
  only, under Accept edits.  Full access therefore never covers network reads
  or an extension capability.\<close>

theorem policy_allows_exactly:
  "pd_action (evaluate r) \<in> {ALLOW, ASK} \<and>
   (pd_action (evaluate r) = ALLOW \<longleftrightarrow>
     pr_capability r \<in> {''memory.read'', ''memory.write'', ''context.read'', ''workspace.read''} \<or>
     (pr_capability r = ''network.read'' \<and>
       (\<exists>t. pr_thread_id r = Some t \<and> (t, ''network.read'') \<in> pr_thread_granted r)) \<or>
     (pr_capability r \<in> {''workspace.write'', ''workspace.delete'', ''shell.execute''} \<and>
       (pr_capability r \<in> pr_granted r \<or> pr_mode r = FULL_ACCESS \<or>
        (pr_mode r = ACCEPT_EDITS \<and> pr_capability r = ''workspace.write''))))"
  using evaluate_allow_iff [of r] evaluate_never_denies [of r]
  by (cases "pd_action (evaluate r)") auto

text \<open>C24: In every session reachable through the session's operations, deleting or
  running a shell command is allowed without asking only in Full access, and a
  capability the policy does not know is asked for in every mode.  The grants
  a session can hold (Thread writes, Thread network) never reach them.\<close>

theorem reachable_session_never_grants_shell:
  assumes "reachable_session s"
    and "capability \<in> {''workspace.delete'', ''shell.execute''} \<or>
      (\<not> known_capability capability \<and> capability \<notin> {''memory.read'', ''memory.write''})"
    and "pd_action (evaluate (session_request s capability thread_id)) = ALLOW"
  shows "ps_mode s = FULL_ACCESS \<and> capability \<in> {''workspace.delete'', ''shell.execute''}"
proof -
  have grants: "ps_granted s \<subseteq> {''workspace.write''}"
    using reachable_session_inv [OF assms(1)] by (simp add: session_inv_def)
  from assms(2) show ?thesis
  proof
    assume c: "capability \<in> {''workspace.delete'', ''shell.execute''}"
    with assms(3) grants show ?thesis
      by (auto simp: evaluate_allow_iff session_request_def)
  next
    assume "\<not> known_capability capability \<and> capability \<notin> {''memory.read'', ''memory.write''}"
    with assms(3) show ?thesis
      by (simp add: evaluate_unknown session_request_def)
  qed
qed

theorem reachable_session_never_grants_shell_witness:
  "ps_mode (set_mode FULL_ACCESS (grant_thread_writes new_session)) = FULL_ACCESS \<and>
   ''shell.execute'' \<in> {''workspace.delete'', ''shell.execute''}"
proof (rule reachable_session_never_grants_shell [where thread_id = "''t1''"])
  show "reachable_session (set_mode FULL_ACCESS (grant_thread_writes new_session))"
    by (blast intro: reachable_session.intros session_step.intros)
  show "pd_action (evaluate (session_request
      (set_mode FULL_ACCESS (grant_thread_writes new_session)) ''shell.execute'' ''t1'')) = ALLOW"
    by (simp add: evaluate_allow_iff session_request_def set_mode_def)
qed simp



end
