(* ===== verification/PathSyntax.thy ===== *)
theory PathSyntax
  imports Prelude
begin

text \<open>
  \<open>src/awesome_agent/core/workspace/path_syntax.py\<close>: the syntactic check
  every workspace-relative path passes before it reaches the filesystem, with
  the parts of \<open>PurePosixPath\<close> and \<open>PureWindowsPath\<close> it uses.
\<close>

datatype path_platform = Windows | Posix

datatype syntax_kind = ESCAPE | AMBIGUOUS

record pure_path =
  pp_drive :: string
  pp_root :: string
  pp_parts :: "string list"

text \<open>\<open>PurePosixPath(s)\<close>: one or two leading slashes are the root (exactly
  two are kept), empty and \<open>.\<close> components vanish, and a rooted path has its
  root as the first of its \<open>parts\<close>.\<close>

definition posix_components :: "string \<Rightarrow> string list" where
  "posix_components s = filter (\<lambda>c. c \<noteq> [] \<and> c \<noteq> ''.'') (split_on CHR ''/'' s)"

definition posix_root :: "string \<Rightarrow> string" where
  "posix_root s =
     (if \<not> starts_with ''/'' s then []
      else if starts_with ''//'' s \<and> \<not> starts_with ''///'' s then ''//'' else ''/'')"

definition pure_posix_path :: "string \<Rightarrow> pure_path" where
  "pure_posix_path s =
     (let root = posix_root s; comps = posix_components s in
      \<lparr>pp_drive = [], pp_root = root, pp_parts = (if root = [] then comps else root # comps)\<rparr>)"

text \<open>\<open>ntpath.splitroot\<close> on the string with forward slashes turned into
  backslashes: a UNC or device drive, a rooted path without a drive, or a
  drive letter with or without a root.  The root \<open>pathlib\<close> adds to a bare UNC
  share is left out: such a path starts with a separator, which the check
  refuses before it looks at the root.\<close>

definition bslash :: char where
  "bslash = CHR 0x5C"

definition to_windows :: "string \<Rightarrow> string" where
  "to_windows s = map (\<lambda>c. if c = CHR ''/'' then bslash else c) s"

definition unc_drive_length :: "string \<Rightarrow> nat" where
  "unc_drive_length s =
     (let start = (if starts_with [bslash, bslash, CHR ''?'', bslash, CHR ''U'', CHR ''N'', CHR ''C'', bslash]
                        (map (\<lambda>c. if 97 \<le> (of_char c :: nat) \<and> (of_char c :: nat) \<le> 122
                                   then char_of ((of_char c :: nat) - 32) else c) s)
                   then 8 else 2);
          server = length (takeWhile (\<lambda>c. c \<noteq> bslash) (drop start s));
          after = start + server
      in if after = length s then length s
         else let share = length (takeWhile (\<lambda>c. c \<noteq> bslash) (drop (after + 1) s))
              in after + 1 + share)"

definition windows_splitroot :: "string \<Rightarrow> string \<times> string \<times> string" where
  "windows_splitroot s =
     (if starts_with [bslash, bslash] s then
        (let n = unc_drive_length s in (take n s, take 1 (drop n s), drop (n + 1) s))
      else if starts_with [bslash] s then ([], take 1 s, drop 1 s)
      else if take 1 (drop 1 s) = '':'' then
        (if take 1 (drop 2 s) = [bslash] then (take 2 s, take 1 (drop 2 s), drop 3 s)
         else (take 2 s, [], drop 2 s))
      else ([], [], s))"

definition pure_windows_path :: "string \<Rightarrow> pure_path" where
  "pure_windows_path s =
     (case windows_splitroot (to_windows s) of (drive, root, rest) \<Rightarrow>
       let comps = filter (\<lambda>c. c \<noteq> [] \<and> c \<noteq> ''.'') (split_on bslash rest)
       in \<lparr>pp_drive = drive, pp_root = root,
           pp_parts = (if drive = [] \<and> root = [] then comps else (drive @ root) # comps)\<rparr>)"

definition pp_is_absolute :: "path_platform \<Rightarrow> pure_path \<Rightarrow> bool" where
  "pp_is_absolute platform p =
     (case platform of
        Posix \<Rightarrow> pp_root p \<noteq> []
      | Windows \<Rightarrow> pp_drive p \<noteq> [] \<and> pp_root p \<noteq> [])"

definition pp_anchor :: "pure_path \<Rightarrow> string" where
  "pp_anchor p = pp_drive p @ pp_root p"

section \<open>Ambiguous Windows components\<close>

definition windows_reserved_basenames :: "string list" where
  "windows_reserved_basenames =
     [''aux'', ''clock$'', ''con'', ''conin$'', ''conout$'', ''nul'', ''prn'']"

text \<open>\<open>(?:com|lpt)[1-9\<^sup>1\<^sup>2\<^sup>3]\<close>, ignoring case; the three superscript digits
  are the Latin-1 characters 0xB9, 0xB2 and 0xB3.\<close>

definition windows_numbered_device :: "string \<Rightarrow> bool" where
  "windows_numbered_device s \<longleftrightarrow>
     length s = 4 \<and> casefold (take 3 s) \<in> {''com'', ''lpt''} \<and>
     (let d = (of_char (s ! 3) :: nat) in (49 \<le> d \<and> d \<le> 57) \<or> d \<in> {0xB9, 0xB2, 0xB3})"

text \<open>\<open>[^.]{1,6}~[0-9]+(?:\.[^.]{0,3})?\<close>: some tilde follows one to six
  characters, none a dot, then digits, then at most one short suffix.\<close>

definition short_alias_tail :: "string \<Rightarrow> bool" where
  "short_alias_tail t \<longleftrightarrow>
     (let digits = takeWhile is_digit t; rest = dropWhile is_digit t in
      digits \<noteq> [] \<and>
      (rest = [] \<or>
       (hd rest = CHR ''.'' \<and> length (tl rest) \<le> 3 \<and> CHR ''.'' \<notin> set (tl rest))))"

definition windows_short_name_alias :: "string \<Rightarrow> bool" where
  "windows_short_name_alias s \<longleftrightarrow>
     list_ex (\<lambda>i. i < length s \<and> s ! i = CHR ''~'' \<and> CHR ''.'' \<notin> set (take i s)
                 \<and> short_alias_tail (drop (i + 1) s)) [1, 2, 3, 4, 5, 6]"

definition windows_invalid_characters :: "char list" where
  "windows_invalid_characters = [CHR ''<'', CHR ''>'', CHR 0x22, CHR ''|'', CHR ''?'', CHR ''*'']"

definition rstrip_chars :: "char list \<Rightarrow> string \<Rightarrow> string" where
  "rstrip_chars cs s = rev (dropWhile (\<lambda>c. c \<in> set cs) (rev s))"

definition is_ambiguous_windows_component :: "string \<Rightarrow> bool" where
  "is_ambiguous_windows_component component =
     (if CHR '':'' \<in> set component \<or> ends_with '' '' component \<or> ends_with ''.'' component
         \<or> list_ex (\<lambda>c. c \<in> set windows_invalid_characters) component
         \<or> list_ex (\<lambda>c. (of_char c :: nat) < 32) component
      then True
      else let basename = rstrip_chars '' .'' (hd (split_on CHR ''.'' component)) in
        casefold basename \<in> set windows_reserved_basenames
        \<or> windows_numbered_device basename
        \<or> windows_short_name_alias component)"

section \<open>The check\<close>

definition parse_path :: "path_platform \<Rightarrow> string \<Rightarrow> pure_path" where
  "parse_path selected requested =
     (case selected of Windows \<Rightarrow> pure_windows_path requested | Posix \<Rightarrow> pure_posix_path requested)"

definition validate_workspace_relative_path_syntax ::
  "path_platform \<Rightarrow> string \<Rightarrow> syntax_kind + unit" where
  "validate_workspace_relative_path_syntax selected requested =
     (if CHR 0x00 \<in> set requested then Inl AMBIGUOUS
      else let parsed = parse_path selected requested in
        if pp_is_absolute selected parsed
           \<or> starts_with ''/'' requested
           \<or> (selected = Windows \<and> starts_with [bslash] requested)
           \<or> pp_drive parsed \<noteq> [] \<or> pp_root parsed \<noteq> [] \<or> pp_anchor parsed \<noteq> []
           \<or> ''..'' \<in> set (pp_parts parsed)
        then Inl ESCAPE
        else if selected = Windows \<and> list_ex is_ambiguous_windows_component (pp_parts parsed)
        then Inl AMBIGUOUS
        else Inr ())"

section \<open>What an accepted path is\<close>

text \<open>A component a path may have: neither empty, nor \<open>.\<close> or \<open>..\<close>, with no
  separator and no NUL.\<close>

definition plain_component :: "string \<Rightarrow> bool" where
  "plain_component c \<longleftrightarrow>
     c \<noteq> [] \<and> c \<noteq> ''.'' \<and> c \<noteq> ''..'' \<and> CHR ''/'' \<notin> set c \<and> CHR 0x00 \<notin> set c"

lemma split_on_chars: "x \<in> set (split_on c s) \<Longrightarrow> set x \<subseteq> set s"
proof (induction s arbitrary: x)
  case (Cons y ys)
  obtain a list where "split_on c ys = a # list"
    by (cases "split_on c ys") auto
  with Cons show ?case by (fastforce split: if_splits)
qed simp

lemma posix_components_plain:
  "x \<in> set (posix_components s) \<Longrightarrow>
     x \<noteq> [] \<and> x \<noteq> ''.'' \<and> CHR ''/'' \<notin> set x \<and> set x \<subseteq> set s"
  by (auto simp: posix_components_def dest: split_on_no_sep split_on_chars)

lemma posix_relative_parts:
  "\<not> starts_with ''/'' s \<Longrightarrow> pp_parts (pure_posix_path s) = posix_components s"
  by (simp add: pure_posix_path_def posix_root_def Let_def)

lemma validate_posix_accepts:
  "validate_workspace_relative_path_syntax Posix s = Inr () \<longleftrightarrow>
     CHR 0x00 \<notin> set s \<and> \<not> starts_with ''/'' s \<and> ''..'' \<notin> set (posix_components s)"
  by (auto simp: validate_workspace_relative_path_syntax_def Let_def parse_path_def
      pp_is_absolute_def pp_anchor_def pure_posix_path_def posix_root_def)

lemma validate_windows_accepts:
  "validate_workspace_relative_path_syntax Windows s = Inr () \<Longrightarrow>
     CHR 0x00 \<notin> set s \<and> pp_drive (pure_windows_path s) = [] \<and> pp_root (pure_windows_path s) = [] \<and>
     ''..'' \<notin> set (pp_parts (pure_windows_path s)) \<and>
     list_all (\<lambda>c. \<not> is_ambiguous_windows_component c) (pp_parts (pure_windows_path s))"
  by (auto simp: validate_workspace_relative_path_syntax_def Let_def parse_path_def
      list_all_iff list_ex_iff split: if_splits)

lemma accepted_posix_components_plain:
  "validate_workspace_relative_path_syntax Posix s = Inr () \<Longrightarrow>
   list_all plain_component (posix_components s)"
  by (auto simp: validate_posix_accepts list_all_iff plain_component_def
      dest: posix_components_plain)

text \<open>Joining plain components and splitting again gives them back, so the
  \<open>as_posix\<close> form of an accepted path names the same components.\<close>

lemma split_on_append_sep:
  "c \<notin> set x \<Longrightarrow> split_on c (x @ c # s) = x # split_on c s"
  by (induction x) auto

lemma split_on_plain: "c \<notin> set x \<Longrightarrow> split_on c x = [x]"
  by (induction x) auto

lemma split_join:
  "xs \<noteq> [] \<Longrightarrow> list_all (\<lambda>x. c \<notin> set x) xs \<Longrightarrow> split_on c (join_with [c] xs) = xs"
proof (induction xs rule: induct_list012)
  case (3 x y zs)
  then show ?case by (simp add: split_on_append_sep)
qed (auto simp: split_on_plain)

lemma posix_components_join:
  assumes "list_all plain_component xs"
  shows "posix_components (join_with ''/'' xs) = xs"
proof (cases "xs = []")
  case False
  have "list_all (\<lambda>x. CHR ''/'' \<notin> set x) xs"
    using assms by (auto simp: list_all_iff plain_component_def)
  with False have "split_on CHR ''/'' (join_with ''/'' xs) = xs" by (rule split_join)
  with assms show ?thesis
    by (auto simp: posix_components_def list_all_iff plain_component_def filter_id_conv)
qed (simp add: posix_components_def)

lemma join_set: "set (join_with sep xs) \<subseteq> set sep \<union> \<Union> (set ` set xs)"
  by (induction sep xs rule: join_with.induct) auto

lemma join_plain_start:
  assumes "list_all plain_component xs"
  shows "\<not> starts_with ''/'' (join_with ''/'' xs)"
proof (cases xs)
  case (Cons y ys)
  then have "y \<noteq> []" and "CHR ''/'' \<notin> set y"
    using assms by (auto simp: plain_component_def)
  then show ?thesis using Cons
    by (cases y; cases ys) (auto simp: starts_with_def)
qed (simp add: starts_with_def)

lemma validate_join:
  assumes "list_all plain_component xs"
  shows "validate_workspace_relative_path_syntax Posix (join_with ''/'' xs) = Inr ()"
proof -
  have "CHR 0x00 \<notin> set (join_with ''/'' xs)"
    using assms join_set [of "''/''" xs] by (fastforce simp: list_all_iff plain_component_def)
  with assms show ?thesis
    by (auto simp: validate_posix_accepts posix_components_join join_plain_start
        list_all_iff plain_component_def)
qed

section \<open>Properties\<close>

text \<open>C26: On POSIX a path is accepted exactly when it has no NUL, does not start
  with a slash and has no \<open>..\<close> component.  An accepted path is therefore a
  list of plain components, and its normalised \<open>as_posix\<close> form is accepted
  again and names the same components.\<close>

theorem accepted_path_is_plain:
  "(validate_workspace_relative_path_syntax Posix s = Inr () \<longleftrightarrow>
      CHR 0x00 \<notin> set s \<and> \<not> starts_with ''/'' s \<and> ''..'' \<notin> set (posix_components s)) \<and>
   (validate_workspace_relative_path_syntax Posix s = Inr () \<longrightarrow>
      list_all plain_component (posix_components s) \<and>
      validate_workspace_relative_path_syntax Posix (join_with ''/'' (posix_components s)) = Inr () \<and>
      posix_components (join_with ''/'' (posix_components s)) = posix_components s)"
  using validate_posix_accepts accepted_posix_components_plain validate_join posix_components_join
  by blast

theorem accepted_path_is_plain_witness:
  "validate_workspace_relative_path_syntax Posix ''src//./a.py'' = Inr () \<and>
   posix_components ''src//./a.py'' = [''src'', ''a.py''] \<and>
   list_all plain_component (posix_components ''src//./a.py'')"
proof -
  have a: "validate_workspace_relative_path_syntax Posix ''src//./a.py'' = Inr ()"
    by (simp add: validate_posix_accepts starts_with_def posix_components_def)
  show ?thesis
    using a accepted_path_is_plain [of "''src//./a.py''"] by (simp add: posix_components_def)
qed

text \<open>C27: On Windows an accepted path has no drive, no root and no \<open>..\<close>, and none of
  its components is a reserved device name, a numbered device, a DOS short
  name, carries a stream separator or ends in a space or a dot.\<close>

theorem accepted_windows_path_unambiguous:
  assumes "validate_workspace_relative_path_syntax Windows s = Inr ()"
    and "c \<in> set (pp_parts (pure_windows_path s))"
  shows "pp_anchor (pure_windows_path s) = [] \<and> c \<noteq> ''..'' \<and> CHR '':'' \<notin> set c \<and>
    \<not> ends_with '' '' c \<and> \<not> ends_with ''.'' c \<and> \<not> windows_short_name_alias c \<and>
    (\<forall>base. base = rstrip_chars '' .'' (hd (split_on CHR ''.'' c)) \<longrightarrow>
       casefold base \<notin> set windows_reserved_basenames \<and> \<not> windows_numbered_device base)"
  using validate_windows_accepts [OF assms(1)] assms(2)
  by (auto simp: pp_anchor_def list_all_iff is_ambiguous_windows_component_def Let_def
      split: if_splits)

theorem accepted_windows_path_unambiguous_witness:
  "pp_anchor (pure_windows_path ''src/main.py'') = [] \<and> ''main.py'' \<noteq> ''..'' \<and>
   \<not> windows_short_name_alias ''main.py''"
proof -
  have p: "pp_parts (pure_windows_path ''src/main.py'') = [''src'', ''main.py'']"
    by code_simp
  have a: "validate_workspace_relative_path_syntax Windows ''src/main.py'' = Inr ()"
    by code_simp
  show ?thesis
    using accepted_windows_path_unambiguous [OF a, of "''main.py''"] p by simp
qed

end
