(* ===== verification/ChangeModels.thy ===== *)
theory ChangeModels
  imports Prelude
begin

text \<open>
  The records of the Change Journal (\<open>core/changes/models.py\<close>, \<open>ports.py\<close>),
  the snapshots of \<open>core/changes/filesystem.py\<close>, the blob store of
  \<open>storage/changes.py\<close> and \<open>merge_file_changes\<close> of
  \<open>core/changes/analysis.py\<close>.  A byte string is a list of characters.  The
  digest \<open>hashlib.sha256(..).hexdigest()\<close> is the parameter \<open>H\<close> of every
  definition that uses it: no property rests on how it is computed.
\<close>

datatype change_lifecycle = OPEN | APPLIED | UNDONE

datatype change_reversibility = REV_FULL | REV_PARTIAL | REV_NONE

datatype file_change_kind = CREATED | UPDATED | DELETED

datatype file_node_type = FILE | DIRECTORY | SYMLINK

datatype change_error =
    ChangeBlobCorrupt
  | ChangeCapacityExceeded
  | ChangeConflict
  | ChangeLifecycleError
  | ChangeNotReversible
  | ChangeSetNotFound
  | PendingMutationConflict
  | MutationTargetChanged
  | UnsafeWorkspacePath
  | OSFailure
  | ValueFailure
  | AssertionFailure
  | KeyFailure
  | Crashed

record node_snapshot =
  ns_type :: file_node_type
  ns_content :: "string option"
  ns_mode :: "nat option"

record file_change =
  fc_mutation_id :: "string option"
  fc_path :: string
  fc_kind :: file_change_kind
  fc_node_type :: file_node_type
  fc_before_type :: "file_node_type option"
  fc_after_type :: "file_node_type option"
  fc_before_hash :: "string option"
  fc_after_hash :: "string option"
  fc_before_blob :: "string option"
  fc_after_blob :: "string option"
  fc_before_mode :: "nat option"
  fc_after_mode :: "nat option"

record execute_observation =
  eo_command :: string
  eo_paths :: "string list"

record change_set =
  cs_id :: string
  cs_session :: string
  cs_turn :: "string option"
  cs_workspace :: string
  cs_lifecycle :: change_lifecycle
  cs_reversibility :: change_reversibility
  cs_files :: "file_change list"
  cs_execute :: "execute_observation list"
  cs_created :: nat
  cs_sealed :: "nat option"

record pending_mutation =
  pm_id :: string
  pm_set :: string
  pm_workspace :: string
  pm_path :: string
  pm_kind :: file_change_kind
  pm_node_type :: file_node_type
  pm_before_type :: "file_node_type option"
  pm_after_type :: "file_node_type option"
  pm_before_hash :: "string option"
  pm_before_blob :: "string option"
  pm_before_mode :: "nat option"
  pm_after_hash :: "string option"
  pm_after_blob :: "string option"
  pm_after_mode :: "nat option"
  pm_created :: nat

definition or_else :: "'a option \<Rightarrow> 'a \<Rightarrow> 'a" where
  "or_else x d = (case x of None \<Rightarrow> d | Some y \<Rightarrow> y)"

lemma or_else_simps [simp]: "or_else None d = d" "or_else (Some x) d = x"
  by (simp_all add: or_else_def)

definition resolved_before_node_type :: "file_change \<Rightarrow> file_node_type option" where
  "resolved_before_node_type c =
     (if fc_before_hash c = None then None else Some (or_else (fc_before_type c) (fc_node_type c)))"

definition resolved_after_node_type :: "file_change \<Rightarrow> file_node_type option" where
  "resolved_after_node_type c =
     (if fc_after_hash c = None then None else Some (or_else (fc_after_type c) (fc_node_type c)))"

definition pm_resolved_before :: "pending_mutation \<Rightarrow> file_node_type option" where
  "pm_resolved_before p =
     (if pm_before_hash p = None then None else Some (or_else (pm_before_type p) (pm_node_type p)))"

definition pm_resolved_after :: "pending_mutation \<Rightarrow> file_node_type option" where
  "pm_resolved_after p =
     (if pm_after_hash p = None then None else Some (or_else (pm_after_type p) (pm_node_type p)))"

section \<open>Snapshots\<close>

definition snapshot_digest :: "(string \<Rightarrow> string) \<Rightarrow> node_snapshot option \<Rightarrow> string option" where
  "snapshot_digest H snapshot =
     (case snapshot of None \<Rightarrow> None | Some s \<Rightarrow> Some (H (or_else (ns_content s) [])))"

definition snapshot_matches_record ::
  "(string \<Rightarrow> string) \<Rightarrow> node_snapshot option \<Rightarrow> string option \<Rightarrow> nat option \<Rightarrow> file_node_type \<Rightarrow> bool"
where
  "snapshot_matches_record H snapshot digest mode node_type =
     (case digest of
        None \<Rightarrow> snapshot = None
      | Some d \<Rightarrow>
          (case snapshot of
             None \<Rightarrow> False
           | Some s \<Rightarrow> ns_type s = node_type \<and> snapshot_digest H (Some s) = Some d
               \<and> (mode = None \<or> ns_mode s = mode)))"

definition snapshots_match ::
  "(string \<Rightarrow> string) \<Rightarrow> node_snapshot option \<Rightarrow> node_snapshot option \<Rightarrow> bool" where
  "snapshots_match H snapshot expected =
     (case expected of
        None \<Rightarrow> snapshot = None
      | Some e \<Rightarrow>
          (case snapshot of
             None \<Rightarrow> False
           | Some s \<Rightarrow> ns_type s = ns_type e \<and> snapshot_digest H (Some s) = snapshot_digest H (Some e)
               \<and> ns_mode s = ns_mode e))"

lemma snapshots_match_refl [simp]: "snapshots_match H s s"
  by (simp add: snapshots_match_def split: option.split)

lemma snapshots_match_sym: "snapshots_match H s t \<Longrightarrow> snapshots_match H t s"
  by (auto simp: snapshots_match_def split: option.splits)

lemma snapshots_match_trans:
  "snapshots_match H s t \<Longrightarrow> snapshots_match H t u \<Longrightarrow> snapshots_match H s u"
  by (auto simp: snapshots_match_def split: option.splits)

lemma snapshots_match_None [simp]:
  "snapshots_match H s None \<longleftrightarrow> s = None" "snapshots_match H None s \<longleftrightarrow> s = None"
  by (auto simp: snapshots_match_def split: option.splits)

lemma snapshot_digest_simps [simp]:
  "snapshot_digest H None = None"
  "snapshot_digest H (Some s) = Some (H (or_else (ns_content s) []))"
  by (simp_all add: snapshot_digest_def)

section \<open>Blobs\<close>

type_synonym blobs = "string \<Rightarrow> string option"

definition is_hex :: "char \<Rightarrow> bool" where
  "is_hex c \<longleftrightarrow> c \<in> set ''0123456789abcdef''"

definition valid_digest :: "string \<Rightarrow> bool" where
  "valid_digest digest \<longleftrightarrow> length digest = 64 \<and> list_all is_hex digest"

definition blob_get :: "(string \<Rightarrow> string) \<Rightarrow> blobs \<Rightarrow> string \<Rightarrow> change_error + string" where
  "blob_get H blobs digest =
     (if \<not> valid_digest digest then Inl ChangeBlobCorrupt
      else (case blobs digest of
              None \<Rightarrow> Inl ChangeBlobCorrupt
            | Some content \<Rightarrow> if H content \<noteq> digest then Inl ChangeBlobCorrupt else Inr content))"

definition blob_put ::
  "(string \<Rightarrow> string) \<Rightarrow> string \<Rightarrow> blobs \<Rightarrow> (change_error + string) \<times> blobs" where
  "blob_put H content blobs =
     (let digest = H content in
      if \<not> valid_digest digest then (Inl ChangeBlobCorrupt, blobs)
      else if blobs digest \<noteq> None then
        (case blob_get H blobs digest of Inl e \<Rightarrow> (Inl e, blobs) | Inr _ \<Rightarrow> (Inr digest, blobs))
      else (Inr digest, blobs(digest \<mapsto> content)))"

lemma blob_get_Inr:
  "blob_get H blobs d = Inr c \<longleftrightarrow> valid_digest d \<and> blobs d = Some c \<and> H c = d"
  by (auto simp: blob_get_def split: option.split)

lemma blob_put_Inr:
  "blob_put H content blobs = (Inr digest, blobs') \<longleftrightarrow>
     digest = H content \<and> valid_digest digest \<and>
     (if blobs digest = None then blobs' = blobs(digest \<mapsto> content)
      else (\<exists>c. blob_get H blobs digest = Inr c) \<and> blobs' = blobs)"
  by (auto simp: blob_put_def Let_def split: sum.split)

lemma blob_put_get:
  assumes "blob_put H content blobs = (Inr digest, blobs')"
  shows "digest = H content" and "\<exists>c. blob_get H blobs' digest = Inr c"
  using assms by (auto simp: blob_put_Inr blob_get_Inr split: if_splits)

lemma blob_put_keeps:
  assumes "blob_put H content blobs = (r, blobs')" and "blob_get H blobs d = Inr c"
  shows "blob_get H blobs' d = Inr c"
proof (cases r)
  case (Inl e)
  then have "blobs' = blobs"
    using assms(1) by (auto simp: blob_put_def Let_def split: if_splits sum.splits)
  with assms(2) show ?thesis by simp
next
  case (Inr x)
  then show ?thesis
    using assms by (auto simp: blob_put_Inr blob_get_Inr split: if_splits)
qed

lemma blob_get_hash: "blob_get H blobs d = Inr c \<Longrightarrow> H c = d"
  by (simp add: blob_get_Inr)

section \<open>Merging the changes of a set\<close>

text \<open>\<open>merge_file_changes\<close>: a dict from paths to merged changes and the list
  that orders them.\<close>

record merge_state =
  ms_merged :: "string \<Rightarrow> file_change option"
  ms_order :: "string list"

definition merge_first :: "file_change \<Rightarrow> file_change" where
  "merge_first change =
     change\<lparr>fc_before_type := resolved_before_node_type change,
            fc_after_type := resolved_after_node_type change\<rparr>"

definition merge_change :: "file_change \<Rightarrow> merge_state \<Rightarrow> change_error + merge_state" where
  "merge_change change m =
     (case ms_merged m (fc_path change) of
        None \<Rightarrow>
          Inr (m\<lparr>ms_merged := (ms_merged m)(fc_path change \<mapsto> merge_first change),
                 ms_order := ms_order m @ [fc_path change]\<rparr>)
      | Some existing \<Rightarrow>
          let before_exists = (fc_before_hash existing \<noteq> None);
              after_exists = (fc_after_hash change \<noteq> None)
          in if \<not> before_exists \<and> \<not> after_exists then
               Inr (m\<lparr>ms_merged := (ms_merged m)(fc_path change := None),
                      ms_order := remove1 (fc_path change) (ms_order m)\<rparr>)
             else
               let kind = (if \<not> before_exists then CREATED
                           else if \<not> after_exists then DELETED else UPDATED);
                   before_node_type = resolved_before_node_type existing;
                   after_node_type = resolved_after_node_type change
               in (case (case after_node_type of None \<Rightarrow> before_node_type | Some t \<Rightarrow> Some t) of
                     None \<Rightarrow> Inl ChangeLifecycleError
                   | Some display_node_type \<Rightarrow>
                       Inr (m\<lparr>ms_merged := (ms_merged m)(fc_path change \<mapsto>
                         existing\<lparr>fc_kind := kind, fc_node_type := display_node_type,
                           fc_before_type := before_node_type, fc_after_type := after_node_type,
                           fc_after_hash := fc_after_hash change,
                           fc_after_blob := fc_after_blob change,
                           fc_after_mode := fc_after_mode change\<rparr>)\<rparr>)))"

fun merge_loop :: "file_change list \<Rightarrow> merge_state \<Rightarrow> change_error + merge_state" where
  "merge_loop [] m = Inr m"
| "merge_loop (c # cs) m = (case merge_change c m of Inl e \<Rightarrow> Inl e | Inr m' \<Rightarrow> merge_loop cs m')"

definition merge_file_changes :: "file_change list \<Rightarrow> change_error + file_change list" where
  "merge_file_changes changes =
     (case merge_loop changes \<lparr>ms_merged = Map.empty, ms_order = []\<rparr> of
        Inl e \<Rightarrow> Inl e
      | Inr m \<Rightarrow> Inr (List.map_filter (ms_merged m) (ms_order m)))"

section \<open>The net effect of a set\<close>

text \<open>What a record says of its path before and after the change: nothing, when
  there is no digest, else digest, blob, mode and node type.\<close>

type_synonym node_record = "(string \<times> string option \<times> nat option \<times> file_node_type) option"

definition before_state :: "file_change \<Rightarrow> node_record" where
  "before_state c =
     (case fc_before_hash c of None \<Rightarrow> None
      | Some h \<Rightarrow> Some (h, fc_before_blob c, fc_before_mode c, or_else (fc_before_type c) (fc_node_type c)))"

definition after_state :: "file_change \<Rightarrow> node_record" where
  "after_state c =
     (case fc_after_hash c of None \<Rightarrow> None
      | Some h \<Rightarrow> Some (h, fc_after_blob c, fc_after_mode c, or_else (fc_after_type c) (fc_node_type c)))"

definition history :: "string \<Rightarrow> file_change list \<Rightarrow> file_change list" where
  "history p cs = filter (\<lambda>c. fc_path c = p) cs"

definition coherent :: "file_change list \<Rightarrow> bool" where
  "coherent cs \<longleftrightarrow>
     (\<forall>p \<in> fc_path ` set cs. successively (\<lambda>a b. after_state a = before_state b) (history p cs))"

definition net_of_history :: "file_change list \<Rightarrow> node_record \<times> node_record" where
  "net_of_history h = (case h of [] \<Rightarrow> (None, None) | c # _ \<Rightarrow> (before_state c, after_state (last h)))"

definition net_of_merged :: "file_change list \<Rightarrow> string \<Rightarrow> node_record \<times> node_record" where
  "net_of_merged ms p =
     (case lookup_row fc_path p ms of None \<Rightarrow> (None, None) | Some c \<Rightarrow> (before_state c, after_state c))"

lemma history_snoc: "history p (cs @ [c]) = history p cs @ (if fc_path c = p then [c] else [])"
  by (simp add: history_def)

lemma history_empty: "history p cs = [] \<longleftrightarrow> p \<notin> fc_path ` set cs"
  by (auto simp: history_def filter_empty_conv)

lemma coherent_iff:
  "coherent cs \<longleftrightarrow> (\<forall>p. successively (\<lambda>a b. after_state a = before_state b) (history p cs))"
  unfolding coherent_def by (metis history_empty successively.simps(1))

lemma coherent_snoc:
  "coherent (cs @ [c]) \<longleftrightarrow> coherent cs \<and>
     (history (fc_path c) cs \<noteq> [] \<longrightarrow> after_state (last (history (fc_path c) cs)) = before_state c)"
  unfolding coherent_iff history_snoc
  by (auto simp: successively_append_iff split: if_splits)

lemma net_snoc:
  "net_of_history (h @ [c]) = (if h = [] then before_state c else fst (net_of_history h), after_state c)"
  by (cases h) (auto simp: net_of_history_def)

lemma net_snd_last: "h \<noteq> [] \<Longrightarrow> snd (net_of_history h) = after_state (last h)"
  by (cases h) (auto simp: net_of_history_def)

lemma states_None [simp]:
  "before_state c = None \<longleftrightarrow> fc_before_hash c = None"
  "after_state c = None \<longleftrightarrow> fc_after_hash c = None"
  "None = before_state c \<longleftrightarrow> fc_before_hash c = None"
  "None = after_state c \<longleftrightarrow> fc_after_hash c = None"
  by (auto simp: before_state_def after_state_def split: option.splits)

lemma merge_first_states [simp]:
  "before_state (merge_first c) = before_state c" "after_state (merge_first c) = after_state c"
  "fc_path (merge_first c) = fc_path c"
  by (auto simp: merge_first_def before_state_def after_state_def resolved_before_node_type_def
      resolved_after_node_type_def split: option.splits)

text \<open>The loop invariant: the order lists the merged paths once, and each path
  carries its net effect so far.\<close>

definition merge_inv :: "file_change list \<Rightarrow> merge_state \<Rightarrow> bool" where
  "merge_inv cs m \<longleftrightarrow>
     distinct (ms_order m) \<and> set (ms_order m) = dom (ms_merged m) \<and>
     (\<forall>p c. ms_merged m p = Some c \<longrightarrow> fc_path c = p \<and> history p cs \<noteq> []) \<and>
     (\<forall>p. (case ms_merged m p of None \<Rightarrow> (None, None) | Some c \<Rightarrow> (before_state c, after_state c))
          = net_of_history (history p cs))"

lemma merge_loop_append:
  "merge_loop (xs @ ys) m = (case merge_loop xs m of Inl e \<Rightarrow> Inl e | Inr m' \<Rightarrow> merge_loop ys m')"
  by (induction xs arbitrary: m) (auto split: sum.split)

lemma merge_change_fresh:
  assumes "merge_inv cs m" and "ms_merged m (fc_path c) = None" and "coherent (cs @ [c])"
  shows "\<exists>m'. merge_change c m = Inr m' \<and> merge_inv (cs @ [c]) m'"
proof -
  have none: "net_of_history (history (fc_path c) cs) = (None, None)"
    using assms(1,2) by (auto simp: merge_inv_def split: option.splits dest!: spec [of _ "fc_path c"])
  have "history (fc_path c) cs \<noteq> [] \<Longrightarrow> before_state c = None"
    using assms(3) none net_snd_last [of "history (fc_path c) cs"]
    by (auto simp: coherent_snoc)
  then have net: "net_of_history (history (fc_path c) cs @ [c]) = (before_state c, after_state c)"
    using none by (auto simp: net_snoc)
  show ?thesis
    using assms(1,2) net
    by (auto simp: merge_change_def merge_inv_def history_snoc dom_def)
qed

lemma merge_change_known:
  assumes inv: "merge_inv cs m" and e: "ms_merged m (fc_path c) = Some e"
  shows "\<exists>m'. merge_change c m = Inr m' \<and> merge_inv (cs @ [c]) m'"
proof -
  let ?h = "history (fc_path c) cs"
  have h: "?h \<noteq> []" "fc_path e = fc_path c" and "net_of_history ?h = (before_state e, after_state e)"
    using inv e by (auto simp: merge_inv_def dest!: spec [of _ "fc_path c"])
  then have net: "net_of_history (?h @ [c]) = (before_state e, after_state c)"
    by (simp add: net_snoc)
  show ?thesis
  proof (cases "fc_before_hash e = None \<and> fc_after_hash c = None")
    case True
    then show ?thesis using inv e net
      by (auto simp: merge_change_def merge_inv_def history_snoc dom_def
          distinct_remove1 set_remove1_eq)
  next
    case False
    then obtain t where t: "(case resolved_after_node_type c of
        None \<Rightarrow> resolved_before_node_type e | Some t \<Rightarrow> Some t) = Some t"
      by (cases "fc_after_hash c"; cases "fc_before_hash e")
        (auto simp: resolved_after_node_type_def resolved_before_node_type_def)
    obtain k where m': "merge_change c m = Inr (m\<lparr>ms_merged := (ms_merged m)(fc_path c \<mapsto>
        e\<lparr>fc_kind := k, fc_node_type := t,
          fc_before_type := resolved_before_node_type e, fc_after_type := resolved_after_node_type c,
          fc_after_hash := fc_after_hash c, fc_after_blob := fc_after_blob c,
          fc_after_mode := fc_after_mode c\<rparr>)\<rparr>)" (is "_ = Inr (m\<lparr>ms_merged := (_)(_ \<mapsto> ?e')\<rparr>)")
      using False e t by (auto simp: merge_change_def Let_def)
    have "before_state ?e' = before_state e" "after_state ?e' = after_state c"
      by (auto simp: before_state_def after_state_def resolved_before_node_type_def
          resolved_after_node_type_def split: option.splits)
    with m' inv e net h show ?thesis
      by (auto simp: merge_inv_def history_snoc dom_def)
  qed
qed

lemma merge_loop_inv:
  "coherent cs \<Longrightarrow> \<exists>m. merge_loop cs \<lparr>ms_merged = Map.empty, ms_order = []\<rparr> = Inr m \<and> merge_inv cs m"
proof (induction cs rule: rev_induct)
  case Nil
  then show ?case by (simp add: merge_inv_def history_def net_of_history_def)
next
  case (snoc c cs)
  then obtain m where "merge_loop cs \<lparr>ms_merged = Map.empty, ms_order = []\<rparr> = Inr m" "merge_inv cs m"
    by (auto simp: coherent_snoc)
  moreover have "\<exists>m'. merge_change c m = Inr m' \<and> merge_inv (cs @ [c]) m'"
    using \<open>merge_inv cs m\<close> snoc.prems merge_change_fresh merge_change_known
    by (cases "ms_merged m (fc_path c)") blast+
  ultimately show ?case by (auto simp: merge_loop_append)
qed

lemma map_filter_rows:
  assumes "distinct ks" and "\<And>k c. k \<in> set ks \<Longrightarrow> f k = Some c \<Longrightarrow> key c = k"
  shows "distinct (map key (List.map_filter f ks)) \<and>
    lookup_row key k (List.map_filter f ks) = (if k \<in> set ks then f k else None) \<and>
    key ` set (List.map_filter f ks) \<subseteq> set ks"
  using assms
proof (induction ks)
  case (Cons j ks)
  then have IH: "distinct (map key (List.map_filter f ks))"
    "lookup_row key k (List.map_filter f ks) = (if k \<in> set ks then f k else None)"
    "key ` set (List.map_filter f ks) \<subseteq> set ks"
    by auto
  show ?case
  proof (cases "f j")
    case None
    with IH Cons.prems show ?thesis by (auto simp: map_filter_simps)
  next
    case (Some c)
    then have "key c = j" using Cons.prems by simp
    with Some IH Cons.prems show ?thesis
      by (auto simp: map_filter_simps lookup_row_def)
  qed
qed (simp add: map_filter_simps lookup_row_def)

lemma merge_file_changes_net:
  assumes "coherent cs"
  shows "\<exists>ms. merge_file_changes cs = Inr ms \<and> distinct (map fc_path ms) \<and>
    (\<forall>p. net_of_merged ms p = net_of_history (history p cs))"
proof -
  obtain m where m: "merge_loop cs \<lparr>ms_merged = Map.empty, ms_order = []\<rparr> = Inr m"
    and inv: "merge_inv cs m"
    using merge_loop_inv [OF assms] by blast
  let ?ms = "List.map_filter (ms_merged m) (ms_order m)"
  have rows: "distinct (map fc_path ?ms) \<and>
      lookup_row fc_path p ?ms = (if p \<in> set (ms_order m) then ms_merged m p else None) \<and>
      fc_path ` set ?ms \<subseteq> set (ms_order m)" for p
    by (rule map_filter_rows) (use inv in \<open>auto simp: merge_inv_def\<close>)
  have "net_of_merged ?ms p = net_of_history (history p cs)" for p
  proof -
    have "p \<notin> set (ms_order m) \<Longrightarrow> ms_merged m p = None"
      using inv by (auto simp: merge_inv_def dom_def)
    then have "lookup_row fc_path p ?ms = ms_merged m p" using rows [of p] by auto
    then show ?thesis using inv by (simp add: net_of_merged_def merge_inv_def)
  qed
  with m rows show ?thesis by (auto simp: merge_file_changes_def)
qed

section \<open>Properties\<close>

text \<open>C28: Merging a set whose changes to a path follow on from each other never fails,
  lists every path once, and each path's merged change goes from the state before its
  first change to the state after its last one; a path is dropped only when it
  did not exist before and does not exist after.\<close>

theorem merge_is_net_effect:
  assumes "coherent changes"
  shows "\<exists>ms. merge_file_changes changes = Inr ms \<and> distinct (map fc_path ms) \<and>
    (\<forall>p. net_of_merged ms p = net_of_history (history p changes))"
  using assms by (rule merge_file_changes_net)

definition sample_change :: "file_change_kind \<Rightarrow> string option \<Rightarrow> string option \<Rightarrow> file_change" where
  "sample_change k b a =
     \<lparr>fc_mutation_id = None, fc_path = ''a'', fc_kind = k, fc_node_type = FILE,
      fc_before_type = None, fc_after_type = None, fc_before_hash = b, fc_after_hash = a,
      fc_before_blob = b, fc_after_blob = a, fc_before_mode = None, fc_after_mode = None\<rparr>"

theorem merge_is_net_effect_witness:
  "\<exists>ms. merge_file_changes [sample_change CREATED None (Some ''h1''),
          sample_change UPDATED (Some ''h1'') (Some ''h2''), sample_change DELETED (Some ''h2'') None]
        = Inr ms \<and> net_of_merged ms ''a'' = (None, None)"
proof -
  let ?cs = "[sample_change CREATED None (Some ''h1''),
          sample_change UPDATED (Some ''h1'') (Some ''h2''), sample_change DELETED (Some ''h2'') None]"
  have c: "coherent ?cs"
    by (simp add: coherent_def history_def sample_change_def before_state_def after_state_def)
  have n: "net_of_history (history ''a'' ?cs) = (None, None)"
    by (simp add: history_def net_of_history_def sample_change_def before_state_def after_state_def)
  show ?thesis using merge_is_net_effect [OF c] n by auto
qed

end
