(* ===== verification/ChangeTree.thy ===== *)
theory ChangeTree
  imports ChangeModels PathSyntax "HOL-Library.AList"
begin

text \<open>
  \<open>core/changes/filesystem.py\<close>: the workspace tree and the transaction that
  binds, captures and restores its nodes.  A tree maps the components below the
  pinned root to nodes; every node has the identity (device and inode) the code
  compares before it mutates.  The tree is that of a POSIX host.  The
  directory pins of the code cache open directories and are not modelled: a
  model step looks the directories up again, which is what
  \<open>verify_reachable\<close> makes the pins equal to.  Mount points are not
  modelled.
\<close>

definition MAX_CHANGESET_BYTES :: nat where
  "MAX_CHANGESET_BYTES = 50 * 1024 * 1024"

datatype disk_kind = DFile | DDir | DLink | DOther

record tree_node =
  nd_kind :: disk_kind
  nd_content :: string
  nd_mode :: nat
  nd_ident :: nat

record tree =
  tr_nodes :: "(string list \<times> tree_node) list"
  tr_next :: nat
  tr_root :: nat
  tr_created :: "string list set"
  tr_file_mode :: nat
  tr_dir_mode :: nat
  tr_link_mode :: nat

record bound_node =
  bn_relative :: "string list"
  bn_snapshot :: "node_snapshot option"
  bn_identity :: "nat option"
  bn_missing :: "string list option"

definition node_at :: "tree \<Rightarrow> string list \<Rightarrow> tree_node option" where
  "node_at t p = map_of (tr_nodes t) p"

definition has_children :: "tree \<Rightarrow> string list \<Rightarrow> bool" where
  "has_children t p \<longleftrightarrow> list_ex (\<lambda>(q, _). q \<noteq> [] \<and> butlast q = p) (tr_nodes t)"

definition put_node :: "string list \<Rightarrow> tree_node \<Rightarrow> tree \<Rightarrow> tree" where
  "put_node p n t = t\<lparr>tr_nodes := AList.update p n (tr_nodes t)\<rparr>"

definition drop_node :: "string list \<Rightarrow> tree \<Rightarrow> tree" where
  "drop_node p t = t\<lparr>tr_nodes := AList.delete p (tr_nodes t)\<rparr>"

section \<open>The operations\<close>

definition normalize_workspace_relative :: "string \<Rightarrow> change_error + string list" where
  "normalize_workspace_relative relative_path =
     (case validate_workspace_relative_path_syntax Posix relative_path of
        Inl _ \<Rightarrow> Inl ChangeLifecycleError
      | Inr _ \<Rightarrow>
          let candidate = posix_components relative_path in
          if candidate = [] then Inl ChangeLifecycleError else Inr candidate)"

definition as_posix :: "string list \<Rightarrow> string" where
  "as_posix parts = join_with ''/'' parts"

fun open_parent_from :: "tree \<Rightarrow> string list \<Rightarrow> string list \<Rightarrow> change_error + string list option" where
  "open_parent_from t parts [] = Inr None"
| "open_parent_from t parts (part # rest) =
     (let next_parts = parts @ [part] in
      case node_at t next_parts of
        None \<Rightarrow> Inr (Some next_parts)
      | Some info \<Rightarrow>
          if nd_kind info \<noteq> DDir then Inl UnsafeWorkspacePath
          else open_parent_from t next_parts rest)"

text \<open>\<open>_open_parent\<close>: \<open>None\<close> is an open parent, \<open>Some parts\<close> the first missing
  ancestor.\<close>

definition open_parent :: "tree \<Rightarrow> string list \<Rightarrow> change_error + string list option" where
  "open_parent t parent = open_parent_from t [] parent"

definition capture_child ::
  "tree \<Rightarrow> string list \<Rightarrow> change_error + node_snapshot option \<times> nat option" where
  "capture_child t p =
     (case node_at t p of
        None \<Rightarrow> Inr (None, None)
      | Some info \<Rightarrow>
          (case nd_kind info of
             DLink \<Rightarrow> Inr (Some \<lparr>ns_type = SYMLINK, ns_content = Some (nd_content info),
                               ns_mode = Some (nd_mode info)\<rparr>, Some (nd_ident info))
           | DDir \<Rightarrow> Inr (Some \<lparr>ns_type = DIRECTORY, ns_content = None,
                              ns_mode = Some (nd_mode info)\<rparr>, Some (nd_ident info))
           | DOther \<Rightarrow> Inl UnsafeWorkspacePath
           | DFile \<Rightarrow>
               if length (nd_content info) > MAX_CHANGESET_BYTES then Inl UnsafeWorkspacePath
               else Inr (Some \<lparr>ns_type = FILE, ns_content = Some (nd_content info),
                             ns_mode = Some (nd_mode info)\<rparr>, Some (nd_ident info))))"

definition bind_path :: "tree \<Rightarrow> string \<Rightarrow> change_error + bound_node" where
  "bind_path t relative_path =
     (case normalize_workspace_relative relative_path of
        Inl e \<Rightarrow> Inl e
      | Inr relative \<Rightarrow>
          (case open_parent t (butlast relative) of
             Inl e \<Rightarrow> Inl e
           | Inr (Some missing) \<Rightarrow>
               Inr \<lparr>bn_relative = relative, bn_snapshot = None, bn_identity = None,
                    bn_missing = Some missing\<rparr>
           | Inr None \<Rightarrow>
               (case capture_child t relative of
                  Inl e \<Rightarrow> Inl e
                | Inr (snapshot, node_identity) \<Rightarrow>
                    Inr \<lparr>bn_relative = relative, bn_snapshot = snapshot,
                         bn_identity = node_identity, bn_missing = None\<rparr>)))"

definition verify_missing_ancestor :: "tree \<Rightarrow> bound_node \<Rightarrow> change_error + unit" where
  "verify_missing_ancestor t target =
     (case bn_missing target of
        None \<Rightarrow> Inr ()
      | Some missing \<Rightarrow> if missing \<in> tr_created t then Inr () else Inl MutationTargetChanged)"

definition assert_child_identity ::
  "tree \<Rightarrow> string list \<Rightarrow> nat option \<Rightarrow> bool \<Rightarrow> change_error + unit" where
  "assert_child_identity t p expected allow_reparse =
     (case node_at t p of
        None \<Rightarrow> if expected = None then Inr () else Inl MutationTargetChanged
      | Some current \<Rightarrow>
          if expected \<noteq> Some (nd_ident current) then Inl MutationTargetChanged
          else if nd_kind current = DLink \<and> \<not> allow_reparse then Inl MutationTargetChanged
          else Inr ())"

definition bound_symlink :: "bound_node \<Rightarrow> bool" where
  "bound_symlink target \<longleftrightarrow>
     (case bn_snapshot target of None \<Rightarrow> False | Some s \<Rightarrow> ns_type s = SYMLINK)"

definition capture :: "tree \<Rightarrow> bound_node \<Rightarrow> change_error + node_snapshot option" where
  "capture t target =
     (case open_parent t (butlast (bn_relative target)) of
        Inl e \<Rightarrow> Inl e
      | Inr (Some _) \<Rightarrow> if bn_identity target \<noteq> None then Inl MutationTargetChanged else Inr None
      | Inr None \<Rightarrow>
          (case verify_missing_ancestor t target of Inl e \<Rightarrow> Inl e | Inr _ \<Rightarrow>
          (case assert_child_identity t (bn_relative target) (bn_identity target)
              (bound_symlink target) of Inl e \<Rightarrow> Inl e | Inr _ \<Rightarrow>
          (case capture_child t (bn_relative target) of Inl e \<Rightarrow> Inl e | Inr (s, _) \<Rightarrow> Inr s))))"

definition release_subtree :: "string list \<Rightarrow> tree \<Rightarrow> tree" where
  "release_subtree prefix t =
     t\<lparr>tr_created := Set.filter (\<lambda>parts. take (length prefix) parts \<noteq> prefix) (tr_created t)\<rparr>"

text \<open>\<open>remove_child\<close>: \<open>rmdir\<close> fails on a directory that is not empty.\<close>

definition remove_child :: "string list \<Rightarrow> bool \<Rightarrow> (tree, change_error, unit) eff" where
  "remove_child p is_directory =
     sbind (gets (\<lambda>t. is_directory \<and> has_children t p)) (\<lambda>busy.
       if busy then raise OSFailure else modify (drop_node p))"

definition write_file :: "string list \<Rightarrow> string \<Rightarrow> nat option \<Rightarrow> tree \<Rightarrow> tree" where
  "write_file p content mode t =
     (put_node p \<lparr>nd_kind = DFile, nd_content = content, nd_mode = or_else mode (tr_file_mode t),
                  nd_ident = tr_next t\<rparr> t)\<lparr>tr_next := tr_next t + 1\<rparr>"

definition make_directory :: "string list \<Rightarrow> nat option \<Rightarrow> tree \<Rightarrow> tree" where
  "make_directory p mode t =
     (put_node p \<lparr>nd_kind = DDir, nd_content = [], nd_mode = or_else mode (tr_dir_mode t),
                  nd_ident = tr_next t\<rparr> t)\<lparr>tr_next := tr_next t + 1,
                    tr_created := insert p (tr_created t)\<rparr>"

definition change_mode :: "string list \<Rightarrow> nat option \<Rightarrow> tree \<Rightarrow> tree" where
  "change_mode p mode t =
     (case mode of None \<Rightarrow> t
      | Some m \<Rightarrow> (case node_at t p of None \<Rightarrow> t | Some n \<Rightarrow> put_node p (n\<lparr>nd_mode := m\<rparr>) t))"

definition make_symlink :: "string list \<Rightarrow> string \<Rightarrow> tree \<Rightarrow> tree" where
  "make_symlink p destination t =
     (put_node p \<lparr>nd_kind = DLink, nd_content = destination, nd_mode = tr_link_mode t,
                  nd_ident = tr_next t\<rparr> t)\<lparr>tr_next := tr_next t + 1\<rparr>"

text \<open>The first half of \<open>restore\<close>: a node that must go or change its type is
  removed; the result is the node that is still there.\<close>

definition remove_stale ::
  "bound_node \<Rightarrow> node_snapshot option \<Rightarrow> (tree, change_error, node_snapshot option) eff" where
  "remove_stale target desired =
     (case bn_snapshot target of
        None \<Rightarrow> ret None
      | Some current \<Rightarrow>
          if (case desired of None \<Rightarrow> True
              | Some d \<Rightarrow> ns_type current \<noteq> ns_type d \<or> ns_type d = SYMLINK)
          then andthen (if ns_type current = DIRECTORY
                        then modify (release_subtree (bn_relative target)) else ret ())
               (andthen (remove_child (bn_relative target) (ns_type current = DIRECTORY))
               (ret None))
          else ret (Some current))"

definition write_desired ::
  "string list \<Rightarrow> node_snapshot option \<Rightarrow> node_snapshot option \<Rightarrow> tree \<Rightarrow> tree" where
  "write_desired p current desired t =
     (case desired of
        None \<Rightarrow> t
      | Some d \<Rightarrow>
          (case ns_type d of
             FILE \<Rightarrow> write_file p (or_else (ns_content d) []) (ns_mode d) t
           | DIRECTORY \<Rightarrow>
               change_mode p (ns_mode d)
                 (if current = None then make_directory p (ns_mode d) t else t)
           | SYMLINK \<Rightarrow> make_symlink p (or_else (ns_content d) []) t))"

definition restore ::
  "bound_node \<Rightarrow> node_snapshot option \<Rightarrow> (tree, change_error, node_snapshot option) eff" where
  "restore target desired =
     sbind (reads (\<lambda>t. open_parent t (butlast (bn_relative target)))) (\<lambda>missing.
       if missing \<noteq> None then
         (if desired = None \<and> bn_snapshot target = None then ret None
          else raise MutationTargetChanged)
       else
         andthen (reads (\<lambda>t. verify_missing_ancestor t target))
        (andthen (reads (\<lambda>t. assert_child_identity t (bn_relative target) (bn_identity target)
                    (bound_symlink target)))
        (sbind (remove_stale target desired) (\<lambda>current.
         andthen (modify (write_desired (bn_relative target) current desired))
        (sbind (reads (\<lambda>t. capture_child t (bn_relative target))) (\<lambda>(snapshot, _).
         ret snapshot))))))"

text \<open>\<open>__enter__\<close> and \<open>__exit__\<close>: the root must still be the bound one, and
  the directories a transaction created are forgotten at its ends.\<close>

definition enter_transaction :: "nat \<Rightarrow> (tree, change_error, unit) eff" where
  "enter_transaction root_identity =
     sbind (gets tr_root) (\<lambda>root.
       if root \<noteq> root_identity then raise MutationTargetChanged
       else modify (\<lambda>t. t\<lparr>tr_created := {}\<rparr>))"

definition close_transaction :: "tree \<Rightarrow> tree" where
  "close_transaction t = t\<lparr>tr_created := {}\<rparr>"

section \<open>The tree as a map of digests\<close>

text \<open>The abstract tree says of a path what the journal records of it: node type,
  digest and mode.  Two snapshots match exactly when these agree.\<close>

type_synonym digest_node = "(file_node_type \<times> string \<times> nat option) option"
type_synonym digest_tree = "string list \<Rightarrow> digest_node"

definition digest_of :: "(string \<Rightarrow> string) \<Rightarrow> node_snapshot option \<Rightarrow> digest_node" where
  "digest_of H s = map_option (\<lambda>n. (ns_type n, H (or_else (ns_content n) []), ns_mode n)) s"

lemma snapshots_match_digest: "snapshots_match H s e \<longleftrightarrow> digest_of H s = digest_of H e"
  by (auto simp: snapshots_match_def digest_of_def split: option.splits)

definition snapshot_of :: "tree_node \<Rightarrow> node_snapshot" where
  "snapshot_of n =
     \<lparr>ns_type = (case nd_kind n of DFile \<Rightarrow> FILE | DDir \<Rightarrow> DIRECTORY | _ \<Rightarrow> SYMLINK),
      ns_content = (if nd_kind n = DDir then None else Some (nd_content n)),
      ns_mode = Some (nd_mode n)\<rparr>"

definition look :: "tree \<Rightarrow> string list \<Rightarrow> node_snapshot option" where
  "look t p = map_option snapshot_of (node_at t p)"

definition abs_tree :: "(string \<Rightarrow> string) \<Rightarrow> tree \<Rightarrow> digest_tree" where
  "abs_tree H t = (\<lambda>p. digest_of H (look t p))"

definition is_dir :: "digest_node \<Rightarrow> bool" where
  "is_dir n \<longleftrightarrow> (case n of None \<Rightarrow> False | Some (k, _) \<Rightarrow> k = DIRECTORY)"

definition dir_in :: "digest_tree \<Rightarrow> string list \<Rightarrow> bool" where
  "dir_in f p \<longleftrightarrow> p = [] \<or> is_dir (f p)"

definition good_abs :: "digest_tree \<Rightarrow> bool" where
  "good_abs f \<longleftrightarrow> f [] = None \<and> (\<forall>p x. f (p @ [x]) \<noteq> None \<longrightarrow> dir_in f p)"

text \<open>One abstract restoration: the parent must be a directory, and a directory
  that goes or changes its type must be empty.\<close>

definition step_ok :: "digest_tree \<Rightarrow> string list \<Rightarrow> digest_node \<Rightarrow> bool" where
  "step_ok f p d \<longleftrightarrow>
     p \<noteq> [] \<and> dir_in f (butlast p) \<and>
     (is_dir (f p) \<and> \<not> is_dir d \<longrightarrow> (\<forall>x. f (p @ [x]) = None))"

fun steps_ok :: "digest_tree \<Rightarrow> (string list \<times> digest_node) list \<Rightarrow> bool" where
  "steps_ok f [] = True"
| "steps_ok f ((p, d) # xs) = (step_ok f p d \<and> steps_ok (f(p := d)) xs)"

fun apply_steps :: "digest_tree \<Rightarrow> (string list \<times> digest_node) list \<Rightarrow> digest_tree" where
  "apply_steps f [] = f"
| "apply_steps f ((p, d) # xs) = apply_steps (f(p := d)) xs"

lemma apply_steps_append: "apply_steps f (xs @ ys) = apply_steps (apply_steps f xs) ys"
  by (induction xs arbitrary: f) (auto simp del: fun_upd_apply)

lemma steps_ok_append:
  "steps_ok f (xs @ ys) \<longleftrightarrow> steps_ok f xs \<and> steps_ok (apply_steps f xs) ys"
  by (induction xs arbitrary: f) (auto simp del: fun_upd_apply)

lemma apply_steps_other: "p \<notin> fst ` set xs \<Longrightarrow> apply_steps f xs p = f p"
  by (induction xs arbitrary: f) auto

lemma butlast_neq: "p \<noteq> [] \<Longrightarrow> butlast p \<noteq> p"
  by (metis append_butlast_last_id append_self_conv not_Cons_self2)

lemma snoc_neq_self: "p @ [x] \<noteq> p"
  by simp

lemma good_abs_step:
  assumes g: "good_abs f" and ok: "step_ok f p d"
  shows "good_abs (f(p := d))"
proof -
  have "dir_in (f(p := d)) q" if "(f(p := d)) (q @ [x]) \<noteq> None" for q x
  proof (cases "q @ [x] = p")
    case True
    then have "q = butlast p" "q \<noteq> p" by auto
    with ok show ?thesis by (auto simp: step_ok_def dir_in_def)
  next
    case False
    with that have "f (q @ [x]) \<noteq> None" by simp
    moreover from this g have "dir_in f q" unfolding good_abs_def by blast
    ultimately have "f (q @ [x]) \<noteq> None" "dir_in f q" by blast+
    with ok show ?thesis by (auto simp: step_ok_def dir_in_def)
  qed
  moreover have "p \<noteq> []" using ok by (simp add: step_ok_def)
  ultimately show ?thesis using g unfolding good_abs_def by auto
qed

text \<open>A step can be taken back: the step that puts the old node back is possible in
  the state it leaves.\<close>

lemma step_ok_back:
  assumes g: "good_abs f" and ok: "step_ok f p d"
  shows "step_ok (f(p := d)) p (f p)"
proof -
  have "butlast p \<noteq> p" "p \<noteq> []" using ok butlast_neq by (auto simp: step_ok_def)
  moreover have "f (p @ [x]) = None" if "\<not> is_dir (f p)" for x
    using that g \<open>p \<noteq> []\<close> unfolding good_abs_def dir_in_def by blast
  ultimately show ?thesis using ok by (auto simp: step_ok_def dir_in_def)
qed

lemma good_abs_steps: "good_abs f \<Longrightarrow> steps_ok f xs \<Longrightarrow> good_abs (apply_steps f xs)"
  by (induction xs arbitrary: f) (auto simp: good_abs_step simp del: fun_upd_apply)

text \<open>The steps that undo a run: the old nodes, last step first.\<close>

fun back_steps :: "digest_tree \<Rightarrow> (string list \<times> digest_node) list \<Rightarrow> (string list \<times> digest_node) list"
where
  "back_steps f [] = []"
| "back_steps f ((p, d) # xs) = back_steps (f(p := d)) xs @ [(p, f p)]"

lemma steps_back:
  "good_abs f \<Longrightarrow> steps_ok f xs \<Longrightarrow>
     steps_ok (apply_steps f xs) (back_steps f xs) \<and> apply_steps (apply_steps f xs) (back_steps f xs) = f"
proof (induction xs arbitrary: f)
  case (Cons x xs)
  obtain p d where x: "x = (p, d)" by (cases x)
  with Cons.prems have ok: "step_ok f p d" and "good_abs (f(p := d))" and "steps_ok (f(p := d)) xs"
    by (simp_all add: good_abs_step)
  then have IH: "steps_ok (apply_steps (f(p := d)) xs) (back_steps (f(p := d)) xs)"
    "apply_steps (apply_steps (f(p := d)) xs) (back_steps (f(p := d)) xs) = f(p := d)"
    using Cons.IH by blast+
  with ok x Cons.prems show ?case
    by (simp add: steps_ok_append apply_steps_append step_ok_back del: fun_upd_apply)
qed simp

lemma back_steps_distinct:
  "distinct (map fst xs) \<Longrightarrow> back_steps f xs = rev (map (\<lambda>(p, d). (p, f p)) xs)"
proof (induction xs arbitrary: f)
  case (Cons x xs)
  obtain p d where x: "x = (p, d)" by (cases x)
  with Cons.prems have "map (\<lambda>(q, d'). (q, (f(p := d)) q)) xs = map (\<lambda>(q, d'). (q, f q)) xs"
    by (auto simp: image_iff)
  with Cons x show ?case by (simp del: fun_upd_apply)
qed simp

section \<open>Well-formed trees\<close>

definition good_tree :: "tree \<Rightarrow> bool" where
  "good_tree t \<longleftrightarrow>
     node_at t [] = None \<and>
     (\<forall>p x. node_at t (p @ [x]) \<noteq> None \<longrightarrow> p = [] \<or> (\<exists>n. node_at t p = Some n \<and> nd_kind n = DDir)) \<and>
     (\<forall>p n. node_at t p = Some n \<longrightarrow> nd_kind n \<noteq> DOther \<and>
        (nd_kind n = DFile \<longrightarrow> length (nd_content n) \<le> MAX_CHANGESET_BYTES) \<and>
        (nd_kind n = DLink \<longrightarrow> nd_mode n = tr_link_mode t))"

lemma node_at_put [simp]: "node_at (put_node p n t) q = (if q = p then Some n else node_at t q)"
  by (simp add: node_at_def put_node_def update_conv)

lemma node_at_drop [simp]: "node_at (drop_node p t) q = (if q = p then None else node_at t q)"
  by (simp add: node_at_def drop_node_def delete_conv)

lemma node_at_fields [simp]:
  "node_at (t\<lparr>tr_next := k\<rparr>) = node_at t" "node_at (t\<lparr>tr_created := c\<rparr>) = node_at t"
  by (auto simp: node_at_def)

lemma has_children_iff: "has_children t p \<longleftrightarrow> (\<exists>x. node_at t (p @ [x]) \<noteq> None)"
proof -
  have rows: "(\<exists>n. (q, n) \<in> set (tr_nodes t)) \<longleftrightarrow> node_at t q \<noteq> None" for q
    by (force simp: node_at_def map_of_eq_None_iff image_iff)
  have snoc: "(q \<noteq> [] \<and> butlast q = p) \<longleftrightarrow> (\<exists>x. q = p @ [x])" for q :: "string list"
    by (metis append_butlast_last_id butlast_snoc snoc_eq_iff_butlast)
  have "has_children t p \<longleftrightarrow> (\<exists>q. (\<exists>n. (q, n) \<in> set (tr_nodes t)) \<and> q \<noteq> [] \<and> butlast q = p)"
    by (auto simp: has_children_def list_ex_iff)
  also have "\<dots> \<longleftrightarrow> (\<exists>q. node_at t q \<noteq> None \<and> (\<exists>x. q = p @ [x]))"
    by (simp only: rows snoc)
  finally show ?thesis by blast
qed

lemma abs_tree_at: "abs_tree H t p = (case node_at t p of None \<Rightarrow> None
    | Some n \<Rightarrow> digest_of H (Some (snapshot_of n)))"
  by (simp add: abs_tree_def look_def digest_of_def split: option.split)

lemma abs_None [simp]: "abs_tree H t p = None \<longleftrightarrow> node_at t p = None"
  by (simp add: abs_tree_def look_def digest_of_def)

lemma is_dir_abs:
  "good_tree t \<Longrightarrow> is_dir (abs_tree H t p) \<longleftrightarrow> (\<exists>n. node_at t p = Some n \<and> nd_kind n = DDir)"
  by (auto simp: is_dir_def abs_tree_at digest_of_def snapshot_of_def good_tree_def
      split: option.splits disk_kind.splits)

lemma good_abs_tree:
  assumes "good_tree t" shows "good_abs (abs_tree H t)"
  unfolding good_abs_def dir_in_def is_dir_abs [OF assms]
  using assms by (auto simp: good_tree_def)

lemma good_tree_prefix:
  assumes "good_tree t" and "node_at t (p @ q) \<noteq> None" and "q \<noteq> []"
  shows "p = [] \<or> (\<exists>n. node_at t p = Some n \<and> nd_kind n = DDir)"
  using assms(2,3)
proof (induction q rule: rev_induct)
  case (snoc x q)
  then have "p @ q = [] \<or> (\<exists>n. node_at t (p @ q) = Some n \<and> nd_kind n = DDir)"
    using assms(1) unfolding good_tree_def by (metis append_assoc)
  with snoc show ?case by (cases "q = []") auto
qed simp

end
