(* ===== verification/ChangeRestore.thy ===== *)
theory ChangeRestore
  imports ChangeTree
begin

text \<open>
  The correctness of the tree transaction: one \<open>restore\<close> of a node that is
  still what it was when it was bound implements one abstract step, and a list
  of nodes bound up front can be restored one after the other although the
  earlier restorations create and remove the directories of the later ones.
\<close>

section \<open>Bound nodes\<close>

definition snap_ok :: "nat \<Rightarrow> node_snapshot option \<Rightarrow> bool" where
  "snap_ok link_mode s =
     (case s of None \<Rightarrow> True
      | Some n \<Rightarrow>
          (case ns_type n of
             FILE \<Rightarrow> ns_mode n \<noteq> None \<and>
               (case ns_content n of None \<Rightarrow> False | Some c \<Rightarrow> length c \<le> MAX_CHANGESET_BYTES)
           | DIRECTORY \<Rightarrow> ns_mode n \<noteq> None \<and> ns_content n = None
           | SYMLINK \<Rightarrow> ns_content n \<noteq> None \<and> ns_mode n = Some link_mode))"

lemma snapshot_of_type [simp]:
  "ns_type (snapshot_of n) = DIRECTORY \<longleftrightarrow> nd_kind n = DDir"
  "ns_type (snapshot_of n) = FILE \<longleftrightarrow> nd_kind n = DFile"
  by (auto simp: snapshot_of_def split: disk_kind.split)

lemma good_node:
  "good_tree t \<Longrightarrow> node_at t p = Some n \<Longrightarrow> nd_kind n \<noteq> DOther \<and>
     (nd_kind n = DFile \<longrightarrow> length (nd_content n) \<le> MAX_CHANGESET_BYTES) \<and>
     (nd_kind n = DLink \<longrightarrow> nd_mode n = tr_link_mode t)"
  unfolding good_tree_def by blast

lemma look_snap_ok: "good_tree t \<Longrightarrow> snap_ok (tr_link_mode t) (look t p)"
  by (cases "node_at t p")
    (auto simp: look_def snap_ok_def snapshot_of_def dest!: good_node split: disk_kind.split)

lemma open_parent_from_dir:
  "good_tree t \<Longrightarrow> rest = [] \<or> (\<exists>n. node_at t (parts @ rest) = Some n \<and> nd_kind n = DDir) \<Longrightarrow>
     open_parent_from t parts rest = Inr None"
proof (induction rest arbitrary: parts)
  case (Cons part rest)
  have "\<exists>n. node_at t (parts @ [part]) = Some n \<and> nd_kind n = DDir"
    using Cons.prems good_tree_prefix [of t "parts @ [part]" rest]
    by (cases "rest = []") auto
  with Cons show ?case by auto
qed simp

lemma open_parent_dir:
  "good_tree t \<Longrightarrow> dir_in (abs_tree H t) p \<Longrightarrow> open_parent t p = Inr None"
  by (auto simp: open_parent_def dir_in_def is_dir_abs intro!: open_parent_from_dir)

lemma open_parent_from_missing:
  "open_parent_from t parts rest = Inr (Some m) \<Longrightarrow>
     node_at t m = None \<and> (\<exists>k. m = parts @ take k rest \<and> 0 < k \<and> k \<le> length rest)"
proof (induction rest arbitrary: parts)
  case (Cons part rest)
  show ?case
  proof (cases "node_at t (parts @ [part])")
    case None
    with Cons.prems show ?thesis by (auto intro!: exI [of _ 1])
  next
    case (Some info)
    with Cons.prems have "open_parent_from t (parts @ [part]) rest = Inr (Some m)"
      by (auto split: if_splits)
    then obtain k where "node_at t m = None" "m = (parts @ [part]) @ take k rest" "0 < k"
      "k \<le> length rest"
      using Cons.IH by blast
    then show ?thesis by (auto intro!: exI [of _ "Suc k"])
  qed
qed simp

lemma capture_child_look:
  "good_tree t \<Longrightarrow> capture_child t p = Inr (look t p, map_option nd_ident (node_at t p))"
  by (cases "node_at t p")
    (auto simp: capture_child_def look_def snapshot_of_def dest: good_node split: disk_kind.split)

lemma look_symlink:
  "good_tree t \<Longrightarrow> node_at t p = Some n \<Longrightarrow> ns_type (snapshot_of n) = SYMLINK \<longleftrightarrow> nd_kind n = DLink"
  by (cases "nd_kind n") (auto simp: snapshot_of_def dest: good_node)

lemma is_dir_digest: "is_dir (digest_of H s) \<longleftrightarrow> (\<exists>n. s = Some n \<and> ns_type n = DIRECTORY)"
  by (cases s) (auto simp: is_dir_def digest_of_def)

lemma is_dir_look: "is_dir (abs_tree H t p) \<longleftrightarrow> (\<exists>n. look t p = Some n \<and> ns_type n = DIRECTORY)"
  by (simp add: abs_tree_def is_dir_digest)

text \<open>A bound node is current in a tree: identity and snapshot are those of the
  tree, and a missing ancestor was created by the transaction since.\<close>

definition current_in :: "tree \<Rightarrow> bound_node \<Rightarrow> bool" where
  "current_in t b \<longleftrightarrow>
     bn_identity b = map_option nd_ident (node_at t (bn_relative b)) \<and>
     bn_snapshot b = look t (bn_relative b) \<and>
     (case bn_missing b of None \<Rightarrow> True | Some m \<Rightarrow> m \<in> tr_created t)"

definition restored :: "tree \<Rightarrow> string list \<Rightarrow> node_snapshot option \<Rightarrow> tree \<Rightarrow> bool" where
  "restored t p d t' \<longleftrightarrow>
     good_tree t' \<and> look t' p = d \<and> (\<forall>q. q \<noteq> p \<longrightarrow> node_at t' q = node_at t q) \<and>
     tr_root t' = tr_root t \<and> tr_link_mode t' = tr_link_mode t \<and>
     (\<forall>H. is_dir (digest_of H d) \<and> \<not> is_dir (abs_tree H t p) \<longrightarrow> p \<in> tr_created t') \<and>
     (\<forall>H. is_dir (digest_of H d) \<or> \<not> is_dir (abs_tree H t p) \<longrightarrow> tr_created t \<subseteq> tr_created t') \<and>
     {m \<in> tr_created t. take (length p) m \<noteq> p} \<subseteq> tr_created t'"

lemma good_tree_update:
  assumes g: "good_tree t" and ok: "step_ok (abs_tree H t) p (digest_of H d)"
    and others: "\<And>q. q \<noteq> p \<Longrightarrow> node_at t' q = node_at t q"
    and at: "look t' p = d" "snap_ok (tr_link_mode t) d" "tr_link_mode t' = tr_link_mode t"
      "\<And>n. node_at t' p = Some n \<Longrightarrow> nd_kind n \<noteq> DOther"
  shows "good_tree t'"
proof -
  have abs': "abs_tree H t' = (abs_tree H t)(p := digest_of H d)"
    using others at(1) by (auto simp: abs_tree_at abs_tree_def look_def fun_eq_iff)
  have ga: "good_abs (abs_tree H t')"
    unfolding abs' using good_abs_tree [OF g] ok by (rule good_abs_step)
  have nodes: "nd_kind n \<noteq> DOther \<and>
        (nd_kind n = DFile \<longrightarrow> length (nd_content n) \<le> MAX_CHANGESET_BYTES) \<and>
        (nd_kind n = DLink \<longrightarrow> nd_mode n = tr_link_mode t')" if "node_at t' q = Some n" for q n
  proof (cases "q = p")
    case True
    with that at show ?thesis
      by (auto simp: look_def snapshot_of_def snap_ok_def split: disk_kind.splits option.splits)
  next
    case False
    with that others g at(3) show ?thesis by (auto simp: good_tree_def)
  qed
  have dirs: "is_dir (abs_tree H t' q) \<longleftrightarrow> (\<exists>n. node_at t' q = Some n \<and> nd_kind n = DDir)" for q
    by (auto simp: is_dir_look look_def)
  have parents: "q = [] \<or> (\<exists>n. node_at t' q = Some n \<and> nd_kind n = DDir)"
    if "node_at t' (q @ [x]) \<noteq> None" for q x
  proof -
    from that have "abs_tree H t' (q @ [x]) \<noteq> None" by simp
    with ga have "dir_in (abs_tree H t') q" unfolding good_abs_def by blast
    then show ?thesis by (simp add: dir_in_def dirs)
  qed
  have "node_at t' [] = None" using ga by (simp add: good_abs_def)
  with parents nodes show ?thesis unfolding good_tree_def by blast
qed

section \<open>One restoration\<close>

lemma assert_current:
  "good_tree t \<Longrightarrow> current_in t b \<Longrightarrow>
     assert_child_identity t (bn_relative b) (bn_identity b) (bound_symlink b) = Inr ()"
  by (cases "node_at t (bn_relative b)")
    (auto simp: assert_child_identity_def current_in_def bound_symlink_def look_def look_symlink)

lemma verify_current: "current_in t b \<Longrightarrow> verify_missing_ancestor t b = Inr ()"
  by (auto simp: current_in_def verify_missing_ancestor_def split: option.splits)

text \<open>What \<open>remove_stale\<close> leaves at the path.\<close>

definition stale :: "node_snapshot option \<Rightarrow> node_snapshot option \<Rightarrow> bool" where
  "stale current desired \<longleftrightarrow>
     (case current of None \<Rightarrow> False
      | Some c \<Rightarrow> (case desired of None \<Rightarrow> True
                 | Some d \<Rightarrow> ns_type c \<noteq> ns_type d \<or> ns_type d = SYMLINK))"

lemma remove_stale_runs:
  assumes cur: "current_in t b" and ok: "step_ok (abs_tree H t) (bn_relative b) (digest_of H d)"
  shows "remove_stale b d t =
    (Inr (if stale (look t (bn_relative b)) d then None else look t (bn_relative b)),
     if stale (look t (bn_relative b)) d
     then drop_node (bn_relative b)
       (if is_dir (abs_tree H t (bn_relative b)) then release_subtree (bn_relative b) t else t)
     else t)"
proof -
  let ?p = "bn_relative b"
  have snap: "bn_snapshot b = look t ?p" using cur by (simp add: current_in_def)
  have empty: "\<not> has_children t ?p"
    if "look t ?p = Some c" "ns_type c = DIRECTORY" "stale (look t ?p) d" for c
  proof -
    have "is_dir (abs_tree H t ?p)" "\<not> is_dir (digest_of H d)"
      using that by (auto simp: is_dir_look is_dir_digest stale_def split: option.splits)
    with ok show ?thesis by (auto simp: has_children_iff step_ok_def)
  qed
  have "has_children (release_subtree ?p t) ?p = has_children t ?p"
    by (simp add: release_subtree_def has_children_def)
  then show ?thesis
    using snap empty
    by (cases "look t ?p")
      (auto simp: remove_stale_def stale_def remove_child_def is_dir_look andthen_def sbind_def
        split: option.splits)
qed

lemma restore_runs:
  assumes g: "good_tree t" and cur: "current_in t b"
    and ok: "step_ok (abs_tree H t) (bn_relative b) (digest_of H d)"
    and snap: "snap_ok (tr_link_mode t) d"
  shows "\<exists>t'. restore b d t = (Inr d, t') \<and> restored t (bn_relative b) d t'"
proof -
  let ?p = "bn_relative b"
  let ?stale = "stale (look t ?p) d"
  define t1 where "t1 = (if ?stale then drop_node ?p
      (if is_dir (abs_tree H t ?p) then release_subtree ?p t else t) else t)"
  define cur1 where "cur1 = (if ?stale then None else look t ?p)"
  define t2 where "t2 = write_desired ?p cur1 d t1"
  have removed: "remove_stale b d t = (Inr cur1, t1)"
    using remove_stale_runs [OF cur ok] by (simp add: t1_def cur1_def)
  have others: "node_at t2 q = node_at t q" if "q \<noteq> ?p" for q
    using that by (auto simp: t2_def t1_def write_desired_def write_file_def make_directory_def
        make_symlink_def change_mode_def release_subtree_def split: option.split file_node_type.split)
  have "node_at t1 ?p = (if ?stale then None else node_at t ?p)"
    by (auto simp: t1_def release_subtree_def)
  moreover have "tr_link_mode t1 = tr_link_mode t" "tr_root t1 = tr_root t"
    by (auto simp: t1_def release_subtree_def drop_node_def)
  ultimately have t1_at: "node_at t1 ?p = (if ?stale then None else node_at t ?p)"
    "tr_link_mode t1 = tr_link_mode t" "tr_root t1 = tr_root t"
    by blast+
  have fields: "tr_link_mode t2 = tr_link_mode t" "tr_root t2 = tr_root t"
    using t1_at by (auto simp: t2_def write_desired_def write_file_def make_directory_def
        make_symlink_def change_mode_def put_node_def split: option.split file_node_type.split)
  have at: "look t2 ?p = d \<and> (\<forall>n. node_at t2 ?p = Some n \<longrightarrow> nd_kind n \<noteq> DOther)"
  proof (cases d)
    case None
    then show ?thesis
      using t1_at by (auto simp: t2_def write_desired_def look_def stale_def split: option.splits)
  next
    case (Some n)
    show ?thesis
    proof (cases "ns_type n")
      case FILE
      with Some snap show ?thesis
        by (cases n) (auto simp: t2_def write_desired_def write_file_def look_def snapshot_of_def
            snap_ok_def split: option.splits)
    next
      case SYMLINK
      with Some snap t1_at show ?thesis
        by (cases n) (auto simp: t2_def write_desired_def make_symlink_def look_def snapshot_of_def
            snap_ok_def)
    next
      case DIRECTORY
      then obtain m where n: "n = \<lparr>ns_type = DIRECTORY, ns_content = None, ns_mode = Some m\<rparr>"
        using Some snap by (cases n) (auto simp: snap_ok_def)
      show ?thesis
      proof (cases "cur1 = None")
        case True
        then show ?thesis using Some n
          by (auto simp: t2_def write_desired_def make_directory_def change_mode_def look_def
              snapshot_of_def)
      next
        case False
        then obtain c where c: "node_at t ?p = Some c" "node_at t1 ?p = Some c" "\<not> ?stale"
          using t1_at by (auto simp: cur1_def look_def split: if_splits)
        then have "nd_kind c = DDir"
          using Some n by (auto simp: stale_def look_def)
        with c False Some n show ?thesis
          by (auto simp: t2_def write_desired_def change_mode_def look_def snapshot_of_def)
      qed
    qed
  qed
  have good: "good_tree t2"
    using good_tree_update [OF g ok others] at snap fields by blast
  have created1: "tr_created t1 = tr_created t"
    if "is_dir (digest_of H' d) \<or> \<not> is_dir (abs_tree H' t ?p)" for H'
  proof -
    have "\<not> (?stale \<and> is_dir (abs_tree H t ?p))"
      using that by (auto simp: is_dir_digest is_dir_look stale_def)
    then show ?thesis by (auto simp: t1_def drop_node_def)
  qed
  have created2: "tr_created t2 = (if cur1 = None \<and> is_dir (digest_of H' d)
      then insert ?p (tr_created t1) else tr_created t1)" for H'
    by (auto simp: t2_def write_desired_def write_file_def make_directory_def make_symlink_def
        change_mode_def put_node_def is_dir_digest split: option.split file_node_type.split)
  have cur1_None: "cur1 = None" if "is_dir (digest_of H' d)" "\<not> is_dir (abs_tree H' t ?p)" for H'
    using that by (auto simp: cur1_def is_dir_digest is_dir_look stale_def split: option.splits)
  have created: "(is_dir (digest_of H' d) \<and> \<not> is_dir (abs_tree H' t ?p) \<longrightarrow> ?p \<in> tr_created t2) \<and>
      (is_dir (digest_of H' d) \<or> \<not> is_dir (abs_tree H' t ?p) \<longrightarrow> tr_created t \<subseteq> tr_created t2)" for H'
    using created1 [of H'] created2 [of H'] cur1_None [of H'] by (auto split: if_splits)
  have outside: "{m \<in> tr_created t. take (length ?p) m \<noteq> ?p} \<subseteq> tr_created t2"
    by (auto simp: t2_def t1_def write_desired_def write_file_def make_directory_def make_symlink_def
        change_mode_def put_node_def drop_node_def release_subtree_def
        split: option.split file_node_type.split)
  have parent: "open_parent t (butlast ?p) = Inr None"
    using g ok by (auto simp: step_ok_def intro: open_parent_dir)
  have "restore b d t = (Inr d, t2)"
    using parent verify_current [OF cur] assert_current [OF g cur] removed
      capture_child_look [OF good, of ?p] at
    by (simp add: restore_def sbind_def andthen_def t2_def)
  with good at others fields created outside show ?thesis
    by (auto simp: restored_def)
qed

section \<open>Several nodes bound up front\<close>

text \<open>What \<open>bind\<close> knows of a node in the tree \<open>t0\<close>.\<close>

definition bound_at :: "tree \<Rightarrow> bound_node \<Rightarrow> bool" where
  "bound_at t0 b \<longleftrightarrow>
     bn_relative b \<noteq> [] \<and>
     bn_identity b = map_option nd_ident (node_at t0 (bn_relative b)) \<and>
     bn_snapshot b = look t0 (bn_relative b) \<and>
     (case bn_missing b of None \<Rightarrow> True
      | Some m \<Rightarrow> m \<noteq> [] \<and> node_at t0 m = None \<and> (\<exists>k. m = take k (butlast (bn_relative b))))"

text \<open>The tree after some of the paths bound in \<open>t0\<close> have been restored: the others are
  untouched, and the directories that are new since are remembered.\<close>

definition tracked :: "tree \<Rightarrow> tree \<Rightarrow> string list set \<Rightarrow> bool" where
  "tracked t0 t done \<longleftrightarrow>
     good_tree t \<and> (\<forall>q. q \<notin> done \<longrightarrow> node_at t q = node_at t0 q) \<and>
     (\<forall>m n. node_at t0 m = None \<and> node_at t m = Some n \<and> nd_kind n = DDir \<longrightarrow> m \<in> tr_created t)"

lemma tracked_start: "good_tree t \<Longrightarrow> tracked t t {}"
  by (auto simp: tracked_def)

lemma tracked_current_dir:
  assumes tr: "tracked t0 t done" and b: "bound_at t0 b" and new: "bn_relative b \<notin> done"
    and dir: "dir_in (abs_tree H t) (butlast (bn_relative b))"
  shows "current_in t b"
proof -
  have g: "good_tree t" and same: "node_at t (bn_relative b) = node_at t0 (bn_relative b)"
    using tr new by (auto simp: tracked_def)
  have "m \<in> tr_created t" if m: "bn_missing b = Some m" for m
  proof -
    obtain k where k: "m = take k (butlast (bn_relative b))" "m \<noteq> []" "node_at t0 m = None"
      using b m by (auto simp: bound_at_def)
    let ?q = "drop k (butlast (bn_relative b))"
    have parent: "butlast (bn_relative b) = m @ ?q" using k by simp
    have dir': "dir_in (abs_tree H t) (m @ ?q)" using dir parent by simp
    have "\<exists>n. node_at t m = Some n \<and> nd_kind n = DDir"
    proof (cases "?q = []")
      case True
      with dir' k(2) show ?thesis by (simp add: dir_in_def is_dir_abs [OF g])
    next
      case False
      with dir' have "node_at t (m @ ?q) \<noteq> None" by (auto simp: dir_in_def is_dir_abs [OF g])
      from good_tree_prefix [OF g this False] k(2) show ?thesis by blast
    qed
    with tr k(3) show ?thesis unfolding tracked_def by blast
  qed
  with b same show ?thesis
    by (auto simp: current_in_def bound_at_def look_def split: option.splits)
qed

lemma tracked_current:
  assumes "tracked t0 t done" and "bound_at t0 b" and "bn_relative b \<notin> done"
    and "step_ok (abs_tree H t) (bn_relative b) d"
  shows "current_in t b"
  using assms by (intro tracked_current_dir) (auto simp: step_ok_def)

lemma tracked_mono: "tracked t0 t done \<Longrightarrow> done \<subseteq> done' \<Longrightarrow> tracked t0 t done'"
  by (auto simp: tracked_def)

lemma tracked_step:
  assumes tr: "tracked t0 t done" and r: "restored t p d t'"
  shows "tracked t0 t' (insert p done)"
proof -
  have g: "good_tree t" "good_tree t'" using tr r by (auto simp: tracked_def restored_def)
  have "m \<in> tr_created t'"
    if m: "node_at t0 m = None" "node_at t' m = Some n" "nd_kind n = DDir" for m n
  proof (cases "m = p")
    case True
    with m r have d: "is_dir (digest_of H d)" for H
      by (auto simp: restored_def look_def is_dir_digest)
    show ?thesis
    proof (cases "is_dir (abs_tree (\<lambda>x. x) t p)")
      case False
      with d r True show ?thesis unfolding restored_def by blast
    next
      case dir: True
      then have "m \<in> tr_created t"
        using tr m(1) True g unfolding tracked_def is_dir_abs [OF g(1)] by blast
      with d r show ?thesis unfolding restored_def by blast
    qed
  next
    case False
    then have "node_at t m = Some n" using m r by (simp add: restored_def)
    with tr m have c: "m \<in> tr_created t" unfolding tracked_def by blast
    show ?thesis
    proof (cases "take (length p) m = p")
      case outside: False
      with c r show ?thesis unfolding restored_def by blast
    next
      case True
      then obtain q where q: "m = p @ q" "q \<noteq> []"
        using False by (metis append_Nil2 append_take_drop_id)
      have "p = [] \<or> (\<exists>n. node_at t' p = Some n \<and> nd_kind n = DDir)"
        using good_tree_prefix [OF g(2), of p q] m(2) q by simp
      moreover have "p = [] \<Longrightarrow> \<not> is_dir (abs_tree H t p)" for H
        using g(1) by (simp add: is_dir_abs [OF g(1)] good_tree_def)
      ultimately have "is_dir (digest_of H d) \<or> \<not> is_dir (abs_tree H t p)" for H
        using r by (auto simp: restored_def look_def is_dir_digest)
      with c r show ?thesis unfolding restored_def by blast
    qed
  qed
  moreover have "node_at t' q = node_at t0 q" if "q \<notin> insert p done" for q
    using that tr r by (simp add: tracked_def restored_def)
  ultimately show ?thesis using g unfolding tracked_def by blast
qed

lemma restored_abs: "restored t p d t' \<Longrightarrow> abs_tree H t' = (abs_tree H t)(p := digest_of H d)"
  by (auto simp: restored_def abs_tree_def look_def fun_eq_iff)

section \<open>Binding\<close>

definition bindable :: "digest_tree \<Rightarrow> string list \<Rightarrow> bool" where
  "bindable f p \<longleftrightarrow>
     (\<forall>i \<in> {1..<length p}. f (take i p) = None \<or> is_dir (f (take i p)))"

lemma normalize_as_posix:
  "list_all plain_component p \<Longrightarrow> p \<noteq> [] \<Longrightarrow> normalize_workspace_relative (as_posix p) = Inr p"
  by (simp add: normalize_workspace_relative_def as_posix_def validate_join posix_components_join)

lemma normalize_plain:
  "normalize_workspace_relative s = Inr p \<Longrightarrow> list_all plain_component p \<and> p \<noteq> []"
  by (auto simp: normalize_workspace_relative_def Let_def accepted_posix_components_plain
      split: sum.splits if_splits)

lemma open_parent_from_bindable:
  assumes "good_tree t" and "\<And>i. i \<in> {1..length rest} \<Longrightarrow>
      abs_tree H t (parts @ take i rest) = None \<or> is_dir (abs_tree H t (parts @ take i rest))"
  shows "\<exists>m. open_parent_from t parts rest = Inr m"
  using assms(2)
proof (induction rest arbitrary: parts)
  case (Cons part rest)
  have here: "node_at t (parts @ [part]) = None \<or>
      (\<exists>n. node_at t (parts @ [part]) = Some n \<and> nd_kind n = DDir)"
    using Cons.prems [of 1] by (simp add: is_dir_abs [OF assms(1)])
  have "\<exists>m. open_parent_from t (parts @ [part]) rest = Inr m"
    using Cons.prems [of "Suc i" for i] by (intro Cons.IH) fastforce
  with here show ?case by (auto split: option.split)
qed simp

lemma bindable_parent:
  assumes g: "good_tree t" and b: "bindable (abs_tree H t) p"
  shows "\<exists>m. open_parent t (butlast p) = Inr m"
proof -
  have "abs_tree H t (take i (butlast p)) = None \<or> is_dir (abs_tree H t (take i (butlast p)))"
    if "i \<in> {1..length (butlast p)}" for i
  proof -
    from that have "take i (butlast p) = take i p" "i \<in> {1..<length p}"
      by (auto simp: take_butlast)
    with b show ?thesis unfolding bindable_def by simp
  qed
  then show ?thesis
    using open_parent_from_bindable [OF g, of "butlast p" H "[]"] by (auto simp: open_parent_def)
qed

lemma missing_parent:
  assumes g: "good_tree t" and m: "open_parent t (butlast p) = Inr (Some q)"
  shows "node_at t p = None" and "node_at t q = None" and "q \<noteq> []" and "\<exists>k. q = take k (butlast p)"
proof -
  have "open_parent_from t [] (butlast p) = Inr (Some q)"
    using m by (simp add: open_parent_def)
  from open_parent_from_missing [OF this]
  obtain k where k: "node_at t q = None" "q = take k (butlast p)" "0 < k" "k \<le> length (butlast p)"
    by auto
  then show "q \<noteq> []" by (cases "butlast p") (auto simp del: length_butlast)
  show "node_at t q = None" "\<exists>k. q = take k (butlast p)" using k(1,2) by blast+
  show "node_at t p = None"
  proof (rule ccontr)
    assume n: "node_at t p \<noteq> None"
    have "k < length p" using k(3,4) by simp
    then have "p = q @ drop k p" "drop k p \<noteq> []" using k(2) by (simp_all add: take_butlast)
    then show False
      using good_tree_prefix [OF g, of q "drop k p"] n k(1) \<open>q \<noteq> []\<close> by auto
  qed
qed

lemma open_parent_from_found:
  "open_parent_from t parts rest = Inr None \<Longrightarrow> rest \<noteq> [] \<Longrightarrow>
     \<exists>n. node_at t (parts @ rest) = Some n \<and> nd_kind n = DDir"
proof (induction rest arbitrary: parts)
  case (Cons part rest)
  then obtain n where n: "node_at t (parts @ [part]) = Some n" "nd_kind n = DDir"
    "open_parent_from t (parts @ [part]) rest = Inr None"
    by (auto simp: Let_def split: option.splits if_splits)
  then show ?case using Cons.IH [of "parts @ [part]"] by (cases "rest = []") auto
qed simp

lemma open_parent_dir_conv:
  "good_tree t \<Longrightarrow> open_parent t p = Inr None \<Longrightarrow> dir_in (abs_tree H t) p"
  using open_parent_from_found [of t "[]" p] by (auto simp: dir_in_def is_dir_abs open_parent_def)

lemma bind_path_runs:
  assumes g: "good_tree t" and p: "list_all plain_component p" "p \<noteq> []"
    and b: "bindable (abs_tree H t) p"
  shows "\<exists>b. bind_path t (as_posix p) = Inr b \<and> bn_relative b = p \<and> bound_at t b"
proof -
  obtain m where m: "open_parent t (butlast p) = Inr m" using bindable_parent [OF g b] by blast
  show ?thesis
  proof (cases m)
    case None
    with m p show ?thesis
      by (simp add: bind_path_def normalize_as_posix capture_child_look [OF g] bound_at_def)
  next
    case (Some q)
    with m p missing_parent [OF g, of p q] show ?thesis
      by (simp add: bind_path_def normalize_as_posix bound_at_def look_def)
  qed
qed

text \<open>A node bound earlier in the same transaction can be captured while its path is
  untouched.\<close>

lemma capture_tracked:
  assumes tr: "tracked t0 t done" and b: "bound_at t0 b" and new: "bn_relative b \<notin> done"
    and bindable: "bindable (abs_tree H t) (bn_relative b)"
  shows "capture t b = Inr (look t (bn_relative b))"
proof -
  have g: "good_tree t" and same: "node_at t (bn_relative b) = node_at t0 (bn_relative b)"
    using tr new by (auto simp: tracked_def)
  obtain m where m: "open_parent t (butlast (bn_relative b)) = Inr m"
    using bindable_parent [OF g bindable] by blast
  show ?thesis
  proof (cases m)
    case (Some q)
    with m same b missing_parent(1) [OF g, of "bn_relative b" q] show ?thesis
      by (simp add: capture_def bound_at_def look_def)
  next
    case None
    then have "dir_in (abs_tree H t) (butlast (bn_relative b))"
      using open_parent_dir_conv [OF g] m by blast
    then have "current_in t b" by (rule tracked_current_dir [OF tr b new])
    with m None show ?thesis
      by (simp add: capture_def verify_current assert_current [OF g] capture_child_look [OF g])
  qed
qed

end
