(* ===== verification/ChangeJournal.thy ===== *)
theory ChangeJournal
  imports ChangeRestore "HOL-Library.Product_Lexorder"
begin

text \<open>
  The Change Journal: the SQLite store of change sets and pending mutations
  (\<open>storage/changes.py\<close>) and \<open>core/changes/journal.py\<close>.  The state of the
  journal is the workspace tree, the two tables and the blobs.  Every write of
  a table, of a blob or of the tree takes one unit of \<open>js_budget\<close>: with a
  budget of \<open>n\<close> the process dies at its write number \<open>n + 1\<close> and no later
  write of it happens, whatever its handlers try.  Without a budget it lives.
  The hexadecimal part of a new identifier and the times are arguments of the
  operations that make them.
\<close>

record workspace_identity =
  wi_key :: string
  wi_path :: string
  wi_root :: nat

record jstate =
  js_tree :: tree
  js_sets :: "change_set list"
  js_pending :: "pending_mutation list"
  js_blobs :: blobs
  js_activities :: "string list"
  js_budget :: "nat option"

type_synonym 'a journal = "(jstate, change_error, 'a) eff"

record bound_file_mutation =
  bf_path :: string
  bf_before :: "node_snapshot option"
  bf_mutate :: "(tree, change_error, unit) eff"
  bf_capture :: "tree \<Rightarrow> change_error + node_snapshot option"

definition MAX_CHANGESET_FILES :: nat where
  "MAX_CHANGESET_FILES = 1000"

section \<open>Effects of the journal\<close>

definition tick :: "unit journal" where
  "tick = (\<lambda>s. case js_budget s of
       None \<Rightarrow> (Inr (), s)
     | Some 0 \<Rightarrow> (Inl Crashed, s)
     | Some (Suc k) \<Rightarrow> (Inr (), s\<lparr>js_budget := Some k\<rparr>))"

definition persist :: "(jstate \<Rightarrow> jstate) \<Rightarrow> unit journal" where
  "persist f = andthen tick (modify f)"

definition in_tree :: "(tree, change_error, 'a) eff \<Rightarrow> 'a journal" where
  "in_tree m = (\<lambda>s. case m (js_tree s) of (r, t) \<Rightarrow> (r, s\<lparr>js_tree := t\<rparr>))"

definition write_tree :: "(tree, change_error, 'a) eff \<Rightarrow> 'a journal" where
  "write_tree m = andthen tick (in_tree m)"

definition read_tree :: "(tree \<Rightarrow> change_error + 'a) \<Rightarrow> 'a journal" where
  "read_tree f = reads (\<lambda>s. f (js_tree s))"

definition catch :: "('s, 'e, 'a) eff \<Rightarrow> ('e \<Rightarrow> ('s, 'e, 'a) eff) \<Rightarrow> ('s, 'e, 'a) eff" where
  "catch m h = (\<lambda>s. case m s of (Inl e, s') \<Rightarrow> h e s' | (Inr x, s') \<Rightarrow> (Inr x, s'))"

definition put_blob :: "(string \<Rightarrow> string) \<Rightarrow> string \<Rightarrow> string journal" where
  "put_blob H content =
     andthen tick (\<lambda>s. case blob_put H content (js_blobs s) of (r, blobs) \<Rightarrow> (r, s\<lparr>js_blobs := blobs\<rparr>))"

definition put_snapshot :: "(string \<Rightarrow> string) \<Rightarrow> node_snapshot option \<Rightarrow> string option journal" where
  "put_snapshot H s =
     (case s of None \<Rightarrow> ret None
      | Some n \<Rightarrow> (case ns_content n of None \<Rightarrow> ret None
                  | Some content \<Rightarrow> sbind (put_blob H content) (\<lambda>d. ret (Some d))))"

section \<open>The SQLite store\<close>

definition store_save :: "change_set \<Rightarrow> unit journal" where
  "store_save cs = persist (\<lambda>s. s\<lparr>js_sets := upsert cs_id cs (js_sets s)\<rparr>)"

definition store_get :: "string \<Rightarrow> change_set option journal" where
  "store_get i = gets (\<lambda>s. lookup_row cs_id i (js_sets s))"

definition store_latest :: "string \<Rightarrow> change_set option journal" where
  "store_latest key = gets (\<lambda>s.
     case sort_key (\<lambda>c. (cs_created c, cs_id c)) (filter (\<lambda>c. cs_workspace c = key) (js_sets s)) of
       [] \<Rightarrow> None | c # cs \<Rightarrow> Some (last (c # cs)))"

definition store_list_open :: "string \<Rightarrow> change_set list journal" where
  "store_list_open key = gets (\<lambda>s.
     sort_key (\<lambda>c. (cs_created c, cs_id c))
       (filter (\<lambda>c. cs_workspace c = key \<and> cs_lifecycle c = OPEN) (js_sets s)))"

definition store_delete_empty_open :: "string \<Rightarrow> bool journal" where
  "store_delete_empty_open i =
     sbind (gets (\<lambda>s. case lookup_row cs_id i (js_sets s) of
         None \<Rightarrow> False
       | Some c \<Rightarrow> cs_lifecycle c = OPEN \<and> cs_files c = [] \<and> cs_execute c = []
           \<and> \<not> list_ex (\<lambda>p. pm_set p = i) (js_pending s) \<and> i \<notin> set (js_activities s)))
       (\<lambda>deletable. if deletable
          then andthen (persist (\<lambda>s. s\<lparr>js_sets := remove_row cs_id i (js_sets s)\<rparr>)) (ret True)
          else ret False)"

definition store_save_pending :: "pending_mutation \<Rightarrow> unit journal" where
  "store_save_pending p = persist (\<lambda>s. s\<lparr>js_pending := upsert pm_id p (js_pending s)\<rparr>)"

definition store_delete_pending :: "string \<Rightarrow> unit journal" where
  "store_delete_pending i = persist (\<lambda>s. s\<lparr>js_pending := remove_row pm_id i (js_pending s)\<rparr>)"

definition pending_rows :: "jstate \<Rightarrow> pending_mutation list" where
  "pending_rows s =
     sort_key (\<lambda>p. (pm_created p, pm_id p))
       (List.map_filter (\<lambda>p. map_option (\<lambda>c. p\<lparr>pm_workspace := cs_workspace c\<rparr>)
          (lookup_row cs_id (pm_set p) (js_sets s))) (js_pending s))"

definition store_list_pending :: "pending_mutation list journal" where
  "store_list_pending = gets pending_rows"

section \<open>Recording\<close>

definition new_identifier :: "string \<Rightarrow> string \<Rightarrow> string" where
  "new_identifier prefix fresh = prefix @ ''_'' @ fresh"

definition begin_change_set ::
  "workspace_identity \<Rightarrow> string \<Rightarrow> nat \<Rightarrow> string \<Rightarrow> string option \<Rightarrow> workspace_identity \<Rightarrow> change_set journal"
where
  "begin_change_set ident fresh now session_id turn_id workspace =
     (if wi_key workspace \<noteq> wi_key ident \<or> wi_path workspace \<noteq> wi_path ident
         \<or> wi_root workspace \<noteq> wi_root ident
      then raise ChangeLifecycleError
      else
        (let cs = \<lparr>cs_id = new_identifier ''change'' fresh, cs_session = session_id, cs_turn = turn_id,
                   cs_workspace = wi_key workspace, cs_lifecycle = OPEN, cs_reversibility = REV_FULL,
                   cs_files = [], cs_execute = [], cs_created = now, cs_sealed = None\<rparr>
         in andthen (store_save cs) (ret cs)))"

definition owned :: "workspace_identity \<Rightarrow> string \<Rightarrow> change_set journal" where
  "owned ident i =
     sbind (store_get i) (\<lambda>found.
       case found of
         None \<Rightarrow> raise ChangeSetNotFound
       | Some cs \<Rightarrow> if cs_workspace cs \<noteq> wi_key ident then raise ChangeLifecycleError else ret cs)"

definition open_set :: "workspace_identity \<Rightarrow> string \<Rightarrow> change_set journal" where
  "open_set ident i =
     sbind (owned ident i) (\<lambda>cs.
       if cs_lifecycle cs \<noteq> OPEN then raise ChangeLifecycleError else ret cs)"

fun sum_blobs :: "(string \<Rightarrow> string) \<Rightarrow> blobs \<Rightarrow> string list \<Rightarrow> change_error + nat" where
  "sum_blobs H blobs [] = Inr 0"
| "sum_blobs H blobs (d # ds) =
     (case blob_get H blobs d of Inl e \<Rightarrow> Inl e
      | Inr content \<Rightarrow> (case sum_blobs H blobs ds of Inl e \<Rightarrow> Inl e | Inr n \<Rightarrow> Inr (length content + n)))"

definition option_list :: "'a option \<Rightarrow> 'a list" where
  "option_list x = (case x of None \<Rightarrow> [] | Some y \<Rightarrow> [y])"

definition stored_digests :: "change_set \<Rightarrow> string list" where
  "stored_digests cs =
     remdups (concat (map (\<lambda>c. option_list (fc_before_blob c) @ option_list (fc_after_blob c)) (cs_files cs)))"

definition stored_bytes :: "(string \<Rightarrow> string) \<Rightarrow> blobs \<Rightarrow> change_set \<Rightarrow> change_error + nat" where
  "stored_bytes H blobs cs = sum_blobs H blobs (stored_digests cs)"

definition addition_bytes :: "node_snapshot option list \<Rightarrow> nat" where
  "addition_bytes snapshots =
     sum_list (map length (remdups (concat (map
       (\<lambda>s. case s of None \<Rightarrow> [] | Some n \<Rightarrow> option_list (ns_content n)) snapshots))))"

definition preflight ::
  "(string \<Rightarrow> string) \<Rightarrow> change_set \<Rightarrow> node_snapshot option \<Rightarrow> node_snapshot option \<Rightarrow> unit journal"
where
  "preflight H cs before intended_after =
     andthen (guard_else (length (cs_files cs) + 1 \<le> MAX_CHANGESET_FILES) ChangeCapacityExceeded)
    (sbind (reads (\<lambda>s. stored_bytes H (js_blobs s) cs)) (\<lambda>stored.
       guard_else (stored + addition_bytes [before, intended_after] \<le> MAX_CHANGESET_BYTES)
         ChangeCapacityExceeded))"

definition has_pending :: "string \<Rightarrow> bool journal" where
  "has_pending i = sbind store_list_pending (\<lambda>ps. ret (list_ex (\<lambda>p. pm_set p = i) ps))"

definition ensure_no_pending :: "string \<Rightarrow> unit journal" where
  "ensure_no_pending i =
     sbind (has_pending i) (\<lambda>found. if found then raise PendingMutationConflict else ret ())"

definition preflight_batch ::
  "(string \<Rightarrow> string) \<Rightarrow> workspace_identity \<Rightarrow> string \<Rightarrow> int \<Rightarrow> int \<Rightarrow> unit journal" where
  "preflight_batch H ident i additional_nodes additional_bytes =
     sbind (open_set ident i) (\<lambda>cs.
     andthen (ensure_no_pending i)
    (andthen (guard_else (additional_nodes \<ge> 0 \<and> additional_bytes \<ge> 0) ValueFailure)
    (andthen (guard_else (int (length (cs_files cs)) + additional_nodes \<le> int MAX_CHANGESET_FILES)
               ChangeCapacityExceeded)
    (sbind (reads (\<lambda>s. stored_bytes H (js_blobs s) cs)) (\<lambda>stored.
       guard_else (int stored + additional_bytes \<le> int MAX_CHANGESET_BYTES) ChangeCapacityExceeded)))))"

definition journal_relative :: "string \<Rightarrow> change_error + string" where
  "journal_relative relative_path =
     (case normalize_workspace_relative relative_path of
        Inl e \<Rightarrow> Inl e | Inr parts \<Rightarrow> Inr (as_posix parts))"

definition snapshot_mode :: "node_snapshot option \<Rightarrow> nat option" where
  "snapshot_mode s = (case s of None \<Rightarrow> None | Some n \<Rightarrow> ns_mode n)"

definition snapshot_type :: "node_snapshot option \<Rightarrow> file_node_type option" where
  "snapshot_type s = map_option ns_type s"

definition file_change_of ::
  "(string \<Rightarrow> string) \<Rightarrow> pending_mutation \<Rightarrow> node_snapshot option \<Rightarrow> file_change journal" where
  "file_change_of H pending actual_after =
     sbind (put_snapshot H actual_after) (\<lambda>after_blob.
       let before_node_type = pm_resolved_before pending;
           after_node_type = snapshot_type actual_after
       in ret \<lparr>fc_mutation_id = Some (pm_id pending), fc_path = pm_path pending,
               fc_kind = pm_kind pending,
               fc_node_type = or_else after_node_type (or_else before_node_type (pm_node_type pending)),
               fc_before_type = before_node_type, fc_after_type = after_node_type,
               fc_before_hash = pm_before_hash pending, fc_after_hash = snapshot_digest H actual_after,
               fc_before_blob = pm_before_blob pending, fc_after_blob = after_blob,
               fc_before_mode = pm_before_mode pending, fc_after_mode = snapshot_mode actual_after\<rparr>)"

text \<open>\<open>apply_file_mutation\<close> in the order of the source: check and describe, log
  the intent, mutate, verify, record, clear the intent.\<close>

definition prepare_mutation ::
  "(string \<Rightarrow> string) \<Rightarrow> workspace_identity \<Rightarrow> string \<Rightarrow> nat \<Rightarrow> string \<Rightarrow> file_change_kind
     \<Rightarrow> node_snapshot option \<Rightarrow> bound_file_mutation \<Rightarrow> (change_set \<times> pending_mutation) journal"
where
  "prepare_mutation H ident fresh now set_id kind intended_after target =
     sbind (open_set ident set_id) (\<lambda>cs.
     andthen (ensure_no_pending set_id)
    (sbind (lift_result (journal_relative (bf_path target))) (\<lambda>relative.
     let before = bf_before target in
     andthen (guard_else (\<not> (before = None \<and> intended_after = None)) ChangeLifecycleError)
    (andthen (preflight H cs before intended_after)
    (sbind (put_snapshot H before) (\<lambda>before_blob.
     sbind (put_snapshot H intended_after) (\<lambda>intended_after_blob.
       ret (cs,
         \<lparr>pm_id = new_identifier ''operation'' fresh, pm_set = cs_id cs, pm_workspace = cs_workspace cs, pm_path = relative,
          pm_kind = kind,
          pm_node_type = or_else (snapshot_type intended_after) (or_else (snapshot_type before) FILE),
          pm_before_type = snapshot_type before, pm_after_type = snapshot_type intended_after,
          pm_before_hash = snapshot_digest H before, pm_before_blob = before_blob,
          pm_before_mode = snapshot_mode before,
          pm_after_hash = snapshot_digest H intended_after, pm_after_blob = intended_after_blob,
          pm_after_mode = snapshot_mode intended_after, pm_created = now\<rparr>))))))))"

definition mutate_logged :: "pending_mutation \<Rightarrow> bound_file_mutation \<Rightarrow> unit journal" where
  "mutate_logged pending target =
     catch (write_tree (bf_mutate target)) (\<lambda>e.
       if e = MutationTargetChanged
       then andthen (store_delete_pending (pm_id pending)) (raise MutationTargetChanged)
       else raise e)"

definition record_mutation ::
  "(string \<Rightarrow> string) \<Rightarrow> change_set \<Rightarrow> pending_mutation \<Rightarrow> bound_file_mutation \<Rightarrow> file_change journal"
where
  "record_mutation H cs pending target =
     sbind (read_tree (bf_capture target)) (\<lambda>actual_after.
     andthen (guard_else (snapshot_matches_record H actual_after (pm_after_hash pending)
                (pm_after_mode pending) (or_else (pm_resolved_after pending) (pm_node_type pending)))
              PendingMutationConflict)
    (sbind (file_change_of H pending actual_after) (\<lambda>change.
     andthen (store_save (cs\<lparr>cs_files := cs_files cs @ [change]\<rparr>))
    (andthen (store_delete_pending (pm_id pending))
    (ret change)))))"

definition apply_file_mutation ::
  "(string \<Rightarrow> string) \<Rightarrow> workspace_identity \<Rightarrow> string \<Rightarrow> nat \<Rightarrow> string \<Rightarrow> file_change_kind
     \<Rightarrow> node_snapshot option \<Rightarrow> bound_file_mutation \<Rightarrow> file_change journal"
where
  "apply_file_mutation H ident fresh now set_id kind intended_after target =
     sbind (prepare_mutation H ident fresh now set_id kind intended_after target) (\<lambda>(cs, pending).
     andthen (store_save_pending pending)
    (andthen (mutate_logged pending target)
    (record_mutation H cs pending target)))"

definition record_execute ::
  "workspace_identity \<Rightarrow> string \<Rightarrow> string \<Rightarrow> string list \<Rightarrow> change_set journal" where
  "record_execute ident i command observed_paths =
     sbind (open_set ident i) (\<lambda>cs.
     andthen (ensure_no_pending i)
    (let updated = cs\<lparr>cs_execute := cs_execute cs @ [\<lparr>eo_command = command, eo_paths = observed_paths\<rparr>]\<rparr>
     in andthen (store_save updated) (ret updated)))"

definition reversibility :: "change_set \<Rightarrow> change_reversibility" where
  "reversibility cs =
     (if cs_files cs \<noteq> [] \<and> cs_execute cs \<noteq> [] then REV_PARTIAL
      else if cs_execute cs \<noteq> [] then REV_NONE else REV_FULL)"

definition seal :: "workspace_identity \<Rightarrow> nat \<Rightarrow> string \<Rightarrow> change_set journal" where
  "seal ident now i =
     sbind (open_set ident i) (\<lambda>cs.
     sbind (has_pending i) (\<lambda>found.
       if found then raise PendingMutationConflict
       else
         (let sealed = cs\<lparr>cs_lifecycle := APPLIED, cs_reversibility := reversibility cs,
                          cs_sealed := Some now\<rparr>
          in andthen (store_save sealed) (ret sealed))))"

section \<open>Recovery\<close>

definition pending_snapshot ::
  "(string \<Rightarrow> string) \<Rightarrow> blobs \<Rightarrow> pending_mutation \<Rightarrow> bool \<Rightarrow> change_error + node_snapshot option"
where
  "pending_snapshot H blobs pending before =
     (let digest = if before then pm_before_hash pending else pm_after_hash pending;
          blob = if before then pm_before_blob pending else pm_after_blob pending;
          mode = if before then pm_before_mode pending else pm_after_mode pending;
          node_type = if before then pm_resolved_before pending else pm_resolved_after pending
      in case digest of
           None \<Rightarrow> Inr None
         | Some d \<Rightarrow>
             (case node_type of
                None \<Rightarrow> Inl PendingMutationConflict
              | Some t \<Rightarrow>
                  if t = DIRECTORY
                  then Inr (Some \<lparr>ns_type = t, ns_content = None, ns_mode = mode\<rparr>)
                  else
                    (case blob of
                       None \<Rightarrow> Inl PendingMutationConflict
                     | Some b \<Rightarrow>
                         (case blob_get H blobs b of
                            Inl _ \<Rightarrow> Inl PendingMutationConflict
                          | Inr content \<Rightarrow>
                              let snapshot = Some \<lparr>ns_type = t, ns_content = Some content, ns_mode = mode\<rparr>
                              in if snapshot_digest H snapshot \<noteq> Some d then Inl PendingMutationConflict
                                 else Inr snapshot))))"

definition change_matches_pending :: "file_change \<Rightarrow> pending_mutation \<Rightarrow> bool" where
  "change_matches_pending change pending \<longleftrightarrow>
     fc_path change = pm_path pending
   \<and> fc_kind change = pm_kind pending
   \<and> resolved_before_node_type change = pm_resolved_before pending
   \<and> resolved_after_node_type change = pm_resolved_after pending
   \<and> fc_before_hash change = pm_before_hash pending
   \<and> fc_before_blob change = pm_before_blob pending
   \<and> (pm_before_mode pending = None \<or> fc_before_mode change = pm_before_mode pending)
   \<and> fc_after_hash change = pm_after_hash pending
   \<and> fc_after_blob change = pm_after_blob pending
   \<and> (pm_after_mode pending = None \<or> fc_after_mode change = pm_after_mode pending)"

datatype change_action = UNDO | REDO

definition operation_action :: "pending_mutation \<Rightarrow> change_action option" where
  "operation_action pending =
     (if starts_with ''undo_'' (pm_id pending) then Some UNDO
      else if starts_with ''redo_'' (pm_id pending) then Some REDO else None)"

definition recovery_relative :: "string \<Rightarrow> change_error + string" where
  "recovery_relative relative_path =
     (case journal_relative relative_path of
        Inl e \<Rightarrow> Inl (if e = ChangeLifecycleError then PendingMutationConflict else e)
      | Inr r \<Rightarrow> Inr r)"

definition owned_or_conflict :: "workspace_identity \<Rightarrow> string \<Rightarrow> change_set journal" where
  "owned_or_conflict ident i =
     rethrow (\<lambda>e. if e = ChangeLifecycleError \<or> e = ChangeSetNotFound then PendingMutationConflict else e)
       (owned ident i)"

definition reconcile_mutation ::
  "(string \<Rightarrow> string) \<Rightarrow> workspace_identity \<Rightarrow> pending_mutation \<Rightarrow> unit journal" where
  "reconcile_mutation H ident pending =
     sbind (owned_or_conflict ident (pm_set pending)) (\<lambda>cs.
     andthen (guard_else (cs_lifecycle cs = OPEN \<or> cs_lifecycle cs = APPLIED) PendingMutationConflict)
    (sbind (lift_result (recovery_relative (pm_path pending))) (\<lambda>relative.
     sbind (read_tree (\<lambda>t. bind_path t relative)) (\<lambda>target.
     sbind (read_tree (\<lambda>t. capture t target)) (\<lambda>current.
     let before_node_type = or_else (pm_resolved_before pending) (pm_node_type pending);
         intended_after_node_type = or_else (pm_resolved_after pending) (pm_node_type pending);
         committed = filter (\<lambda>c. fc_mutation_id c = Some (pm_id pending)) (cs_files cs)
     in if committed \<noteq> [] then
          (if length committed \<noteq> 1 \<or> \<not> change_matches_pending (hd committed) pending
           then raise PendingMutationConflict
           else if snapshot_matches_record H current (fc_after_hash (hd committed))
                     (fc_after_mode (hd committed))
                     (or_else (resolved_after_node_type (hd committed)) (fc_node_type (hd committed)))
           then store_delete_pending (pm_id pending)
           else raise PendingMutationConflict)
        else if list_ex (\<lambda>c. fc_mutation_id c = None \<and> change_matches_pending c pending) (cs_files cs)
        then raise PendingMutationConflict
        else if snapshot_matches_record H current (pm_before_hash pending) (pm_before_mode pending)
                  before_node_type
        then store_delete_pending (pm_id pending)
        else if snapshot_matches_record H current (pm_after_hash pending) (pm_after_mode pending)
                  intended_after_node_type
        then
          sbind (reads (\<lambda>s. pending_snapshot H (js_blobs s) pending True)) (\<lambda>before.
          sbind (reads (\<lambda>s. pending_snapshot H (js_blobs s) pending False)) (\<lambda>intended_after.
          andthen (preflight H cs before intended_after)
         (sbind (file_change_of H pending current) (\<lambda>change.
          let updated = cs\<lparr>cs_files := cs_files cs @ [change]\<rparr>;
              updated' = (if cs_lifecycle updated = APPLIED
                          then updated\<lparr>cs_reversibility := reversibility updated\<rparr> else updated)
          in andthen (store_save updated') (store_delete_pending (pm_id pending))))))
        else raise PendingMutationConflict)))))"

text \<open>An entry of \<open>bound\<close> in \<open>_reconcile_operation\<close>.\<close>

record bound_item =
  bi_pending :: pending_mutation
  bi_target :: bound_node
  bi_before :: "node_snapshot option"
  bi_intended :: "node_snapshot option"

definition bind_item :: "(string \<Rightarrow> string) \<Rightarrow> pending_mutation \<Rightarrow> bound_item journal" where
  "bind_item H pending =
     sbind (lift_result (recovery_relative (pm_path pending))) (\<lambda>relative.
     sbind (read_tree (\<lambda>t. bind_path t relative)) (\<lambda>target.
     sbind (reads (\<lambda>s. pending_snapshot H (js_blobs s) pending True)) (\<lambda>before.
     sbind (reads (\<lambda>s. pending_snapshot H (js_blobs s) pending False)) (\<lambda>intended.
     andthen (guard_else (snapshots_match H (bn_snapshot target) before
                \<or> snapshots_match H (bn_snapshot target) intended) PendingMutationConflict)
     (ret \<lparr>bi_pending = pending, bi_target = target, bi_before = before, bi_intended = intended\<rparr>)))))"

fun collect :: "('a \<Rightarrow> ('s, 'e, 'b) eff) \<Rightarrow> 'a list \<Rightarrow> ('s, 'e, 'b list) eff" where
  "collect f [] = ret []"
| "collect f (x # xs) = sbind (f x) (\<lambda>y. sbind (collect f xs) (\<lambda>ys. ret (y # ys)))"

definition check_committed_item :: "(string \<Rightarrow> string) \<Rightarrow> bound_item \<Rightarrow> unit journal" where
  "check_committed_item H b =
     sbind (read_tree (\<lambda>t. capture t (bi_target b))) (\<lambda>current.
       guard_else (snapshots_match H current (bi_intended b)) PendingMutationConflict)"

text \<open>The assertion of the source is the branch \<open>AssertionFailure\<close>.\<close>

definition roll_item_back :: "(string \<Rightarrow> string) \<Rightarrow> bound_item \<Rightarrow> unit journal" where
  "roll_item_back H b =
     sbind (read_tree (\<lambda>t. capture t (bi_target b))) (\<lambda>current.
       if snapshots_match H current (bi_before b) then ret ()
       else andthen (guard_else (snapshots_match H current (bi_intended b)) AssertionFailure)
           (sbind (write_tree (restore (bi_target b) (bi_before b))) (\<lambda>result.
              guard_else (snapshots_match H result (bi_before b)) PendingMutationConflict)))"

definition check_rolled_back :: "(string \<Rightarrow> string) \<Rightarrow> bound_item \<Rightarrow> unit journal" where
  "check_rolled_back H b =
     sbind (read_tree (\<lambda>t. bind_path t (pm_path (bi_pending b)))) (\<lambda>current.
       guard_else (snapshots_match H (bn_snapshot current) (bi_before b)) PendingMutationConflict)"

definition committed_lifecycle :: "change_action \<Rightarrow> change_lifecycle" where
  "committed_lifecycle action = (if action = UNDO then UNDONE else APPLIED)"

definition source_lifecycle :: "change_action \<Rightarrow> change_lifecycle" where
  "source_lifecycle action = (if action = UNDO then APPLIED else UNDONE)"

definition reconcile_operation ::
  "(string \<Rightarrow> string) \<Rightarrow> workspace_identity \<Rightarrow> change_action \<Rightarrow> pending_mutation list \<Rightarrow> unit journal"
where
  "reconcile_operation H ident action pending_items =
     andthen (guard_else (length (remdups (map pm_set pending_items)) = 1) PendingMutationConflict)
    (sbind (owned_or_conflict ident (hd (remdups (map pm_set pending_items)))) (\<lambda>cs.
     andthen (guard_else (cs_lifecycle cs = source_lifecycle action
                \<or> cs_lifecycle cs = committed_lifecycle action) PendingMutationConflict)
    (sbind (collect (bind_item H) (sort_key pm_id pending_items)) (\<lambda>bound.
     andthen
       (if cs_lifecycle cs = committed_lifecycle action
        then for_each (check_committed_item H) bound
        else andthen (for_each (roll_item_back H) (rev bound)) (for_each (check_rolled_back H) bound))
     (for_each (\<lambda>b. store_delete_pending (pm_id (bi_pending b))) bound)))))"

text \<open>The two dicts of \<open>reconcile_pending\<close>: rows grouped under their key, the
  keys in the order of their first row.\<close>

fun group_rows :: "('r \<Rightarrow> 'k) \<Rightarrow> 'r list \<Rightarrow> ('k \<times> 'r list) list" where
  "group_rows key [] = []"
| "group_rows key (r # rs) =
     (key r, r # filter (\<lambda>x. key x = key r) rs)
       # filter (\<lambda>(k, _). k \<noteq> key r) (group_rows key rs)"

definition unsafe_to_conflict :: "change_error \<Rightarrow> change_error" where
  "unsafe_to_conflict e =
     (if e = MutationTargetChanged \<or> e = UnsafeWorkspacePath \<or> e = OSFailure
      then PendingMutationConflict else e)"

text \<open>\<open>with WorkspaceTreeTransaction(..) as tree: m\<close>: the exit forgets the
  created directories whether the body returns or raises.\<close>

definition with_transaction :: "workspace_identity \<Rightarrow> 'a journal \<Rightarrow> 'a journal" where
  "with_transaction ident m =
     andthen (in_tree (enter_transaction (wi_root ident)))
       (\<lambda>s. case m s of (r, s') \<Rightarrow> (r, s'\<lparr>js_tree := close_transaction (js_tree s')\<rparr>))"

definition reconcile_ordinary ::
  "(string \<Rightarrow> string) \<Rightarrow> workspace_identity \<Rightarrow> nat \<Rightarrow> string list \<Rightarrow> string \<times> pending_mutation list \<Rightarrow> unit journal"
where
  "reconcile_ordinary H ident now operation_change_sets entry =
     (case entry of (i, pending_items) \<Rightarrow>
       andthen (for_each (reconcile_mutation H ident) pending_items)
      (sbind (owned ident i) (\<lambda>cs.
         if cs_lifecycle cs = OPEN \<and> i \<notin> set operation_change_sets
         then andthen (seal ident now i) (ret ()) else ret ())))"

definition reconcile_pending ::
  "(string \<Rightarrow> string) \<Rightarrow> workspace_identity \<Rightarrow> nat \<Rightarrow> string option \<Rightarrow> unit journal" where
  "reconcile_pending H ident now set_id =
     sbind store_list_pending (\<lambda>rows.
     let pending_items = filter (\<lambda>p. pm_workspace p = wi_key ident
                            \<and> (set_id = None \<or> set_id = Some (pm_set p))) rows;
         operations = group_rows (\<lambda>p. (pm_set p, the (operation_action p)))
                        (filter (\<lambda>p. operation_action p \<noteq> None) pending_items);
         ordinary = group_rows pm_set (filter (\<lambda>p. operation_action p = None) pending_items);
         operation_change_sets = map (\<lambda>((i, _), _). i) operations
     in rethrow unsafe_to_conflict
          (with_transaction ident
            (andthen (for_each (reconcile_ordinary H ident now operation_change_sets) ordinary)
            (for_each (\<lambda>((_, action), items). reconcile_operation H ident action items) operations))))"

definition seal_orphaned_open :: "workspace_identity \<Rightarrow> nat \<Rightarrow> unit journal" where
  "seal_orphaned_open ident now =
     sbind (store_list_open (wi_key ident)) (\<lambda>sets.
       for_each (\<lambda>cs. andthen (seal ident now (cs_id cs)) (ret ())) sets)"

end
