(* ===== verification/ChangeRecovery.thy ===== *)
theory ChangeRecovery
  imports ChangeJournal
begin

text \<open>
  Crash safety of the journal: a mutation that dies at any of its writes is
  either recorded or taken for not done by the next \<open>reconcile_pending\<close>, in
  agreement with the tree.  The mutations themselves (\<open>core/tools/filesystem.py\<close>)
  meet the contract \<open>journalled_mutation\<close>.
\<close>

section \<open>Effects of the journal as triples\<close>

lemma tick_cases:
  "tick s = (Inl Crashed, s) \<or> (\<exists>b. tick s = (Inr (), s\<lparr>js_budget := b\<rparr>))"
proof (cases "js_budget s")
  case None
  then have "tick s = (Inr (), s\<lparr>js_budget := None\<rparr>)" by (cases s) (simp add: tick_def)
  then show ?thesis by blast
next
  case (Some n)
  then show ?thesis by (cases n) (auto simp: tick_def)
qed

lemma valid_tick:
  assumes "\<And>s. P s \<Longrightarrow> E Crashed s" and "\<And>s b. P s \<Longrightarrow> Q () (s\<lparr>js_budget := b\<rparr>)"
  shows "valid P tick Q E"
proof (rule validI)
  fix s x s' assume "P s" "tick s = (Inr x, s')"
  with tick_cases [of s] assms(2) show "Q x s'" by auto
next
  fix s e s' assume "P s" "tick s = (Inl e, s')"
  with tick_cases [of s] assms(1) show "E e s'" by auto
qed

lemma valid_persist:
  assumes "\<And>s. P s \<Longrightarrow> E Crashed s" and "\<And>s b. P s \<Longrightarrow> Q () (f (s\<lparr>js_budget := b\<rparr>))"
  shows "valid P (persist f) Q E"
  unfolding persist_def
proof (rule valid_andthen)
  show "valid P tick (\<lambda>_ s'. \<exists>s b. P s \<and> s' = s\<lparr>js_budget := b\<rparr>) E"
    using assms(1) by (intro valid_tick) blast+
  show "valid (\<lambda>s'. \<exists>s b. P s \<and> s' = s\<lparr>js_budget := b\<rparr>) (modify f) Q E"
    using assms(2) by (auto simp: valid_def)
qed

lemma valid_gets: "(\<And>s. P s \<Longrightarrow> Q (g s) s) \<Longrightarrow> valid P (gets g) Q E"
  by (simp add: valid_def)

lemma valid_reads:
  "(\<And>s x. P s \<Longrightarrow> g s = Inr x \<Longrightarrow> Q x s) \<Longrightarrow> (\<And>s e. P s \<Longrightarrow> g s = Inl e \<Longrightarrow> E e s) \<Longrightarrow>
   valid P (reads g) Q E"
  by (auto simp: valid_def split: sum.split)

lemma valid_guard:
  "(\<And>s. P s \<Longrightarrow> b \<Longrightarrow> Q () s) \<Longrightarrow> (\<And>s. P s \<Longrightarrow> \<not> b \<Longrightarrow> E e s) \<Longrightarrow> valid P (guard_else b e) Q E"
  by (auto simp: valid_def)

text \<open>An effect that leaves the state alone.\<close>

lemma valid_same:
  "(\<And>s. snd (m s) = s) \<Longrightarrow> (\<And>s x. P s \<Longrightarrow> m s = (Inr x, s) \<Longrightarrow> Q x s) \<Longrightarrow>
   (\<And>s e. P s \<Longrightarrow> m s = (Inl e, s) \<Longrightarrow> E e s) \<Longrightarrow> valid P m Q E"
proof (rule validI)
  fix s x s' assume "\<And>s. snd (m s) = s" "\<And>s x. P s \<Longrightarrow> m s = (Inr x, s) \<Longrightarrow> Q x s"
    "P s" "m s = (Inr x, s')"
  moreover from this have "s' = s" by (metis snd_conv)
  ultimately show "Q x s'" by blast
next
  fix s e s' assume "\<And>s. snd (m s) = s" "\<And>s e. P s \<Longrightarrow> m s = (Inl e, s) \<Longrightarrow> E e s"
    "P s" "m s = (Inl e, s')"
  moreover from this have "s' = s" by (metis snd_conv)
  ultimately show "E e s'" by blast
qed

lemma owned_same [simp]: "snd (owned ident i s) = s"
  by (simp add: owned_def store_get_def split: option.split)

lemma open_set_returns:
  "open_set ident i s = (r, s') \<longleftrightarrow> s' = s \<and> r =
    (case lookup_row cs_id i (js_sets s) of
       None \<Rightarrow> Inl ChangeSetNotFound
     | Some cs \<Rightarrow> if cs_workspace cs \<noteq> wi_key ident \<or> cs_lifecycle cs \<noteq> OPEN
                 then Inl ChangeLifecycleError else Inr cs)"
  by (auto simp: open_set_def owned_def store_get_def sbind_def split: option.split)

lemma owned_run:
  "lookup_row cs_id i (js_sets s) = Some cs \<Longrightarrow> cs_workspace cs = wi_key ident \<Longrightarrow>
   owned ident i s = (Inr cs, s)"
  by (simp add: owned_def store_get_def)

lemma has_pending_run: "has_pending i s = (Inr (list_ex (\<lambda>p. pm_set p = i) (pending_rows s)), s)"
  by (simp add: has_pending_def store_list_pending_def)

lemma ensure_no_pending_run:
  "ensure_no_pending i s =
     (if list_ex (\<lambda>p. pm_set p = i) (pending_rows s) then Inl PendingMutationConflict else Inr (), s)"
  by (simp add: ensure_no_pending_def has_pending_run run_sbind_Inr)

lemma preflight_run:
  "preflight H cs b a s =
     ((if length (cs_files cs) + 1 \<le> MAX_CHANGESET_FILES
       then (case stored_bytes H (js_blobs s) cs of
               Inl e \<Rightarrow> Inl e
             | Inr n \<Rightarrow> if n + addition_bytes [b, a] \<le> MAX_CHANGESET_BYTES then Inr ()
                       else Inl ChangeCapacityExceeded)
       else Inl ChangeCapacityExceeded), s)"
  by (auto simp: preflight_def split: sum.split)

section \<open>Blobs\<close>

definition holds_content :: "(string \<Rightarrow> string) \<Rightarrow> blobs \<Rightarrow> node_snapshot option \<Rightarrow> bool" where
  "holds_content H blobs s \<longleftrightarrow>
     (\<forall>n c. s = Some n \<longrightarrow> ns_content n = Some c \<longrightarrow> blob_get H blobs (H c) = Inr c)"

definition extends :: "(string \<Rightarrow> string) \<Rightarrow> blobs \<Rightarrow> blobs \<Rightarrow> bool" where
  "extends H blobs blobs' \<longleftrightarrow> (\<forall>d c. blob_get H blobs d = Inr c \<longrightarrow> blob_get H blobs' d = Inr c)"

definition content_list :: "node_snapshot option \<Rightarrow> string list" where
  "content_list s = (case s of None \<Rightarrow> [] | Some n \<Rightarrow> option_list (ns_content n))"

text \<open>No two of the contents in play have the same digest.\<close>

definition collision_free :: "(string \<Rightarrow> string) \<Rightarrow> blobs \<Rightarrow> node_snapshot option list \<Rightarrow> bool" where
  "collision_free H blobs snapshots \<longleftrightarrow>
     inj_on H (ran blobs \<union> set (concat (map content_list snapshots)))"

definition blobs_within :: "blobs \<Rightarrow> node_snapshot option list \<Rightarrow> blobs \<Rightarrow> bool" where
  "blobs_within blobs snapshots blobs' \<longleftrightarrow>
     ran blobs' \<subseteq> ran blobs \<union> set (concat (map content_list snapshots))"

lemma extends_refl [simp]: "extends H b b"
  by (simp add: extends_def)

lemma extends_trans: "extends H a b \<Longrightarrow> extends H b c \<Longrightarrow> extends H a c"
  by (auto simp: extends_def)

lemma blobs_within_refl [simp]: "blobs_within b ss b"
  by (auto simp: blobs_within_def)

lemma holds_extends: "holds_content H a s \<Longrightarrow> extends H a b \<Longrightarrow> holds_content H b s"
  by (auto simp: holds_content_def extends_def)

lemma holds_None [simp]: "holds_content H b None"
  by (simp add: holds_content_def)

lemma sum_blobs_extends: "extends H a b \<Longrightarrow> sum_blobs H a ds = Inr n \<Longrightarrow> sum_blobs H b ds = Inr n"
  by (induction ds arbitrary: n) (auto simp: extends_def split: sum.splits)

lemma stored_bytes_extends:
  "extends H a b \<Longrightarrow> stored_bytes H a cs = Inr n \<Longrightarrow> stored_bytes H b cs = Inr n"
  by (simp add: stored_bytes_def sum_blobs_extends)

lemma blob_put_effects:
  assumes put: "blob_put H c blobs = (r, blobs')"
    and within: "blobs_within b0 ss blobs" and mem: "c \<in> set (concat (map content_list ss))"
    and cf: "collision_free H b0 ss"
  shows "extends H blobs blobs' \<and> blobs_within b0 ss blobs' \<and>
    (case r of Inl _ \<Rightarrow> True | Inr d \<Rightarrow> d = H c \<and> blob_get H blobs' (H c) = Inr c)"
proof -
  have ext: "extends H blobs blobs'" using put by (auto simp: extends_def blob_put_keeps)
  show ?thesis
  proof (cases r)
    case (Inl e)
    then have "blobs' = blobs"
      using put by (auto simp: blob_put_def Let_def split: if_splits sum.splits)
    with Inl ext within show ?thesis by simp
  next
    case (Inr d)
    with put have d: "d = H c" "valid_digest d"
      and cases: "if blobs d = None then blobs' = blobs(d \<mapsto> c)
         else (\<exists>c. blob_get H blobs d = Inr c) \<and> blobs' = blobs"
      by (auto simp: blob_put_Inr)
    show ?thesis
    proof (cases "blobs d")
      case None
      with cases d Inr ext within mem show ?thesis
        by (auto simp: blob_get_Inr blobs_within_def ran_def)
    next
      case (Some c')
      with cases have same: "blobs' = blobs" and "H c' = d" by (auto simp: blob_get_Inr)
      moreover have "c' \<in> ran b0 \<union> set (concat (map content_list ss))"
        using Some within by (auto simp: blobs_within_def ran_def)
      ultimately have "c' = c" using d mem cf by (auto simp: collision_free_def dest: inj_onD)
      with same Some d Inr ext within show ?thesis by (simp add: blob_get_Inr)
    qed
  qed
qed

text \<open>Storing a snapshot: only blobs change.\<close>

definition blobs_grown ::
  "(string \<Rightarrow> string) \<Rightarrow> node_snapshot option list \<Rightarrow> jstate \<Rightarrow> jstate \<Rightarrow> bool" where
  "blobs_grown H ss s0 s \<longleftrightarrow>
     js_tree s = js_tree s0 \<and> js_sets s = js_sets s0 \<and> js_pending s = js_pending s0 \<and>
     extends H (js_blobs s0) (js_blobs s) \<and> blobs_within (js_blobs s0) ss (js_blobs s)"

lemma blobs_grown_refl [simp]: "blobs_grown H ss s s"
  by (simp add: blobs_grown_def)

section \<open>Binding and looking again\<close>

definition parent_ready :: "tree \<Rightarrow> string list \<Rightarrow> bool" where
  "parent_ready t p \<longleftrightarrow>
     butlast p = [] \<or> (case node_at t (butlast p) of None \<Rightarrow> False | Some n \<Rightarrow> nd_kind n = DDir)"

lemma parent_ready_dir: "good_tree t \<Longrightarrow> parent_ready t p \<longleftrightarrow> dir_in (abs_tree H t) (butlast p)"
  by (auto simp: parent_ready_def dir_in_def is_dir_abs split: option.split)

lemma journal_relative_plain:
  "list_all plain_component p \<Longrightarrow> p \<noteq> [] \<Longrightarrow> journal_relative (as_posix p) = Inr (as_posix p)"
  by (simp add: journal_relative_def normalize_as_posix)

lemma recovery_relative_plain:
  "list_all plain_component p \<Longrightarrow> p \<noteq> [] \<Longrightarrow> recovery_relative (as_posix p) = Inr (as_posix p)"
  by (simp add: recovery_relative_def journal_relative_plain)

lemma bind_capture_runs:
  assumes g: "good_tree t" and p: "list_all plain_component p" "p \<noteq> []" and parent: "parent_ready t p"
  shows "\<exists>b. bind_path t (as_posix p) = Inr b \<and> capture t b = Inr (look t p) \<and>
    bn_snapshot b = look t p \<and> bn_relative b = p \<and> bn_missing b = None"
proof -
  have open': "open_parent t (butlast p) = Inr None"
    using parent open_parent_dir [OF g] by (simp add: parent_ready_dir [OF g, where H = "\<lambda>x. x"])
  let ?b = "\<lparr>bn_relative = p, bn_snapshot = look t p, bn_identity = map_option nd_ident (node_at t p),
    bn_missing = None\<rparr>"
  have "current_in t ?b" by (simp add: current_in_def)
  from assert_current [OF g this] have "capture t ?b = Inr (look t p)"
    using open' by (simp add: capture_def verify_missing_ancestor_def capture_child_look [OF g])
  then show ?thesis
    using open' p by (auto simp: bind_path_def normalize_as_posix capture_child_look [OF g])
qed

lemma good_tree_created [simp]: "good_tree (t\<lparr>tr_created := c\<rparr>) = good_tree t"
  by (simp add: good_tree_def)

lemma look_created [simp]: "look (t\<lparr>tr_created := c\<rparr>) = look t"
  by (simp add: look_def fun_eq_iff)

lemma parent_ready_created [simp]: "parent_ready (t\<lparr>tr_created := c\<rparr>) p = parent_ready t p"
  by (simp add: parent_ready_def)

lemma abs_tree_created [simp]: "abs_tree H (t\<lparr>tr_created := c\<rparr>) = abs_tree H t"
  by (simp add: abs_tree_def)

lemma close_transaction_simps [simp]:
  "look (close_transaction t) = look t" "abs_tree H (close_transaction t) = abs_tree H t"
  "good_tree (close_transaction t) = good_tree t" "tr_root (close_transaction t) = tr_root t"
  by (simp_all add: close_transaction_def)

section \<open>The rows of one set\<close>

definition rows_of :: "workspace_identity \<Rightarrow> string \<Rightarrow> jstate \<Rightarrow> pending_mutation list" where
  "rows_of ident i s = filter (\<lambda>p. pm_workspace p = wi_key ident \<and> pm_set p = i) (pending_rows s)"

definition joined :: "jstate \<Rightarrow> pending_mutation \<Rightarrow> pending_mutation option" where
  "joined s p = map_option (\<lambda>c. p\<lparr>pm_workspace := cs_workspace c\<rparr>) (lookup_row cs_id (pm_set p) (js_sets s))"

lemma map_filter_append: "List.map_filter f (xs @ ys) = List.map_filter f xs @ List.map_filter f ys"
  by (simp add: List.map_filter_def)

lemma joined_set: "joined s p = Some q \<Longrightarrow> pm_set q = pm_set p"
  by (auto simp: joined_def)

lemma joined_none: "i \<notin> pm_set ` set ps \<Longrightarrow>
    filter (\<lambda>p. K p \<and> pm_set p = i) (List.map_filter (joined s) ps) = []"
  by (induction ps) (auto simp: map_filter_simps split: option.split dest: joined_set)

lemma rows_of_joined:
  "rows_of ident i s = sort_key (\<lambda>p. (pm_created p, pm_id p))
     (filter (\<lambda>p. pm_workspace p = wi_key ident \<and> pm_set p = i) (List.map_filter (joined s) (js_pending s)))"
  by (simp add: rows_of_def pending_rows_def filter_sort joined_def [abs_def])

lemma rows_of_none: "i \<notin> pm_set ` set (js_pending s) \<Longrightarrow> rows_of ident i s = []"
  by (simp add: rows_of_joined joined_none)

lemma rows_of_one:
  assumes "js_pending s = ps @ [pm]" and "i \<notin> pm_set ` set ps" and "pm_set pm = i"
    and "lookup_row cs_id i (js_sets s) = Some cs" and "cs_workspace cs = wi_key ident"
    and "pm_workspace pm = cs_workspace cs"
  shows "rows_of ident i s = [pm]"
proof -
  have "joined s pm = Some pm" using assms(3-6) by (cases pm) (simp add: joined_def)
  then have "filter (\<lambda>p. pm_workspace p = wi_key ident \<and> pm_set p = i) (List.map_filter (joined s) [pm]) = [pm]"
    using assms(3,5,6) by (simp add: List.map_filter_def)
  with joined_none [OF assms(2)] show ?thesis
    by (simp add: rows_of_joined assms(1) map_filter_append)
qed

lemma no_pending_rows:
  assumes "i \<notin> pm_set ` set (js_pending s)"
  shows "list_ex (\<lambda>p. pm_set p = i) (pending_rows s) = False"
proof -
  have "filter (\<lambda>p. pm_set p = i) (pending_rows s) = []"
    using joined_none [OF assms, of "\<lambda>_. True" s]
    by (simp add: pending_rows_def filter_sort joined_def [abs_def])
  then show ?thesis by (auto simp: list_ex_iff filter_empty_conv)
qed

section \<open>One ordinary row\<close>

definition sealed_set :: "nat \<Rightarrow> change_set \<Rightarrow> change_set" where
  "sealed_set now cs =
     cs\<lparr>cs_lifecycle := APPLIED, cs_reversibility := reversibility cs, cs_sealed := Some now\<rparr>"

lemma tick_alive: "js_budget s = None \<Longrightarrow> tick s = (Inr (), s)"
  by (simp add: tick_def)

lemma persist_alive: "js_budget s = None \<Longrightarrow> persist f s = (Inr (), f s)"
  by (simp add: persist_def run_andthen_Inr [OF tick_alive])

lemma with_transaction_run:
  assumes "tr_root (js_tree s) = wi_root ident"
    and "m (s\<lparr>js_tree := (js_tree s)\<lparr>tr_created := {}\<rparr>\<rparr>) = (r, s')"
  shows "with_transaction ident m s = (r, s'\<lparr>js_tree := close_transaction (js_tree s')\<rparr>)"
proof -
  have "in_tree (enter_transaction (wi_root ident)) s
      = (Inr (), s\<lparr>js_tree := (js_tree s)\<lparr>tr_created := {}\<rparr>\<rparr>)"
    using assms(1) by (simp add: in_tree_def enter_transaction_def)
  with assms(2) show ?thesis
    unfolding with_transaction_def by (simp add: run_andthen_Inr)
qed

lemma reconcile_none:
  assumes "rows_of ident i s = []" and "tr_root (js_tree s) = wi_root ident"
  shows "reconcile_pending H ident now (Some i) s
    = (Inr (), s\<lparr>js_tree := close_transaction ((js_tree s)\<lparr>tr_created := {}\<rparr>)\<rparr>)"
proof -
  have rows: "filter (\<lambda>p. pm_workspace p = wi_key ident \<and> i = pm_set p) (pending_rows s) = []"
    using assms(1) by (simp add: rows_of_def eq_commute)
  show ?thesis
    using with_transaction_run [OF assms(2), of "andthen (ret ()) (ret ())"]
    by (simp add: reconcile_pending_def store_list_pending_def rows Let_def del: filter_filter)
qed

lemma reconcile_one:
  assumes rows: "rows_of ident i s = [pm]" and op: "operation_action pm = None" "pm_set pm = i"
    and root: "tr_root (js_tree s) = wi_root ident"
    and m: "reconcile_mutation H ident pm (s\<lparr>js_tree := (js_tree s)\<lparr>tr_created := {}\<rparr>\<rparr>) = (Inr (), s2)"
    and cs: "lookup_row cs_id i (js_sets s2) = Some cs" "cs_workspace cs = wi_key ident" "cs_id cs = i"
      "cs_lifecycle cs = OPEN"
    and clear: "i \<notin> pm_set ` set (js_pending s2)" and alive: "js_budget s2 = None"
  shows "reconcile_pending H ident now (Some i) s
    = (Inr (), s2\<lparr>js_sets := upsert cs_id (sealed_set now cs) (js_sets s2),
                 js_tree := close_transaction (js_tree s2)\<rparr>)"
proof -
  have rows': "filter (\<lambda>p. pm_workspace p = wi_key ident \<and> i = pm_set p) (pending_rows s) = [pm]"
    using rows by (simp add: rows_of_def eq_commute)
  let ?s3 = "s2\<lparr>js_sets := upsert cs_id (sealed_set now cs) (js_sets s2)\<rparr>"
  have open': "open_set ident i s2 = (Inr cs, s2)" using cs by (simp add: open_set_returns)
  have seal: "seal ident now i s2 = (Inr (sealed_set now cs), ?s3)"
    using open' alive no_pending_rows [OF clear]
    by (simp add: seal_def has_pending_run run_sbind_Inr store_save_def persist_alive run_andthen_Inr
        sealed_set_def Let_def)
  have one: "reconcile_ordinary H ident now [] (i, [pm])
      (s\<lparr>js_tree := (js_tree s)\<lparr>tr_created := {}\<rparr>\<rparr>) = (Inr (), ?s3)"
    using m cs seal owned_run [OF cs(1,2)]
    by (simp add: reconcile_ordinary_def run_andthen_Inr run_sbind_Inr)
  let ?m = "\<lambda>g. andthen (for_each (reconcile_ordinary H ident now []) [(i, [pm])])
      (for_each (g :: _ \<Rightarrow> unit journal) [])"
  have "with_transaction ident (?m g) s = (Inr (), ?s3\<lparr>js_tree := close_transaction (js_tree ?s3)\<rparr>)"
    for g :: "_ \<Rightarrow> unit journal"
    by (rule with_transaction_run [OF root]) (simp add: one run_andthen_Inr)
  with op show ?thesis
    by (simp add: reconcile_pending_def store_list_pending_def rows' Let_def
        del: for_each.simps filter_filter)
qed

section \<open>The interrupted states\<close>

text \<open>A state reached from \<open>s0\<close> that has the tree \<open>t\<close>, the sets and the pending
  rows given, and the contents of the snapshots \<open>held\<close> in its blobs.\<close>

definition phase ::
  "(string \<Rightarrow> string) \<Rightarrow> node_snapshot option list \<Rightarrow> jstate \<Rightarrow> node_snapshot option list \<Rightarrow>
   tree \<Rightarrow> change_set list \<Rightarrow> pending_mutation list \<Rightarrow> jstate \<Rightarrow> bool"
where
  "phase H ss s0 held t sets pend s \<longleftrightarrow>
     js_tree s = t \<and> js_sets s = sets \<and> js_pending s = pend \<and>
     extends H (js_blobs s0) (js_blobs s) \<and> blobs_within (js_blobs s0) ss (js_blobs s) \<and>
     (\<forall>x \<in> set held. holds_content H (js_blobs s) x)"

lemma phase_start: "phase H ss s0 [] (js_tree s0) (js_sets s0) (js_pending s0) s0"
  by (simp add: phase_def)

lemma phase_budget [simp]:
  "phase H ss s0 held t sets pend (s\<lparr>js_budget := b\<rparr>) = phase H ss s0 held t sets pend s"
  by (simp add: phase_def)

definition content_digest :: "(string \<Rightarrow> string) \<Rightarrow> node_snapshot option \<Rightarrow> string option" where
  "content_digest H s = (case s of None \<Rightarrow> None | Some n \<Rightarrow> map_option H (ns_content n))"

lemma valid_put_snapshot:
  assumes cf: "collision_free H (js_blobs s0) ss" and x: "set (content_list x) \<subseteq> set (concat (map content_list ss))"
  shows "valid (phase H ss s0 held t sets pend) (put_snapshot H x)
    (\<lambda>d s. phase H ss s0 (x # held) t sets pend s \<and> d = content_digest H x)
    (\<lambda>_. phase H ss s0 held t sets pend)"
proof (cases "\<exists>n c. x = Some n \<and> ns_content n = Some c")
  case False
  then show ?thesis
    by (auto simp: valid_def put_snapshot_def content_digest_def phase_def holds_content_def
        split: option.splits)
next
  case True
  then obtain n c where n: "x = Some n" "ns_content n = Some c" by blast
  have mem: "c \<in> set (concat (map content_list ss))"
    using n x by (simp add: content_list_def option_list_def)
  have put: "valid (phase H ss s0 held t sets pend)
      (\<lambda>s. case blob_put H c (js_blobs s) of (r, blobs) \<Rightarrow> (r, s\<lparr>js_blobs := blobs\<rparr>))
      (\<lambda>d s. phase H ss s0 (x # held) t sets pend s \<and> d = H c) (\<lambda>_. phase H ss s0 held t sets pend)"
    (is "valid _ ?put _ _")
  proof (rule validI)
    fix s d s' assume s: "phase H ss s0 held t sets pend s" and "?put s = (Inr d, s')"
    then obtain blobs where b: "blob_put H c (js_blobs s) = (Inr d, blobs)" "s' = s\<lparr>js_blobs := blobs\<rparr>"
      by (auto split: prod.splits)
    with blob_put_effects [OF b(1) _ mem cf] s
    have "extends H (js_blobs s) blobs" "blobs_within (js_blobs s0) ss blobs" "d = H c"
      "blob_get H blobs (H c) = Inr c"
      by (auto simp: phase_def)
    with s b n show "phase H ss s0 (x # held) t sets pend s' \<and> d = H c"
      by (auto simp: phase_def intro: holds_extends extends_trans) (simp add: holds_content_def)
  next
    fix s e s' assume s: "phase H ss s0 held t sets pend s" and "?put s = (Inl e, s')"
    then obtain blobs where b: "blob_put H c (js_blobs s) = (Inl e, blobs)" "s' = s\<lparr>js_blobs := blobs\<rparr>"
      by (auto split: prod.splits)
    with blob_put_effects [OF b(1) _ mem cf] s
    have "extends H (js_blobs s) blobs" "blobs_within (js_blobs s0) ss blobs"
      by (auto simp: phase_def)
    with s b show "phase H ss s0 held t sets pend s'"
      by (auto simp: phase_def intro: holds_extends extends_trans)
  qed
  have "valid (phase H ss s0 held t sets pend) (put_blob H c)
      (\<lambda>d s. phase H ss s0 (x # held) t sets pend s \<and> d = H c) (\<lambda>_. phase H ss s0 held t sets pend)"
    unfolding put_blob_def by (rule valid_andthen [OF valid_tick put]) auto
  then have "valid (phase H ss s0 held t sets pend) (sbind (put_blob H c) (\<lambda>d. ret (Some d)))
    (\<lambda>d s. phase H ss s0 (x # held) t sets pend s \<and> d = content_digest H x)
    (\<lambda>_. phase H ss s0 held t sets pend)"
    by (rule valid_sbind) (auto intro!: valid_ret simp: content_digest_def n)
  with n show ?thesis by (simp add: put_snapshot_def)
qed

section \<open>The rows a mutation writes\<close>

definition logged_row ::
  "(string \<Rightarrow> string) \<Rightarrow> change_set \<Rightarrow> string \<Rightarrow> nat \<Rightarrow> file_change_kind \<Rightarrow> string list \<Rightarrow>
   node_snapshot option \<Rightarrow> node_snapshot option \<Rightarrow> pending_mutation"
where
  "logged_row H cs fresh now kind p before intended =
     \<lparr>pm_id = new_identifier ''operation'' fresh, pm_set = cs_id cs, pm_workspace = cs_workspace cs,
      pm_path = as_posix p, pm_kind = kind,
      pm_node_type = or_else (snapshot_type intended) (or_else (snapshot_type before) FILE),
      pm_before_type = snapshot_type before, pm_after_type = snapshot_type intended,
      pm_before_hash = snapshot_digest H before, pm_before_blob = content_digest H before,
      pm_before_mode = snapshot_mode before,
      pm_after_hash = snapshot_digest H intended, pm_after_blob = content_digest H intended,
      pm_after_mode = snapshot_mode intended, pm_created = now\<rparr>"

definition recorded_change ::
  "(string \<Rightarrow> string) \<Rightarrow> pending_mutation \<Rightarrow> node_snapshot option \<Rightarrow> file_change" where
  "recorded_change H pm actual =
     \<lparr>fc_mutation_id = Some (pm_id pm), fc_path = pm_path pm, fc_kind = pm_kind pm,
      fc_node_type = or_else (snapshot_type actual) (or_else (pm_resolved_before pm) (pm_node_type pm)),
      fc_before_type = pm_resolved_before pm, fc_after_type = snapshot_type actual,
      fc_before_hash = pm_before_hash pm, fc_after_hash = snapshot_digest H actual,
      fc_before_blob = pm_before_blob pm, fc_after_blob = content_digest H actual,
      fc_before_mode = pm_before_mode pm, fc_after_mode = snapshot_mode actual\<rparr>"

text \<open>What the file system may add to the intended node: its mode.\<close>

definition agrees :: "node_snapshot option \<Rightarrow> node_snapshot option \<Rightarrow> bool" where
  "agrees intended actual \<longleftrightarrow>
     (case intended of
        None \<Rightarrow> actual = None
      | Some n \<Rightarrow> \<exists>m. actual = Some (n\<lparr>ns_mode := Some m\<rparr>) \<and> (ns_mode n = None \<or> ns_mode n = Some m))"

lemma agrees_content: "agrees i a \<Longrightarrow> content_list a = content_list i \<and> content_digest H a = content_digest H i
    \<and> snapshot_digest H a = snapshot_digest H i \<and> snapshot_type a = snapshot_type i"
  by (auto simp: agrees_def content_list_def content_digest_def snapshot_type_def split: option.splits)

lemma pm_resolved_logged [simp]:
  "pm_resolved_before (logged_row H cs fresh now kind p before intended) = snapshot_type before"
  "pm_resolved_after (logged_row H cs fresh now kind p before intended) = snapshot_type intended"
  by (auto simp: pm_resolved_before_def pm_resolved_after_def logged_row_def snapshot_type_def
      split: option.splits) (auto simp: snapshot_digest_def split: option.splits)

lemma matches_intended:
  "agrees intended actual \<Longrightarrow>
   snapshot_matches_record H actual (snapshot_digest H intended) (snapshot_mode intended)
     (or_else (snapshot_type intended) k)"
  by (cases intended)
    (auto simp: agrees_def snapshot_matches_record_def snapshot_mode_def snapshot_type_def)

lemma matches_itself:
  "snapshot_matches_record H s (snapshot_digest H s) (snapshot_mode s) (or_else (snapshot_type s) k)"
  by (cases s) (auto simp: snapshot_matches_record_def snapshot_mode_def snapshot_type_def)

lemma matches_digest:
  "snapshot_matches_record H cur (snapshot_digest H s) (snapshot_mode s) (or_else (snapshot_type s) k) \<Longrightarrow>
   (\<And>n. s = Some n \<Longrightarrow> ns_mode n \<noteq> None) \<Longrightarrow> digest_of H cur = digest_of H s"
  by (cases s; cases cur)
    (auto simp: snapshot_matches_record_def snapshot_mode_def snapshot_type_def digest_of_def)

section \<open>The contract of a mutation\<close>

text \<open>What the journal relies on: a target bound in an applicable tree describes
  the node as it is there, and its \<open>mutate\<close> either changes that node to the
  intended one and nothing else, or raises and changes nothing.\<close>

locale journalled_mutation =
  fixes path :: "string list"
    and intended :: "node_snapshot option"
    and applicable :: "tree \<Rightarrow> bool"
    and target :: "tree \<Rightarrow> bound_file_mutation"
  assumes plain: "applicable t \<Longrightarrow> list_all plain_component path"
    and nonempty: "applicable t \<Longrightarrow> path \<noteq> []"
    and tree: "applicable t \<Longrightarrow> good_tree t \<and> parent_ready t path"
    and describes: "applicable t \<Longrightarrow> bf_path (target t) = as_posix path \<and> bf_before (target t) = look t path"
    and mutates: "applicable t \<Longrightarrow> bf_mutate (target t) t = (r, t') \<Longrightarrow>
      (case r of
         Inl _ \<Rightarrow> t' = t
       | Inr _ \<Rightarrow> good_tree t' \<and> tr_root t' = tr_root t \<and> (\<forall>q. q \<noteq> path \<longrightarrow> node_at t' q = node_at t q) \<and>
           agrees intended (look t' path) \<and> bf_capture (target t) t' = Inr (look t' path))"

definition mutation_ready ::
  "(string \<Rightarrow> string) \<Rightarrow> workspace_identity \<Rightarrow> string \<Rightarrow> string \<Rightarrow> change_set \<Rightarrow>
   node_snapshot option list \<Rightarrow> jstate \<Rightarrow> bool"
where
  "mutation_ready H ident fresh set_id cs snaps s \<longleftrightarrow>
     tr_root (js_tree s) = wi_root ident \<and>
     lookup_row cs_id set_id (js_sets s) = Some cs \<and> cs_workspace cs = wi_key ident \<and>
     cs_lifecycle cs = OPEN \<and> set_id \<notin> pm_set ` set (js_pending s) \<and>
     new_identifier ''operation'' fresh \<notin> pm_id ` set (js_pending s) \<and>
     list_all (\<lambda>c. fc_mutation_id c \<noteq> None \<and> fc_mutation_id c \<noteq> Some (new_identifier ''operation'' fresh))
       (cs_files cs) \<and>
     collision_free H (js_blobs s) snaps"

definition within_capacity ::
  "(string \<Rightarrow> string) \<Rightarrow> jstate \<Rightarrow> change_set \<Rightarrow> node_snapshot option \<Rightarrow> node_snapshot option \<Rightarrow> bool" where
  "within_capacity H s cs before intended \<longleftrightarrow>
     length (cs_files cs) + 1 \<le> MAX_CHANGESET_FILES \<and>
     (\<exists>n. stored_bytes H (js_blobs s) cs = Inr n \<and>
          n + addition_bytes [before, intended] \<le> MAX_CHANGESET_BYTES)"

text \<open>Where a mutation may have stopped: nothing logged, logged and not done,
  done, recorded, cleared.\<close>

definition moved :: "string list \<Rightarrow> node_snapshot option \<Rightarrow> tree \<Rightarrow> tree \<Rightarrow> bool" where
  "moved p intended t t' \<longleftrightarrow>
     good_tree t' \<and> tr_root t' = tr_root t \<and> (\<forall>q. q \<noteq> p \<longrightarrow> node_at t' q = node_at t q) \<and>
     agrees intended (look t' p)"

definition with_change :: "change_set \<Rightarrow> file_change \<Rightarrow> change_set" where
  "with_change cs c = cs\<lparr>cs_files := cs_files cs @ [c]\<rparr>"

datatype progress = Unlogged | Logged | Done | Recorded | Cleared

definition stopped_at ::
  "(string \<Rightarrow> string) \<Rightarrow> string list \<Rightarrow> node_snapshot option \<Rightarrow> change_set \<Rightarrow> pending_mutation \<Rightarrow>
   jstate \<Rightarrow> progress \<Rightarrow> jstate \<Rightarrow> bool"
where
  "stopped_at H p intended cs pm s0 g s \<longleftrightarrow>
     (let ss = [look (js_tree s0) p, intended];
          t0 = js_tree s0; sets = js_sets s0; pend = js_pending s0;
          recorded = (\<lambda>t. upsert cs_id (with_change cs (recorded_change H pm (look t p))) sets)
      in case g of
           Unlogged \<Rightarrow> phase H ss s0 [] t0 sets pend s
         | Logged \<Rightarrow> phase H ss s0 ss t0 sets (pend @ [pm]) s
         | Done \<Rightarrow> \<exists>t. moved p intended t0 t \<and> phase H ss s0 ss t sets (pend @ [pm]) s
         | Recorded \<Rightarrow> \<exists>t. moved p intended t0 t \<and> phase H ss s0 ss t (recorded t) (pend @ [pm]) s
         | Cleared \<Rightarrow> \<exists>t. moved p intended t0 t \<and> phase H ss s0 ss t (recorded t) pend s)"

definition interrupted ::
  "(string \<Rightarrow> string) \<Rightarrow> string list \<Rightarrow> node_snapshot option \<Rightarrow> change_set \<Rightarrow> pending_mutation \<Rightarrow>
   jstate \<Rightarrow> jstate \<Rightarrow> bool"
where
  "interrupted H p intended cs pm s0 s \<longleftrightarrow>
     stopped_at H p intended cs pm s0 Unlogged s \<or>
     (\<exists>g. stopped_at H p intended cs pm s0 g s) \<and>
       within_capacity H s0 cs (look (js_tree s0) p) intended"

lemma phase_held: "phase H ss s0 held t sets pend s \<Longrightarrow> set held' \<subseteq> set held \<Longrightarrow>
    phase H ss s0 held' t sets pend s"
  by (auto simp: phase_def)

lemma stopped_simps:
  "stopped_at H p i cs pm s0 Unlogged s \<longleftrightarrow>
     phase H [look (js_tree s0) p, i] s0 [] (js_tree s0) (js_sets s0) (js_pending s0) s"
  "stopped_at H p i cs pm s0 Logged s \<longleftrightarrow>
     phase H [look (js_tree s0) p, i] s0 [look (js_tree s0) p, i] (js_tree s0) (js_sets s0)
       (js_pending s0 @ [pm]) s"
  "stopped_at H p i cs pm s0 Done s \<longleftrightarrow> (\<exists>t. moved p i (js_tree s0) t \<and>
     phase H [look (js_tree s0) p, i] s0 [look (js_tree s0) p, i] t (js_sets s0) (js_pending s0 @ [pm]) s)"
  by (simp_all add: stopped_at_def Let_def)

lemma stopped_budget [simp]:
  "stopped_at H p i cs pm s0 g (s\<lparr>js_budget := b\<rparr>) = stopped_at H p i cs pm s0 g s"
  by (simp add: stopped_at_def Let_def split: progress.split)

section \<open>Every prefix of a mutation is interrupted\<close>

lemma valid_prepare:
  assumes ready: "mutation_ready H ident fresh set_id cs [look (js_tree s0) p, intended] s0"
    and plain: "list_all plain_component p" "p \<noteq> []"
    and target: "bf_path tgt = as_posix p" "bf_before tgt = look (js_tree s0) p"
    and pm: "pm = logged_row H cs fresh now kind p (look (js_tree s0) p) intended"
  shows "valid (\<lambda>s. s = s0) (prepare_mutation H ident fresh now set_id kind intended tgt)
    (\<lambda>(cs', pm') s. cs' = cs \<and> pm' = pm \<and> within_capacity H s0 cs (look (js_tree s0) p) intended \<and>
       phase H [look (js_tree s0) p, intended] s0 [look (js_tree s0) p, intended]
         (js_tree s0) (js_sets s0) (js_pending s0) s)
    (\<lambda>_ s. stopped_at H p intended cs pm s0 Unlogged s)"
proof -
  let ?b = "look (js_tree s0) p" and ?ss = "[look (js_tree s0) p, intended]"
  let ?ph = "\<lambda>held. phase H ?ss s0 held (js_tree s0) (js_sets s0) (js_pending s0)"
  have cf: "collision_free H (js_blobs s0) ?ss" using ready by (simp add: mutation_ready_def)
  have open': "open_set ident set_id s0 = (Inr cs, s0)"
    using ready by (simp add: open_set_returns mutation_ready_def)
  have nop: "ensure_no_pending set_id s0 = (Inr (), s0)"
    using ready by (simp add: ensure_no_pending_run no_pending_rows mutation_ready_def)
  have puts: "valid (?ph []) (sbind (put_snapshot H ?b) (\<lambda>before_blob.
        sbind (put_snapshot H intended) (\<lambda>intended_after_blob. ret (f before_blob intended_after_blob))))
      (\<lambda>r s. r = f (content_digest H ?b) (content_digest H intended) \<and> ?ph ?ss s)
      (\<lambda>_. ?ph [])" for f :: "_ \<Rightarrow> _ \<Rightarrow> 'z"
  proof (rule valid_sbind)
    show "valid (?ph []) (put_snapshot H ?b) (\<lambda>d s. ?ph [?b] s \<and> d = content_digest H ?b) (\<lambda>_. ?ph [])"
      by (rule valid_put_snapshot [OF cf]) simp
  next
    fix d
    have "valid (?ph [?b]) (put_snapshot H intended)
        (\<lambda>d' s. ?ph [intended, ?b] s \<and> d' = content_digest H intended) (\<lambda>_. ?ph [?b])"
      by (rule valid_put_snapshot [OF cf]) simp
    then have "valid (?ph [?b]) (sbind (put_snapshot H intended) (\<lambda>d'. ret (f d d')))
        (\<lambda>r s. r = f d (content_digest H intended) \<and> ?ph ?ss s) (\<lambda>_. ?ph [?b])"
      by (rule valid_sbind) (auto intro!: valid_ret intro: phase_held)
    then show "valid (\<lambda>s. ?ph [?b] s \<and> d = content_digest H ?b)
        (sbind (put_snapshot H intended) (\<lambda>d'. ret (f d d')))
        (\<lambda>r s. r = f (content_digest H ?b) (content_digest H intended) \<and> ?ph ?ss s) (\<lambda>_. ?ph [])"
    proof (cases "d = content_digest H ?b")
      case True
      assume v: "valid (?ph [?b]) (sbind (put_snapshot H intended) (\<lambda>d'. ret (f d d')))
        (\<lambda>r s. r = f d (content_digest H intended) \<and> ?ph ?ss s) (\<lambda>_. ?ph [?b])"
      show ?thesis by (rule valid_weaken [OF v]) (auto simp: True intro: phase_held)
    qed (simp add: valid_def)
  qed
  let ?f = "\<lambda>b a. (cs, pm\<lparr>pm_before_blob := b, pm_after_blob := a\<rparr>)"
  have run: "prepare_mutation H ident fresh now set_id kind intended tgt s0 =
      (if ?b = None \<and> intended = None then (Inl ChangeLifecycleError, s0)
       else if length (cs_files cs) + 1 \<le> MAX_CHANGESET_FILES
       then (case stored_bytes H (js_blobs s0) cs of
               Inl e \<Rightarrow> (Inl e, s0)
             | Inr n \<Rightarrow> if n + addition_bytes [?b, intended] \<le> MAX_CHANGESET_BYTES
                 then sbind (put_snapshot H ?b) (\<lambda>before_blob. sbind (put_snapshot H intended)
                   (\<lambda>intended_after_blob. ret (?f before_blob intended_after_blob))) s0
                 else (Inl ChangeCapacityExceeded, s0))
       else (Inl ChangeCapacityExceeded, s0))"
    using open' nop plain
    by (auto simp: prepare_mutation_def target pm logged_row_def run_sbind_Inr run_andthen_Inr
        journal_relative_plain preflight_run Let_def andthen_def [of "preflight _ _ _ _"]
        run_sbind_Inl sbind_def [of "lift_result _"] split: sum.split)
  have start: "?ph [] s0" by (rule phase_start)
  have chain: "pm\<lparr>pm_before_blob := d, pm_after_blob := d'\<rparr> = pm"
    if "d = content_digest H ?b" "d' = content_digest H intended" for d d'
    using that by (simp add: pm logged_row_def)
  show ?thesis
    unfolding valid_def using validD [OF puts [of ?f] start] start
    by (auto simp: run stopped_simps within_capacity_def chain split: sum.splits prod.splits)
qed

lemma valid_catch:
  "valid P m Q R \<Longrightarrow> (\<And>e. valid (R e) (h e) Q E) \<Longrightarrow> valid P (catch m h) Q E"
  by (fastforce simp: valid_def catch_def split: prod.splits sum.splits)

lemma valid_ex: "(\<And>x. valid (P x) m Q E) \<Longrightarrow> valid (\<lambda>s. \<exists>x. P x s) m Q E"
  by (fastforce simp: valid_def)

lemma valid_conj_pure: "(b \<Longrightarrow> valid P m Q E) \<Longrightarrow> valid (\<lambda>s. b \<and> P s) m Q E"
  by (auto simp: valid_def)

lemma valid_delete_logged:
  assumes fresh: "pm_id pm \<notin> pm_id ` set pend"
    and E: "\<And>s. phase H ss s0 held t sets (pend @ [pm]) s \<Longrightarrow> E Crashed s"
    and Q: "\<And>s. phase H ss s0 held t sets pend s \<Longrightarrow> Q () s"
  shows "valid (phase H ss s0 held t sets (pend @ [pm])) (store_delete_pending (pm_id pm)) Q E"
  unfolding store_delete_pending_def
proof (rule valid_persist)
  fix s b assume "phase H ss s0 held t sets (pend @ [pm]) s"
  then show "Q () ((s\<lparr>js_budget := b\<rparr>)\<lparr>js_pending :=
      remove_row pm_id (pm_id pm) (js_pending (s\<lparr>js_budget := b\<rparr>))\<rparr>)"
    using fresh by (intro Q) (simp add: phase_def remove_row_fresh)
qed (rule E)

lemma valid_log:
  assumes fresh: "pm_id pm \<notin> pm_id ` set pend"
    and E: "\<And>s. phase H ss s0 held t sets pend s \<Longrightarrow> E Crashed s"
    and Q: "\<And>s. phase H ss s0 held t sets (pend @ [pm]) s \<Longrightarrow> Q () s"
  shows "valid (phase H ss s0 held t sets pend) (store_save_pending pm) Q E"
  unfolding store_save_pending_def
proof (rule valid_persist)
  fix s b assume "phase H ss s0 held t sets pend s"
  then show "Q () ((s\<lparr>js_budget := b\<rparr>)\<lparr>js_pending :=
      upsert pm_id pm (js_pending (s\<lparr>js_budget := b\<rparr>))\<rparr>)"
    using fresh by (intro Q) (simp add: phase_def upsert_fresh)
qed (rule E)

lemma valid_save_set:
  assumes E: "\<And>s. phase H ss s0 held t sets pend s \<Longrightarrow> E Crashed s"
    and Q: "\<And>s. phase H ss s0 held t (upsert cs_id cs sets) pend s \<Longrightarrow> Q () s"
  shows "valid (phase H ss s0 held t sets pend) (store_save cs) Q E"
  unfolding store_save_def
proof (rule valid_persist)
  fix s b assume "phase H ss s0 held t sets pend s"
  then show "Q () ((s\<lparr>js_budget := b\<rparr>)\<lparr>js_sets := upsert cs_id cs (js_sets (s\<lparr>js_budget := b\<rparr>))\<rparr>)"
    by (intro Q) (simp add: phase_def)
qed (rule E)

lemma stopped_recorded:
  "moved p i (js_tree s0) t \<Longrightarrow> set [look (js_tree s0) p, i] \<subseteq> set held \<Longrightarrow>
   phase H [look (js_tree s0) p, i] s0 held t
     (upsert cs_id (with_change cs (recorded_change H pm (look t p))) (js_sets s0)) pend s \<Longrightarrow>
   (pend = js_pending s0 @ [pm] \<longrightarrow> stopped_at H p i cs pm s0 Recorded s) \<and>
   (pend = js_pending s0 \<longrightarrow> stopped_at H p i cs pm s0 Cleared s)"
  using phase_held [of H _ s0 held t _ pend s "[look (js_tree s0) p, i]"]
  by (auto simp: stopped_at_def Let_def)

lemma stopped_done:
  "moved p i (js_tree s0) t \<Longrightarrow> set [look (js_tree s0) p, i] \<subseteq> set held \<Longrightarrow>
   phase H [look (js_tree s0) p, i] s0 held t (js_sets s0) (js_pending s0 @ [pm]) s \<Longrightarrow>
   stopped_at H p i cs pm s0 Done s"
  using phase_held [of H _ s0 held t _ _ s "[look (js_tree s0) p, i]"]
  by (auto simp: stopped_at_def Let_def)

lemma valid_record:
  assumes moved: "moved p intended (js_tree s0) t" and capture: "bf_capture tgt t = Inr (look t p)"
    and cf: "collision_free H (js_blobs s0) [look (js_tree s0) p, intended]"
    and fresh: "pm_id pm \<notin> pm_id ` set (js_pending s0)"
    and pm: "pm = logged_row H cs fr now kind p (look (js_tree s0) p) intended"
  shows "valid (phase H [look (js_tree s0) p, intended] s0 [look (js_tree s0) p, intended] t
      (js_sets s0) (js_pending s0 @ [pm]))
    (record_mutation H cs pm tgt) (\<lambda>_ s. stopped_at H p intended cs pm s0 Cleared s)
    (\<lambda>_ s. \<exists>g. stopped_at H p intended cs pm s0 g s)"
proof -
  let ?ss = "[look (js_tree s0) p, intended]" and ?a = "look t p"
  let ?ph = "\<lambda>held. phase H ?ss s0 held t"
  let ?E = "\<lambda>_ s. \<exists>g. stopped_at H p intended cs pm s0 g s"
  have agrees: "agrees intended ?a" using moved by (simp add: moved_def)
  have matches: "snapshot_matches_record H ?a (pm_after_hash pm) (pm_after_mode pm)
      (or_else (pm_resolved_after pm) (pm_node_type pm))"
    using matches_intended [OF agrees] by (simp add: pm) (simp add: logged_row_def)
  have acted: "?E e s" if "?ph held (js_sets s0) (js_pending s0 @ [pm]) s" "set ?ss \<subseteq> set held" for e held s
    using stopped_done [OF moved that(2,1)] by blast
  have put: "valid (?ph ?ss (js_sets s0) (js_pending s0 @ [pm])) (file_change_of H pm ?a)
      (\<lambda>c s. c = recorded_change H pm ?a \<and> ?ph (?a # ?ss) (js_sets s0) (js_pending s0 @ [pm]) s) ?E"
    unfolding file_change_of_def
  proof (rule valid_sbind)
    have "valid (?ph ?ss (js_sets s0) (js_pending s0 @ [pm])) (put_snapshot H ?a)
      (\<lambda>d s. ?ph (?a # ?ss) (js_sets s0) (js_pending s0 @ [pm]) s \<and> d = content_digest H ?a)
      (\<lambda>_. ?ph ?ss (js_sets s0) (js_pending s0 @ [pm]))"
      by (rule valid_put_snapshot [OF cf]) (use agrees_content [OF agrees, of H] in simp)
    then show "valid (?ph ?ss (js_sets s0) (js_pending s0 @ [pm])) (put_snapshot H ?a)
      (\<lambda>d s. ?ph (?a # ?ss) (js_sets s0) (js_pending s0 @ [pm]) s \<and> d = content_digest H ?a) ?E"
      by (rule valid_weaken) (auto intro: acted)
  qed (auto intro!: valid_ret simp: recorded_change_def Let_def)
  let ?sets = "upsert cs_id (with_change cs (recorded_change H pm ?a)) (js_sets s0)"
  have rest: "valid (\<lambda>s. c = recorded_change H pm ?a \<and> ?ph (?a # ?ss) (js_sets s0) (js_pending s0 @ [pm]) s)
      (andthen (store_save (cs\<lparr>cs_files := cs_files cs @ [c]\<rparr>))
        (andthen (store_delete_pending (pm_id pm)) (ret c)))
      (\<lambda>_ s. stopped_at H p intended cs pm s0 Cleared s) ?E" for c
  proof (rule valid_conj_pure)
    assume c: "c = recorded_change H pm ?a"
    show "valid (?ph (?a # ?ss) (js_sets s0) (js_pending s0 @ [pm]))
      (andthen (store_save (cs\<lparr>cs_files := cs_files cs @ [c]\<rparr>))
        (andthen (store_delete_pending (pm_id pm)) (ret c)))
      (\<lambda>_ s. stopped_at H p intended cs pm s0 Cleared s) ?E"
    proof (rule valid_andthen)
      show "valid (?ph (?a # ?ss) (js_sets s0) (js_pending s0 @ [pm]))
          (store_save (cs\<lparr>cs_files := cs_files cs @ [c]\<rparr>))
          (\<lambda>_. ?ph (?a # ?ss) ?sets (js_pending s0 @ [pm])) ?E"
        by (rule valid_save_set) (auto intro: acted simp: c with_change_def)
      show "valid (?ph (?a # ?ss) ?sets (js_pending s0 @ [pm]))
          (andthen (store_delete_pending (pm_id pm)) (ret c))
          (\<lambda>_ s. stopped_at H p intended cs pm s0 Cleared s) ?E"
        by (rule valid_andthen [OF valid_delete_logged [OF fresh] valid_ret])
          (auto dest!: stopped_recorded [OF moved, rotated])
    qed
  qed
  have run: "record_mutation H cs pm tgt s = sbind (file_change_of H pm ?a) (\<lambda>c.
      andthen (store_save (cs\<lparr>cs_files := cs_files cs @ [c]\<rparr>))
        (andthen (store_delete_pending (pm_id pm)) (ret c))) s"
    if "?ph ?ss (js_sets s0) (js_pending s0 @ [pm]) s" for s
    using that capture matches by (simp add: record_mutation_def read_tree_def phase_def)
  show ?thesis
    using valid_sbind [OF put rest] by (simp add: valid_def run)
qed

lemma in_tree_run: "m (js_tree s) = (r, t) \<Longrightarrow> in_tree m s = (r, s\<lparr>js_tree := t\<rparr>)"
  by (simp add: in_tree_def)

context journalled_mutation
begin

lemma valid_mutate:
  assumes app: "applicable (js_tree s0)" and fresh: "pm_id pm \<notin> pm_id ` set (js_pending s0)"
  shows "valid (stopped_at H path intended cs pm s0 Logged) (mutate_logged pm (target (js_tree s0)))
    (\<lambda>_ s. \<exists>t. (moved path intended (js_tree s0) t \<and>
         bf_capture (target (js_tree s0)) t = Inr (look t path)) \<and>
       phase H [look (js_tree s0) path, intended] s0 [look (js_tree s0) path, intended] t
         (js_sets s0) (js_pending s0 @ [pm]) s)
    (\<lambda>_ s. \<exists>g. stopped_at H path intended cs pm s0 g s)"
  unfolding mutate_logged_def
proof (rule valid_catch)
  let ?Q = "\<lambda>_ s. \<exists>t. (moved path intended (js_tree s0) t \<and>
         bf_capture (target (js_tree s0)) t = Inr (look t path)) \<and>
       phase H [look (js_tree s0) path, intended] s0 [look (js_tree s0) path, intended] t
         (js_sets s0) (js_pending s0 @ [pm]) s"
  let ?L = "stopped_at H path intended cs pm s0 Logged"
  show "valid ?L (write_tree (bf_mutate (target (js_tree s0)))) ?Q (\<lambda>_. ?L)"
    unfolding write_tree_def
  proof (rule valid_andthen)
    show "valid ?L tick (\<lambda>_. ?L) (\<lambda>_. ?L)" by (rule valid_tick) auto
    have tree: "js_tree s = js_tree s0" if "?L s" for s
      using that by (simp add: stopped_simps phase_def)
    show "valid ?L (in_tree (bf_mutate (target (js_tree s0)))) ?Q (\<lambda>_. ?L)"
    proof (rule validI)
      fix s x s' assume L: "?L s" and run: "in_tree (bf_mutate (target (js_tree s0))) s = (Inr x, s')"
      then obtain t where t: "bf_mutate (target (js_tree s0)) (js_tree s0) = (Inr x, t)"
        "s' = s\<lparr>js_tree := t\<rparr>"
        by (auto simp: in_tree_def tree split: prod.splits)
      from mutates [OF app t(1)] L t(2) show "?Q x s'"
        by (auto simp: moved_def stopped_simps phase_def intro!: exI [of _ t])
    next
      fix s e s' assume L: "?L s" and run: "in_tree (bf_mutate (target (js_tree s0))) s = (Inl e, s')"
      then obtain t where t: "bf_mutate (target (js_tree s0)) (js_tree s0) = (Inl e, t)"
        "s' = s\<lparr>js_tree := t\<rparr>"
        by (auto simp: in_tree_def tree split: prod.splits)
      from mutates [OF app t(1)] L t(2) show "?L s'"
        by (simp add: stopped_simps phase_def)
    qed
  qed
next
  let ?E = "\<lambda>_ s. \<exists>g. stopped_at H path intended cs pm s0 g s"
  fix e :: change_error
  have "valid (stopped_at H path intended cs pm s0 Logged)
      (andthen (store_delete_pending (pm_id pm)) (raise MutationTargetChanged)) Q ?E" for Q :: "unit \<Rightarrow> _"
  proof (rule valid_andthen)
    let ?ph = "phase H [look (js_tree s0) path, intended] s0 [look (js_tree s0) path, intended]
        (js_tree s0) (js_sets s0)"
    have "valid (?ph (js_pending s0 @ [pm])) (store_delete_pending (pm_id pm))
        (\<lambda>_. ?ph (js_pending s0)) ?E"
      by (rule valid_delete_logged [OF fresh]) (auto simp: stopped_simps intro: exI [of _ Logged])
    then show "valid (stopped_at H path intended cs pm s0 Logged) (store_delete_pending (pm_id pm))
        (\<lambda>_. ?ph (js_pending s0)) ?E"
      by (simp add: stopped_simps [abs_def])
    show "valid (?ph (js_pending s0)) (raise MutationTargetChanged) Q ?E"
      by (rule valid_raise) (auto simp: stopped_simps intro!: exI [of _ Unlogged] phase_held [where held' = "[]"])
  qed
  then show "valid (stopped_at H path intended cs pm s0 Logged)
      (if e = MutationTargetChanged
       then andthen (store_delete_pending (pm_id pm)) (raise MutationTargetChanged) else raise e) Q ?E"
    for Q :: "unit \<Rightarrow> _"
    by (auto intro!: valid_raise)
qed

lemma valid_apply:
  assumes app: "applicable (js_tree s0)"
    and ready: "mutation_ready H ident fresh set_id cs [look (js_tree s0) path, intended] s0"
    and pm: "pm = logged_row H cs fresh now kind path (look (js_tree s0) path) intended"
  shows "valid (\<lambda>s. s = s0)
    (apply_file_mutation H ident fresh now set_id kind intended (target (js_tree s0)))
    (\<lambda>_. interrupted H path intended cs pm s0) (\<lambda>_. interrupted H path intended cs pm s0)"
  unfolding apply_file_mutation_def
proof (rule valid_sbind)
  let ?tgt = "target (js_tree s0)" and ?ss = "[look (js_tree s0) path, intended]"
  let ?cap = "within_capacity H s0 cs (look (js_tree s0) path) intended"
  let ?ph = "phase H ?ss s0 ?ss (js_tree s0) (js_sets s0)"
  let ?I = "interrupted H path intended cs pm s0"
  have fresh: "pm_id pm \<notin> pm_id ` set (js_pending s0)"
    using ready by (auto simp: mutation_ready_def pm logged_row_def)
  have cf: "collision_free H (js_blobs s0) ?ss" using ready by (simp add: mutation_ready_def)
  show "valid (\<lambda>s. s = s0) (prepare_mutation H ident fresh now set_id kind intended ?tgt)
      (\<lambda>x s. (x = (cs, pm) \<and> ?cap) \<and> ?ph (js_pending s0) s) (\<lambda>_. ?I)"
    using describes [OF app]
    by (intro valid_weaken [OF valid_prepare [OF ready plain [OF app] nonempty [OF app] _ _ pm]]) (auto simp: interrupted_def)
  show "valid (\<lambda>s. (x = (cs, pm) \<and> ?cap) \<and> ?ph (js_pending s0) s)
      (case x of (cs, pending) \<Rightarrow> andthen (store_save_pending pending)
        (andthen (mutate_logged pending ?tgt) (record_mutation H cs pending ?tgt))) (\<lambda>_. ?I) (\<lambda>_. ?I)"
    for x
  proof (rule valid_conj_pure)
    assume x: "x = (cs, pm) \<and> ?cap"
    have I: "?I s" if "stopped_at H path intended cs pm s0 g s" for s g
      using that x by (auto simp: interrupted_def)
    have log: "valid (?ph (js_pending s0)) (store_save_pending pm)
        (\<lambda>_. stopped_at H path intended cs pm s0 Logged) (\<lambda>_. ?I)"
      by (rule valid_log [OF fresh])
        (auto simp: stopped_simps intro!: I [of Unlogged] phase_held [where held' = "[]"])
    have recd: "valid (\<lambda>s. \<exists>t. (moved path intended (js_tree s0) t \<and> bf_capture ?tgt t = Inr (look t path)) \<and>
        phase H ?ss s0 ?ss t (js_sets s0) (js_pending s0 @ [pm]) s)
      (record_mutation H cs pm ?tgt) (\<lambda>_. ?I) (\<lambda>_. ?I)"
      by (rule valid_ex, rule valid_conj_pure, rule valid_weaken [OF valid_record [OF _ _ cf fresh pm]])
        (auto intro: I)
    have mutate: "valid (stopped_at H path intended cs pm s0 Logged) (mutate_logged pm ?tgt)
      (\<lambda>_ s. \<exists>t. (moved path intended (js_tree s0) t \<and> bf_capture ?tgt t = Inr (look t path)) \<and>
        phase H ?ss s0 ?ss t (js_sets s0) (js_pending s0 @ [pm]) s) (\<lambda>_. ?I)"
      by (rule valid_weaken [OF valid_mutate [OF app fresh]]) (auto intro: I)
    show "valid (?ph (js_pending s0)) (case x of (cs, pending) \<Rightarrow> andthen (store_save_pending pending)
        (andthen (mutate_logged pending ?tgt) (record_mutation H cs pending ?tgt))) (\<lambda>_. ?I) (\<lambda>_. ?I)"
      using x by (auto intro!: valid_andthen [OF log valid_andthen [OF mutate recd]])
  qed
qed

end

section \<open>Recovery from each interruption\<close>

definition record_of :: "(string \<Rightarrow> string) \<Rightarrow> node_snapshot option \<Rightarrow> node_record" where
  "record_of H s = map_option (\<lambda>n. (H (or_else (ns_content n) []), map_option H (ns_content n), ns_mode n, ns_type n)) s"

text \<open>After recovery the intent is gone, and the set either has no new change and the tree
  is the old one, or has one change more, which says exactly what happened to
  the tree.\<close>

definition settled ::
  "(string \<Rightarrow> string) \<Rightarrow> string \<Rightarrow> string list \<Rightarrow> node_snapshot option \<Rightarrow> change_set \<Rightarrow> jstate \<Rightarrow> jstate \<Rightarrow> bool"
where
  "settled H set_id p intended cs s0 s2 \<longleftrightarrow>
     js_pending s2 = js_pending s0 \<and>
     (\<exists>cs2. lookup_row cs_id set_id (js_sets s2) = Some cs2 \<and>
       ((cs_files cs2 = cs_files cs \<and> abs_tree H (js_tree s2) = abs_tree H (js_tree s0)) \<or>
        (\<exists>c. cs_files cs2 = cs_files cs @ [c] \<and> fc_path c = as_posix p \<and>
             before_state c = record_of H (look (js_tree s0) p) \<and>
             after_state c = record_of H (look (js_tree s2) p) \<and> agrees intended (look (js_tree s2) p) \<and>
             abs_tree H (js_tree s2) = (abs_tree H (js_tree s0))(p := digest_of H (look (js_tree s2) p)))))"

lemma recorded_states:
  assumes "pm = logged_row H cs fresh now kind p before intended"
  shows "before_state (recorded_change H pm a) = record_of H before"
    and "after_state (recorded_change H pm a) = record_of H a"
    and "fc_path (recorded_change H pm a) = as_posix p"
    and "fc_mutation_id (recorded_change H pm a) = Some (pm_id pm)"
proof -
  let ?c = "recorded_change H pm a"
  show "before_state ?c = record_of H before"
    unfolding assms
    by (cases before) (simp_all add: before_state_def recorded_change_def record_of_def logged_row_def
        pm_resolved_before_def content_digest_def snapshot_mode_def snapshot_type_def)
  show "after_state ?c = record_of H a"
    by (cases a) (simp_all add: after_state_def recorded_change_def record_of_def content_digest_def
        snapshot_mode_def snapshot_type_def)
  show "fc_path ?c = as_posix p" by (simp add: assms recorded_change_def logged_row_def)
  show "fc_mutation_id ?c = Some (pm_id pm)" by (simp add: recorded_change_def)
qed

lemma resolved_recorded [simp]:
  "resolved_before_node_type (recorded_change H (logged_row H cs fresh now kind p b i) a) = snapshot_type b"
  "resolved_after_node_type (recorded_change H pm a) = snapshot_type a"
  by (cases b; simp add: resolved_before_node_type_def recorded_change_def)
    (auto simp: logged_row_def snapshot_type_def resolved_after_node_type_def recorded_change_def
      snapshot_digest_def split: option.splits)

lemma look_shape:
  "look t p = Some n \<Longrightarrow> (ns_content n = None \<longleftrightarrow> ns_type n = DIRECTORY) \<and> ns_mode n \<noteq> None"
  unfolding look_def snapshot_of_def by (cases "nd_kind (the (node_at t p))") auto

lemma agrees_shape: "agrees (Some n) (look t p) \<Longrightarrow> ns_content n = None \<longleftrightarrow> ns_type n = DIRECTORY"
  by (auto simp: agrees_def dest: look_shape)

lemma moved_abs: "moved p i t t' \<Longrightarrow> abs_tree H t' = (abs_tree H t)(p := digest_of H (look t' p))"
  by (auto simp: moved_def abs_tree_def look_def fun_eq_iff)

lemma put_snapshot_held:
  assumes "js_budget s = None" and "holds_content H (js_blobs s) x"
  shows "put_snapshot H x s = (Inr (content_digest H x), s)"
proof (cases "\<exists>n c. x = Some n \<and> ns_content n = Some c")
  case True
  then obtain n c where n: "x = Some n" "ns_content n = Some c" by blast
  with assms(2) have "blob_get H (js_blobs s) (H c) = Inr c" by (simp add: holds_content_def)
  moreover from this have "valid_digest (H c)" "js_blobs s (H c) = Some c" by (auto simp: blob_get_Inr)
  ultimately show ?thesis
    using n assms(1)
    by (simp add: put_snapshot_def put_blob_def run_andthen_Inr tick_alive blob_put_def
        sbind_def content_digest_def)
qed (auto simp: put_snapshot_def content_digest_def split: option.splits)

lemma pending_snapshot_held:
  assumes "holds_content H blobs s" and "\<And>n. s = Some n \<Longrightarrow> ns_content n = None \<longleftrightarrow> ns_type n = DIRECTORY"
    and "(if b then pm_before_hash pm else pm_after_hash pm) = snapshot_digest H s"
    and "(if b then pm_before_blob pm else pm_after_blob pm) = content_digest H s"
    and "(if b then pm_before_mode pm else pm_after_mode pm) = snapshot_mode s"
    and "(if b then pm_resolved_before pm else pm_resolved_after pm) = snapshot_type s"
  shows "pending_snapshot H blobs pm b = Inr s"
proof (cases s)
  case None
  with assms(3) show ?thesis by (simp add: pending_snapshot_def Let_def)
next
  case (Some n)
  show ?thesis
  proof (cases "ns_content n")
    case None
    with Some assms show ?thesis
      by (cases n) (simp add: pending_snapshot_def Let_def content_digest_def snapshot_mode_def
          snapshot_type_def)
  next
    case content: (Some c)
    with Some assms(1,2) have "blob_get H blobs (H c) = Inr c" "ns_type n \<noteq> DIRECTORY"
      by (auto simp: holds_content_def)
    with content Some assms(3-) show ?thesis
      by (cases n) (simp add: pending_snapshot_def Let_def content_digest_def snapshot_mode_def
          snapshot_type_def)
  qed
qed

lemma change_matches_recorded:
  assumes "pm = logged_row H cs fresh now kind p before intended" and "agrees intended a"
  shows "change_matches_pending (recorded_change H pm a) pm"
  using assms agrees_content [OF assms(2), of H]
  by (auto simp: change_matches_pending_def agrees_def split: option.splits)
    (auto simp: recorded_change_def logged_row_def snapshot_mode_def split: option.splits)

lemma file_change_run:
  assumes "js_budget s = None" and "holds_content H (js_blobs s) a"
  shows "file_change_of H pm a s = (Inr (recorded_change H pm a), s)"
  using put_snapshot_held [OF assms]
  by (simp add: file_change_of_def sbind_def recorded_change_def Let_def)

text \<open>What \<open>reconcile_mutation\<close> sees of a tree whose parent directory is there.\<close>

lemma reconcile_mutation_sees:
  assumes g: "good_tree (js_tree s)" "parent_ready (js_tree s) p" and p: "list_all plain_component p" "p \<noteq> []"
    and cs: "lookup_row cs_id (pm_set pm) (js_sets s) = Some cs" "cs_workspace cs = wi_key ident"
      "cs_lifecycle cs = OPEN" and path: "pm_path pm = as_posix p"
  shows "reconcile_mutation H ident pm s =
    (let current = look (js_tree s) p;
         committed = filter (\<lambda>c. fc_mutation_id c = Some (pm_id pm)) (cs_files cs)
     in if committed \<noteq> [] then
          (if length committed \<noteq> 1 \<or> \<not> change_matches_pending (hd committed) pm
           then raise PendingMutationConflict
           else if snapshot_matches_record H current (fc_after_hash (hd committed))
                     (fc_after_mode (hd committed))
                     (or_else (resolved_after_node_type (hd committed)) (fc_node_type (hd committed)))
           then store_delete_pending (pm_id pm)
           else raise PendingMutationConflict)
        else if list_ex (\<lambda>c. fc_mutation_id c = None \<and> change_matches_pending c pm) (cs_files cs)
        then raise PendingMutationConflict
        else if snapshot_matches_record H current (pm_before_hash pm) (pm_before_mode pm)
                  (or_else (pm_resolved_before pm) (pm_node_type pm))
        then store_delete_pending (pm_id pm)
        else if snapshot_matches_record H current (pm_after_hash pm) (pm_after_mode pm)
                  (or_else (pm_resolved_after pm) (pm_node_type pm))
        then
          sbind (reads (\<lambda>s. pending_snapshot H (js_blobs s) pm True)) (\<lambda>before.
          sbind (reads (\<lambda>s. pending_snapshot H (js_blobs s) pm False)) (\<lambda>intended_after.
          andthen (preflight H cs before intended_after)
         (sbind (file_change_of H pm current) (\<lambda>change.
          andthen (store_save (with_change cs change)) (store_delete_pending (pm_id pm))))))
        else raise PendingMutationConflict) s"
proof -
  obtain b where "bind_path (js_tree s) (as_posix p) = Inr b" "capture (js_tree s) b = Inr (look (js_tree s) p)"
    using bind_capture_runs [OF g(1) p g(2)] by blast
  moreover have "owned_or_conflict ident (pm_set pm) s = (Inr cs, s)"
    unfolding owned_or_conflict_def by (rule run_rethrow_Inr) (rule owned_run [OF cs(1,2)])
  ultimately show ?thesis
    using cs(3) by (simp add: reconcile_mutation_def run_sbind_Inr path recovery_relative_plain [OF p]
        sbind_def [of "lift_result _"] read_tree_def Let_def with_change_def)
qed

definition reboot :: "jstate \<Rightarrow> jstate" where
  "reboot s = s\<lparr>js_budget := None\<rparr>"

context journalled_mutation
begin

lemma recover_logged:
  assumes app: "applicable (js_tree s0)"
    and ready: "mutation_ready H ident fresh set_id cs [look (js_tree s0) path, intended] s0"
    and cap: "within_capacity H s0 cs (look (js_tree s0) path) intended"
    and pm: "pm = logged_row H cs fresh now kind path (look (js_tree s0) path) intended"
    and t: "good_tree t" "parent_ready t path" "tr_root t = wi_root ident"
    and step: "(cs' = cs \<and> (node_at t = node_at (js_tree s0) \<or> moved path intended (js_tree s0) t)) \<or>
      (cs' = with_change cs (recorded_change H pm (look t path)) \<and> moved path intended (js_tree s0) t)"
    and ph: "phase H [look (js_tree s0) path, intended] s0 [look (js_tree s0) path, intended] t
      (upsert cs_id cs' (js_sets s0)) (js_pending s0 @ [pm]) s"
    and alive: "js_budget s = None"
  shows "\<exists>s2. reconcile_mutation H ident pm s = (Inr (), s2) \<and> js_tree s2 = t \<and> js_budget s2 = None \<and>
    js_pending s2 = js_pending s0 \<and>
    (\<exists>cs2. lookup_row cs_id set_id (js_sets s2) = Some cs2 \<and> cs_workspace cs2 = wi_key ident \<and>
      cs_id cs2 = set_id \<and> cs_lifecycle cs2 = OPEN \<and>
      ((cs_files cs2 = cs_files cs \<and> abs_tree H t = abs_tree H (js_tree s0)) \<or>
       (cs_files cs2 = cs_files cs @ [recorded_change H pm (look t path)] \<and>
        moved path intended (js_tree s0) t)))"
proof -
  let ?b = "look (js_tree s0) path" and ?cur = "look t path"
  have r: "lookup_row cs_id set_id (js_sets s0) = Some cs" "cs_workspace cs = wi_key ident"
    "cs_lifecycle cs = OPEN" "new_identifier ''operation'' fresh \<notin> pm_id ` set (js_pending s0)"
    and files: "list_all (\<lambda>c. fc_mutation_id c \<noteq> None \<and> fc_mutation_id c \<noteq> Some (pm_id pm)) (cs_files cs)"
    using ready by (auto simp: mutation_ready_def pm logged_row_def)
  have id: "cs_id cs = set_id" using r(1) by (auto dest: lookup_row_key)
  have pm_fields: "pm_set pm = set_id" "pm_path pm = as_posix path"
    "pm_before_hash pm = snapshot_digest H ?b" "pm_before_mode pm = snapshot_mode ?b"
    "pm_after_hash pm = snapshot_digest H intended" "pm_after_mode pm = snapshot_mode intended"
    "pm_before_blob pm = content_digest H ?b" "pm_after_blob pm = content_digest H intended"
    "pm_resolved_before pm = snapshot_type ?b" "pm_resolved_after pm = snapshot_type intended"
    "pm_id pm \<notin> pm_id ` set (js_pending s0)"
    using id r(4) by (simp_all add: pm) (simp_all add: logged_row_def)
  have cs': "cs_id cs' = set_id" "cs_workspace cs' = wi_key ident" "cs_lifecycle cs' = OPEN"
    using step id r by (auto simp: with_change_def)
  have s: "js_tree s = t" "js_sets s = upsert cs_id cs' (js_sets s0)" "js_pending s = js_pending s0 @ [pm]"
    and held: "holds_content H (js_blobs s) ?b" "holds_content H (js_blobs s) intended"
      "extends H (js_blobs s0) (js_blobs s)"
    using ph by (auto simp: phase_def)
  have row: "lookup_row cs_id (pm_set pm) (js_sets s) = Some cs'"
    by (simp add: s pm_fields cs')
  note sees = reconcile_mutation_sees [OF t(1,2)[folded s(1)] plain [OF app] nonempty [OF app] row cs'(2,3) pm_fields(2)]
  have delete: "store_delete_pending (pm_id pm) s = (Inr (), s\<lparr>js_pending := js_pending s0\<rparr>)"
    using alive s(3) pm_fields(11)
    by (simp add: store_delete_pending_def persist_alive remove_row_fresh)
  have modes: "?b = Some n \<Longrightarrow> ns_mode n \<noteq> None" for n by (auto dest: look_shape)
  show ?thesis
  proof (cases "cs' = cs")
    case False
    let ?c = "recorded_change H pm ?cur"
    from False step have rec': "cs' = with_change cs ?c" and mv: "moved path intended (js_tree s0) t"
      by auto
    then have ag: "agrees intended ?cur" by (simp add: moved_def)
    have committed: "filter (\<lambda>c. fc_mutation_id c = Some (pm_id pm)) (cs_files cs') = [?c]"
      using files recorded_states(4) [OF pm] by (simp add: rec' with_change_def filter_empty_conv list_all_iff)
    have "change_matches_pending ?c pm" by (rule change_matches_recorded [OF pm ag])
    moreover have "snapshot_matches_record H ?cur (fc_after_hash ?c) (fc_after_mode ?c)
        (or_else (resolved_after_node_type ?c) (fc_node_type ?c))"
      using matches_itself [of H ?cur] by simp (simp add: recorded_change_def)
    ultimately have "reconcile_mutation H ident pm s = (Inr (), s\<lparr>js_pending := js_pending s0\<rparr>)"
      using sees committed delete by (simp add: s(1) Let_def)
    moreover have "lookup_row cs_id set_id (js_sets s) = Some cs'" using row pm_fields(1) by simp
    ultimately show ?thesis
      using s cs' alive mv by (auto simp: rec' with_change_def)
  next
    case same: True
    have committed: "filter (\<lambda>c. fc_mutation_id c = Some (pm_id pm)) (cs_files cs') = []"
      using files by (simp add: same filter_empty_conv list_all_iff)
    have legacy: "\<not> list_ex (\<lambda>c. fc_mutation_id c = None \<and> change_matches_pending c pm) (cs_files cs')"
      using files by (auto simp: same list_ex_iff list_all_iff)
    show ?thesis
    proof (cases "snapshot_matches_record H ?cur (pm_before_hash pm) (pm_before_mode pm)
        (or_else (pm_resolved_before pm) (pm_node_type pm))")
      case True
      then have run: "reconcile_mutation H ident pm s = (Inr (), s\<lparr>js_pending := js_pending s0\<rparr>)"
        using sees committed legacy delete by (simp add: s(1) Let_def)
      have "digest_of H ?cur = digest_of H ?b"
        by (rule matches_digest [OF _ modes]) (use True pm_fields in auto)
      then have "abs_tree H t = abs_tree H (js_tree s0)"
        using step same moved_abs [of path intended "js_tree s0" t H]
        by (auto simp: abs_tree_def look_def fun_eq_iff split: if_splits)
      moreover have "lookup_row cs_id set_id (js_sets s) = Some cs" using row pm_fields(1) same by simp
      ultimately show ?thesis using run s r id alive by auto
    next
      case False
      then have "?cur \<noteq> ?b"
        using matches_itself [of H ?b] pm_fields by auto
      then have "node_at t \<noteq> node_at (js_tree s0)" by (auto simp: look_def)
      with step same have mv: "moved path intended (js_tree s0) t" by auto
      then have ag: "agrees intended ?cur" by (simp add: moved_def)
      have after: "snapshot_matches_record H ?cur (pm_after_hash pm) (pm_after_mode pm)
          (or_else (pm_resolved_after pm) (pm_node_type pm))"
        using matches_intended [OF ag] pm_fields by simp
      have snaps: "pending_snapshot H (js_blobs s) pm True = Inr ?b"
        "pending_snapshot H (js_blobs s) pm False = Inr intended"
        using held pm_fields ag
        by (auto intro!: pending_snapshot_held dest: look_shape agrees_shape)
      have pre: "preflight H cs' ?b intended s = (Inr (), s)"
        using cap held(3) by (auto simp: preflight_run same within_capacity_def dest: stored_bytes_extends)
      have held_cur: "holds_content H (js_blobs s) ?cur"
        using held(2) ag by (auto simp: holds_content_def agrees_def split: option.splits)
      let ?c = "recorded_change H pm ?cur"
      let ?s1 = "s\<lparr>js_sets := upsert cs_id (with_change cs ?c) (js_sets s)\<rparr>"
      have save: "store_save (with_change cs' ?c) s = (Inr (), ?s1)"
        using alive by (simp add: store_save_def persist_alive same)
      have delete1: "store_delete_pending (pm_id pm) ?s1 = (Inr (), ?s1\<lparr>js_pending := js_pending s0\<rparr>)"
        using alive s(3) pm_fields(11)
        by (simp add: store_delete_pending_def persist_alive remove_row_fresh)
      have "reconcile_mutation H ident pm s = (Inr (), ?s1\<lparr>js_pending := js_pending s0\<rparr>)"
        unfolding sees
        using committed legacy False after snaps pre file_change_run [OF alive held_cur, of pm] save delete1
        by (simp add: s(1) run_andthen_Inr run_sbind_Inr)
      then show ?thesis
        using s r id alive mv by (auto simp: with_change_def)
    qed
  qed
qed

end

lemma upsert_same: "lookup_row key (key r) xs = Some r \<Longrightarrow> upsert key r xs = xs"
  by (induction xs) (auto simp: lookup_row_def split: if_splits)

lemma moved_parent:
  assumes "moved p i t t'" and "parent_ready t p" and "p \<noteq> []"
  shows "parent_ready t' p"
  using assms butlast_neq [OF assms(3)] by (simp add: moved_def parent_ready_def)

context journalled_mutation
begin

lemma reconcile_logged:
  assumes app: "applicable (js_tree s0)"
    and ready: "mutation_ready H ident fresh set_id cs [look (js_tree s0) path, intended] s0"
    and cap: "within_capacity H s0 cs (look (js_tree s0) path) intended"
    and pm: "pm = logged_row H cs fresh now kind path (look (js_tree s0) path) intended"
    and step: "(cs' = cs \<and> (t = js_tree s0 \<or> moved path intended (js_tree s0) t)) \<or>
      (cs' = with_change cs (recorded_change H pm (look t path)) \<and> moved path intended (js_tree s0) t)"
    and ph: "phase H [look (js_tree s0) path, intended] s0 [look (js_tree s0) path, intended] t
      (upsert cs_id cs' (js_sets s0)) (js_pending s0 @ [pm]) s"
    and alive: "js_budget s = None"
  shows "\<exists>s2. reconcile_pending H ident later (Some set_id) s = (Inr (), s2) \<and>
    abs_tree H (js_tree s2) = abs_tree H (js_tree s) \<and> settled H set_id path intended cs s0 s2"
proof -
  let ?t1 = "t\<lparr>tr_created := {}\<rparr>" and ?s1 = "s\<lparr>js_tree := t\<lparr>tr_created := {}\<rparr>\<rparr>"
  have t: "good_tree t" "parent_ready t path" "tr_root t = wi_root ident"
    using step tree [OF app] ready moved_parent [OF _ _ nonempty [OF app], of intended "js_tree s0" t]
    by (auto simp: moved_def mutation_ready_def)
  have moved1: "moved path intended (js_tree s0) t \<longleftrightarrow> moved path intended (js_tree s0) ?t1"
    by (simp add: moved_def)
  have r: "lookup_row cs_id set_id (js_sets s0) = Some cs" "cs_workspace cs = wi_key ident"
    "cs_lifecycle cs = OPEN" "set_id \<notin> pm_set ` set (js_pending s0)"
    using ready by (auto simp: mutation_ready_def)
  have id: "cs_id cs = set_id" using r(1) by (auto dest: lookup_row_key)
  have s: "js_tree s = t" "js_sets s = upsert cs_id cs' (js_sets s0)" "js_pending s = js_pending s0 @ [pm]"
    using ph by (auto simp: phase_def)
  have ph1: "phase H [look (js_tree s0) path, intended] s0 [look (js_tree s0) path, intended] ?t1
      (upsert cs_id cs' (js_sets s0)) (js_pending s0 @ [pm]) ?s1"
    using ph by (simp add: phase_def)
  have step1: "(cs' = cs \<and> (node_at ?t1 = node_at (js_tree s0) \<or> moved path intended (js_tree s0) ?t1)) \<or>
      (cs' = with_change cs (recorded_change H pm (look ?t1 path)) \<and> moved path intended (js_tree s0) ?t1)"
    using step moved1 by auto
  have cs': "cs_id cs' = set_id" "cs_workspace cs' = wi_key ident"
    using step id r by (auto simp: with_change_def)
  have "rows_of ident set_id s = [pm]"
    by (rule rows_of_one [OF s(3) r(4)]) (auto simp: s pm logged_row_def id cs' r(2))
  moreover have op: "operation_action pm = None" "pm_set pm = set_id"
    by (simp_all add: pm logged_row_def id operation_action_def new_identifier_def starts_with_def)
  moreover obtain s2 where s2: "reconcile_mutation H ident pm ?s1 = (Inr (), s2)" "js_tree s2 = ?t1"
      "js_budget s2 = None" "js_pending s2 = js_pending s0"
    and cs2: "\<exists>cs2. lookup_row cs_id set_id (js_sets s2) = Some cs2 \<and> cs_workspace cs2 = wi_key ident \<and>
      cs_id cs2 = set_id \<and> cs_lifecycle cs2 = OPEN \<and>
      ((cs_files cs2 = cs_files cs \<and> abs_tree H ?t1 = abs_tree H (js_tree s0)) \<or>
       (cs_files cs2 = cs_files cs @ [recorded_change H pm (look ?t1 path)] \<and>
        moved path intended (js_tree s0) ?t1))"
    using recover_logged [OF app ready cap pm _ _ _ step1 ph1] t alive by auto
  from cs2 obtain cs2 where cs2: "lookup_row cs_id set_id (js_sets s2) = Some cs2"
      "cs_workspace cs2 = wi_key ident" "cs_id cs2 = set_id" "cs_lifecycle cs2 = OPEN"
    and files: "(cs_files cs2 = cs_files cs \<and> abs_tree H ?t1 = abs_tree H (js_tree s0)) \<or>
       (cs_files cs2 = cs_files cs @ [recorded_change H pm (look ?t1 path)] \<and>
        moved path intended (js_tree s0) ?t1)" by blast
  have "reconcile_pending H ident later (Some set_id) s =
      (Inr (), s2\<lparr>js_sets := upsert cs_id (sealed_set later cs2) (js_sets s2),
                 js_tree := close_transaction (js_tree s2)\<rparr>)"
    by (rule reconcile_one [OF \<open>rows_of ident set_id s = [pm]\<close> op _ _ cs2])
      (use s s2 t r in auto)
  moreover have "settled H set_id path intended cs s0
      (s2\<lparr>js_sets := upsert cs_id (sealed_set later cs2) (js_sets s2),
         js_tree := close_transaction (js_tree s2)\<rparr>)"
    using files s2 cs2 recorded_states [OF pm] moved_abs [of path intended "js_tree s0" ?t1 H]
    by (auto simp: settled_def sealed_set_def moved_def)
  ultimately show ?thesis using s s2 by simp
qed

end

context journalled_mutation
begin

lemma reconcile_unlogged:
  assumes app: "applicable (js_tree s0)"
    and ready: "mutation_ready H ident fresh set_id cs [look (js_tree s0) path, intended] s0"
    and pm: "pm = logged_row H cs fresh now kind path (look (js_tree s0) path) intended"
    and g: "g = Unlogged \<or> g = Cleared" and s: "stopped_at H path intended cs pm s0 g s"
  shows "\<exists>s2. reconcile_pending H ident later (Some set_id) s = (Inr (), s2) \<and>
    abs_tree H (js_tree s2) = abs_tree H (js_tree s) \<and> settled H set_id path intended cs s0 s2"
proof -
  have r: "lookup_row cs_id set_id (js_sets s0) = Some cs" "set_id \<notin> pm_set ` set (js_pending s0)"
    "tr_root (js_tree s0) = wi_root ident" "cs_id cs = set_id"
    using ready by (auto simp: mutation_ready_def dest: lookup_row_key)
  obtain t sets held ss where ph: "phase H ss s0 held t sets (js_pending s0) s"
    and t: "(t = js_tree s0 \<and> sets = js_sets s0) \<or> (moved path intended (js_tree s0) t \<and>
      sets = upsert cs_id (with_change cs (recorded_change H pm (look t path))) (js_sets s0))"
    using g s by (auto simp: stopped_at_def Let_def)
  then have st: "js_tree s = t" "js_sets s = sets" "js_pending s = js_pending s0"
    by (simp_all add: phase_def)
  have root: "tr_root (js_tree s) = wi_root ident" using t st r by (auto simp: moved_def)
  let ?s2 = "s\<lparr>js_tree := close_transaction ((js_tree s)\<lparr>tr_created := {}\<rparr>)\<rparr>"
  have "reconcile_pending H ident later (Some set_id) s = (Inr (), ?s2)"
    by (rule reconcile_none [OF rows_of_none root]) (simp add: st r)
  moreover have "settled H set_id path intended cs s0 ?s2"
    using t st r recorded_states [OF pm] moved_abs [of path intended "js_tree s0" t H]
    by (auto simp: settled_def with_change_def moved_def)
  ultimately show ?thesis by simp
qed

lemma crash_safe:
  assumes app: "applicable (js_tree s0)"
    and ready: "mutation_ready H ident fresh set_id cs [look (js_tree s0) path, intended] s0"
    and run: "apply_file_mutation H ident fresh now set_id kind intended (target (js_tree s0)) s0 = (r, s1)"
  shows "\<exists>s2. reconcile_pending H ident later (Some set_id) (reboot s1) = (Inr (), s2) \<and>
    abs_tree H (js_tree s2) = abs_tree H (js_tree s1) \<and> settled H set_id path intended cs s0 s2"
proof -
  define pm where "pm = logged_row H cs fresh now kind path (look (js_tree s0) path) intended"
  let ?ss = "[look (js_tree s0) path, intended]"
  have "interrupted H path intended cs pm s0 s1"
    using validD [OF valid_apply [OF app ready pm_def] refl] run by (cases r) auto
  then obtain g where g: "stopped_at H path intended cs pm s0 g (reboot s1)"
    and cap: "g = Unlogged \<or> within_capacity H s0 cs (look (js_tree s0) path) intended"
    unfolding interrupted_def reboot_def stopped_budget by blast
  have tree: "js_tree (reboot s1) = js_tree s1" and alive: "js_budget (reboot s1) = None"
    by (simp_all add: reboot_def)
  have sets0: "upsert cs_id cs (js_sets s0) = js_sets s0"
    by (rule upsert_same) (use ready in \<open>auto simp: mutation_ready_def dest: lookup_row_key\<close>)
  note logged = reconcile_logged [OF app ready _ pm_def _ _ alive]
  show ?thesis
  proof (cases "g = Unlogged \<or> g = Cleared")
    case True
    from reconcile_unlogged [OF app ready pm_def this g] tree show ?thesis by simp
  next
    case False
    with cap have cap: "within_capacity H s0 cs (look (js_tree s0) path) intended" by simp
    have "\<exists>t cs'. phase H ?ss s0 ?ss t (upsert cs_id cs' (js_sets s0)) (js_pending s0 @ [pm]) (reboot s1) \<and>
        ((cs' = cs \<and> (t = js_tree s0 \<or> moved path intended (js_tree s0) t)) \<or>
        (cs' = with_change cs (recorded_change H pm (look t path)) \<and> moved path intended (js_tree s0) t))"
    proof (cases g)
      case Logged
      then show ?thesis
        using g by (intro exI [of _ "js_tree s0"] exI [of _ cs]) (simp add: stopped_at_def Let_def sets0)
    next
      case Done
      then obtain t where "moved path intended (js_tree s0) t"
        "phase H ?ss s0 ?ss t (js_sets s0) (js_pending s0 @ [pm]) (reboot s1)"
        using g by (auto simp: stopped_at_def Let_def)
      then show ?thesis by (intro exI [of _ t] exI [of _ cs]) (simp add: sets0)
    next
      case Recorded
      then show ?thesis using g by (auto simp: stopped_at_def Let_def)
    qed (use False in auto)
    then obtain t cs' where
      ph: "phase H ?ss s0 ?ss t (upsert cs_id cs' (js_sets s0)) (js_pending s0 @ [pm]) (reboot s1)"
      and step: "(cs' = cs \<and> (t = js_tree s0 \<or> moved path intended (js_tree s0) t)) \<or>
        (cs' = with_change cs (recorded_change H pm (look t path)) \<and> moved path intended (js_tree s0) t)"
      by blast
    from logged [OF cap step ph] tree show ?thesis by simp
  qed
qed

end

section \<open>The mutations of the file tools\<close>

text \<open>\<open>replace_mutation\<close> of \<open>core/tools/filesystem.py\<close>: the directory pin of the
  parent, then the identity of the file read before.\<close>

definition verify_parent :: "tree \<Rightarrow> string list \<Rightarrow> change_error + unit" where
  "verify_parent t p = (if parent_ready t p then Inr () else Inl MutationTargetChanged)"

definition capture_regular :: "tree \<Rightarrow> string list \<Rightarrow> change_error + node_snapshot option" where
  "capture_regular t p =
     (case verify_parent t p of
        Inl e \<Rightarrow> Inl e
      | Inr _ \<Rightarrow>
          (case node_at t p of
             None \<Rightarrow> Inr None
           | Some n \<Rightarrow> if nd_kind n = DFile then Inr (Some (snapshot_of n)) else Inl UnsafeWorkspacePath))"

definition replace_mutation ::
  "string list \<Rightarrow> (node_snapshot \<times> nat) option \<Rightarrow> string \<Rightarrow> nat option \<Rightarrow> bound_file_mutation" where
  "replace_mutation p before content mode =
     \<lparr>bf_path = as_posix p,
      bf_before = map_option fst before,
      bf_mutate =
        andthen (reads (\<lambda>t. verify_parent t p))
       (andthen (reads (\<lambda>t. assert_child_identity t p (map_option snd before) False))
       (modify (write_file p content mode))),
      bf_capture = (\<lambda>t. capture_regular t p)\<rparr>"

text \<open>\<open>read_regular\<close> with \<open>allow_missing\<close>: the file and its identity, or nothing.\<close>

definition read_regular :: "tree \<Rightarrow> string list \<Rightarrow> (node_snapshot \<times> nat) option" where
  "read_regular t p = map_option (\<lambda>n. (snapshot_of n, nd_ident n)) (node_at t p)"

text \<open>\<open>_delete_node\<close>: the mutation of one inventoried node.\<close>

definition capture_deleted :: "tree \<Rightarrow> string list \<Rightarrow> change_error + node_snapshot option" where
  "capture_deleted t p =
     (case node_at t p of
        None \<Rightarrow> Inr None
      | Some n \<Rightarrow>
          (case nd_kind n of
             DLink \<Rightarrow> Inr (Some \<lparr>ns_type = SYMLINK, ns_content = Some [], ns_mode = None\<rparr>)
           | DDir \<Rightarrow> Inr (Some \<lparr>ns_type = DIRECTORY, ns_content = None, ns_mode = Some (nd_mode n)\<rparr>)
           | DFile \<Rightarrow> Inr (Some \<lparr>ns_type = FILE, ns_content = Some (nd_content n), ns_mode = Some (nd_mode n)\<rparr>)
           | DOther \<Rightarrow> Inl UnsafeWorkspacePath))"

definition delete_node :: "string list \<Rightarrow> nat \<Rightarrow> node_snapshot \<Rightarrow> bound_file_mutation" where
  "delete_node p node_identity snapshot =
     \<lparr>bf_path = as_posix p,
      bf_before = Some snapshot,
      bf_mutate =
        andthen (reads (\<lambda>t. verify_parent t p))
       (andthen (reads (\<lambda>t. assert_child_identity t p (Some node_identity) (ns_type snapshot = SYMLINK)))
       (remove_child p (ns_type snapshot = DIRECTORY))),
      bf_capture = (\<lambda>t. capture_deleted t p)\<rparr>"

section \<open>They meet the contract\<close>

definition file_snapshot :: "string \<Rightarrow> nat option \<Rightarrow> node_snapshot option" where
  "file_snapshot content mode = Some \<lparr>ns_type = FILE, ns_content = Some content, ns_mode = mode\<rparr>"

definition replaceable :: "string list \<Rightarrow> string \<Rightarrow> nat option \<Rightarrow> tree \<Rightarrow> bool" where
  "replaceable p content mode t \<longleftrightarrow>
     good_tree t \<and> parent_ready t p \<and> list_all plain_component p \<and> p \<noteq> [] \<and>
     length content \<le> MAX_CHANGESET_BYTES \<and>
     (case node_at t p of None \<Rightarrow> mode = None | Some n \<Rightarrow> nd_kind n = DFile \<and> mode = Some (nd_mode n))"

definition deletable :: "string list \<Rightarrow> tree \<Rightarrow> bool" where
  "deletable p t \<longleftrightarrow>
     good_tree t \<and> parent_ready t p \<and> list_all plain_component p \<and> p \<noteq> [] \<and> node_at t p \<noteq> None"

definition delete_target :: "string list \<Rightarrow> tree \<Rightarrow> bound_file_mutation" where
  "delete_target p t =
     delete_node p (nd_ident (the (node_at t p))) (snapshot_of (the (node_at t p)))"

lemma good_tree_put_file:
  assumes g: "good_tree t" and parent: "parent_ready t p" and p: "p \<noteq> []"
    and kind: "\<And>n. node_at t p = Some n \<Longrightarrow> nd_kind n = DFile"
    and len: "length content \<le> MAX_CHANGESET_BYTES"
  shows "good_tree (write_file p content mode t)"
proof (rule good_tree_update [OF g, where p = p and H = "\<lambda>x. x"
      and d = "file_snapshot content (Some (or_else mode (tr_file_mode t)))"])
  have "\<not> is_dir (abs_tree (\<lambda>x. x) t p)"
    using kind by (auto simp: is_dir_abs [OF g])
  then show "step_ok (abs_tree (\<lambda>x. x) t) p
      (digest_of (\<lambda>x. x) (file_snapshot content (Some (or_else mode (tr_file_mode t)))))"
    using parent p by (simp add: step_ok_def parent_ready_dir [OF g, where H = "\<lambda>x. x"])
qed (use len in \<open>auto simp: write_file_def look_def snapshot_of_def file_snapshot_def snap_ok_def
      put_node_def node_at_def update_conv\<close>)

lemma good_tree_drop:
  assumes g: "good_tree t" and parent: "parent_ready t p" and p: "p \<noteq> []"
    and empty: "\<And>n. node_at t p = Some n \<Longrightarrow> nd_kind n = DDir \<Longrightarrow> \<not> has_children t p"
  shows "good_tree (drop_node p t)"
proof (rule good_tree_update [OF g, where p = p and H = "\<lambda>x. x" and d = None])
  show "step_ok (abs_tree (\<lambda>x. x) t) p (digest_of (\<lambda>x. x) None)"
    using parent p empty
    by (auto simp: step_ok_def parent_ready_dir [OF g, where H = "\<lambda>x. x"] is_dir_abs [OF g] has_children_iff)
qed (auto simp: look_def snap_ok_def drop_node_def node_at_def delete_conv)

lemma tr_root_put [simp]: "tr_root (put_node p n t) = tr_root t"
  by (simp add: put_node_def)

lemma replace_contract:
  assumes app: "replaceable p content mode t"
    and run: "bf_mutate (replace_mutation p (read_regular t p) content mode) t = (r, t')"
  shows "case r of
       Inl _ \<Rightarrow> t' = t
     | Inr _ \<Rightarrow> good_tree t' \<and> tr_root t' = tr_root t \<and> (\<forall>q. q \<noteq> p \<longrightarrow> node_at t' q = node_at t q) \<and>
         agrees (file_snapshot content mode) (look t' p) \<and>
         bf_capture (replace_mutation p (read_regular t p) content mode) t' = Inr (look t' p)"
proof -
  have parent: "parent_ready t p" "p \<noteq> []" and g: "good_tree (write_file p content mode t)"
    using app good_tree_put_file [of t p content mode] by (auto simp: replaceable_def split: option.splits)
  have "assert_child_identity t p (map_option snd (read_regular t p)) False = Inr ()"
    using app by (auto simp: assert_child_identity_def read_regular_def replaceable_def split: option.splits)
  then have t': "r = Inr () \<and> t' = write_file p content mode t"
    using run parent by (simp add: replace_mutation_def verify_parent_def)
  have "parent_ready (write_file p content mode t) p"
    using parent butlast_neq [OF parent(2)] by (simp add: parent_ready_def write_file_def)
  with t' g show ?thesis
    by (auto simp: replace_mutation_def capture_regular_def verify_parent_def look_def write_file_def
        snapshot_of_def agrees_def file_snapshot_def or_else_def split: option.split)
qed

interpretation replace: journalled_mutation p "file_snapshot content mode" "replaceable p content mode"
  "\<lambda>t. replace_mutation p (read_regular t p) content mode" for p content mode
proof unfold_locales
  fix t r t'
  assume app: "replaceable p content mode t"
  then show "list_all plain_component p" "p \<noteq> []" "good_tree t \<and> parent_ready t p"
    by (auto simp: replaceable_def)
  show "bf_path (replace_mutation p (read_regular t p) content mode) = as_posix p \<and>
      bf_before (replace_mutation p (read_regular t p) content mode) = look t p"
    by (simp add: replace_mutation_def read_regular_def look_def option.map_comp o_def)
  assume "bf_mutate (replace_mutation p (read_regular t p) content mode) t = (r, t')"
  with app show "case r of
       Inl _ \<Rightarrow> t' = t
     | Inr _ \<Rightarrow> good_tree t' \<and> tr_root t' = tr_root t \<and> (\<forall>q. q \<noteq> p \<longrightarrow> node_at t' q = node_at t q) \<and>
         agrees (file_snapshot content mode) (look t' p) \<and>
         bf_capture (replace_mutation p (read_regular t p) content mode) t' = Inr (look t' p)"
    by (rule replace_contract)
qed

lemma delete_contract:
  assumes app: "deletable p t" and run: "bf_mutate (delete_target p t) t = (r, t')"
  shows "case r of
       Inl _ \<Rightarrow> t' = t
     | Inr _ \<Rightarrow> good_tree t' \<and> tr_root t' = tr_root t \<and> (\<forall>q. q \<noteq> p \<longrightarrow> node_at t' q = node_at t q) \<and>
         agrees None (look t' p) \<and> bf_capture (delete_target p t) t' = Inr (look t' p)"
proof -
  obtain n where n: "node_at t p = Some n" and g: "good_tree t" "parent_ready t p" "p \<noteq> []"
    using app by (auto simp: deletable_def)
  have "assert_child_identity t p (Some (nd_ident n)) (ns_type (snapshot_of n) = SYMLINK) = Inr ()"
    using n look_symlink [OF g(1) n] by (auto simp: assert_child_identity_def)
  then have run': "remove_child p (nd_kind n = DDir) t = (r, t')"
    using run g n by (simp add: delete_target_def delete_node_def verify_parent_def)
  show ?thesis
  proof (cases "nd_kind n = DDir \<and> has_children t p")
    case True
    with run' show ?thesis by (auto simp: remove_child_def)
  next
    case False
    with run' have t': "r = Inr () \<and> t' = drop_node p t" by (auto simp: remove_child_def)
    have "good_tree (drop_node p t)"
      by (rule good_tree_drop [OF g]) (use n False in auto)
    moreover have "tr_root (drop_node p t) = tr_root t" by (simp add: drop_node_def)
    ultimately show ?thesis
      using t' by (simp add: agrees_def look_def delete_target_def delete_node_def capture_deleted_def)
  qed
qed

interpretation delete: journalled_mutation p None "deletable p" "delete_target p" for p
proof unfold_locales
  fix t r t'
  assume app: "deletable p t"
  then show "list_all plain_component p" "p \<noteq> []" "good_tree t \<and> parent_ready t p"
    by (auto simp: deletable_def)
  show "bf_path (delete_target p t) = as_posix p \<and> bf_before (delete_target p t) = look t p"
    using app by (auto simp: delete_target_def delete_node_def look_def deletable_def)
  assume "bf_mutate (delete_target p t) t = (r, t')"
  with app show "case r of
       Inl _ \<Rightarrow> t' = t
     | Inr _ \<Rightarrow> good_tree t' \<and> tr_root t' = tr_root t \<and> (\<forall>q. q \<noteq> p \<longrightarrow> node_at t' q = node_at t q) \<and>
         agrees None (look t' p) \<and> bf_capture (delete_target p t) t' = Inr (look t' p)"
    by (rule delete_contract)
qed

section \<open>Properties\<close>

text \<open>C2: A journalled file write that dies before any of its writes (of a blob, of the
  pending row, of the tree, of the set), or that fails, leaves a state from which
  \<open>reconcile_pending\<close> succeeds, does not touch the tree, clears the intent, and
  ends with either the old tree and no new change, or the new tree and one new
  change whose states before and after are those of the tree.\<close>

theorem replace_crash_safe:
  assumes "replaceable p content mode (js_tree s)"
    and "mutation_ready H ident fresh set_id cs [look (js_tree s) p, file_snapshot content mode] s"
    and "apply_file_mutation H ident fresh now set_id kind (file_snapshot content mode)
      (replace_mutation p (read_regular (js_tree s) p) content mode) s = (r, s1)"
  shows "\<exists>s2. reconcile_pending H ident later (Some set_id) (reboot s1) = (Inr (), s2) \<and>
    abs_tree H (js_tree s2) = abs_tree H (js_tree s1) \<and>
    settled H set_id p (file_snapshot content mode) cs s s2"
  using assms by (rule replace.crash_safe)

text \<open>C3: The same for the deletion of an inventoried node, a file, a link or a directory.\<close>

theorem delete_crash_safe:
  assumes "deletable p (js_tree s)"
    and "mutation_ready H ident fresh set_id cs [look (js_tree s) p, None] s"
    and "apply_file_mutation H ident fresh now set_id kind None (delete_target p (js_tree s)) s = (r, s1)"
  shows "\<exists>s2. reconcile_pending H ident later (Some set_id) (reboot s1) = (Inr (), s2) \<and>
    abs_tree H (js_tree s2) = abs_tree H (js_tree s1) \<and> settled H set_id p None cs s s2"
  using assms by (rule delete.crash_safe)

definition sample_node :: tree_node where
  "sample_node = \<lparr>nd_kind = DFile, nd_content = ''old'', nd_mode = 420, nd_ident = 7\<rparr>"

definition sample_tree :: tree where
  "sample_tree =
     \<lparr>tr_nodes = [([''a''], sample_node)], tr_next = 8, tr_root = 1, tr_created = {},
      tr_file_mode = 420, tr_dir_mode = 493, tr_link_mode = 511\<rparr>"

definition sample_set :: change_set where
  "sample_set =
     \<lparr>cs_id = ''change_1'', cs_session = ''s'', cs_turn = None, cs_workspace = ''w'', cs_lifecycle = OPEN,
      cs_reversibility = REV_FULL, cs_files = [], cs_execute = [], cs_created = 0, cs_sealed = None\<rparr>"

definition sample_journal :: "nat option \<Rightarrow> jstate" where
  "sample_journal budget =
     \<lparr>js_tree = sample_tree, js_sets = [sample_set], js_pending = [], js_blobs = Map.empty,
      js_activities = [], js_budget = budget\<rparr>"

definition sample_identity :: workspace_identity where
  "sample_identity = \<lparr>wi_key = ''w'', wi_path = ''/w'', wi_root = 1\<rparr>"

text \<open>Any injective digest of the two contents will do for a sample.\<close>

definition sample_digest :: "string \<Rightarrow> string" where
  "sample_digest c = replicate 63 CHR ''0'' @ (if c = ''old'' then ''a'' else ''b'')"

lemma sample_tree_good: "good_tree sample_tree"
  by (auto simp: good_tree_def sample_tree_def sample_node_def node_at_def MAX_CHANGESET_BYTES_def
      split: if_splits)

lemma sample_replaceable: "replaceable [''a''] ''new'' (Some 420) (js_tree (sample_journal b))"
  by (auto simp: replaceable_def sample_journal_def sample_tree_good MAX_CHANGESET_BYTES_def)
    (auto simp: sample_tree_def sample_node_def node_at_def parent_ready_def plain_component_def)

lemma sample_ready:
  "mutation_ready sample_digest sample_identity ''2'' ''change_1'' sample_set
     [look (js_tree (sample_journal b)) [''a''], file_snapshot ''new'' (Some 420)] (sample_journal b)"
  by (auto simp: mutation_ready_def sample_journal_def sample_tree_def sample_identity_def
      sample_set_def sample_node_def look_def node_at_def snapshot_of_def file_snapshot_def
      collision_free_def content_list_def option_list_def inj_on_def sample_digest_def lookup_row_def)

theorem replace_crash_safe_witness:
  "\<exists>s2. reconcile_pending sample_digest sample_identity 9 (Some ''change_1'')
       (reboot (snd (apply_file_mutation sample_digest sample_identity ''2'' 5 ''change_1'' UPDATED
         (file_snapshot ''new'' (Some 420))
         (replace_mutation [''a''] (read_regular (js_tree (sample_journal (Some 4))) [''a''])
            ''new'' (Some 420)) (sample_journal (Some 4))))) = (Inr (), s2) \<and>
    settled sample_digest ''change_1'' [''a''] (file_snapshot ''new'' (Some 420)) sample_set
      (sample_journal (Some 4)) s2"
  using replace_crash_safe [OF sample_replaceable [of "Some 4"] sample_ready surjective_pairing, where kind = UPDATED and now = 5 and later = 9]
  by blast

theorem delete_crash_safe_witness:
  "\<exists>s2. reconcile_pending sample_digest sample_identity 9 (Some ''change_1'')
       (reboot (snd (apply_file_mutation sample_digest sample_identity ''2'' 5 ''change_1'' DELETED
         None (delete_target [''a''] (js_tree (sample_journal (Some 2)))) (sample_journal (Some 2)))))
       = (Inr (), s2) \<and>
    settled sample_digest ''change_1'' [''a''] None sample_set (sample_journal (Some 2)) s2"
proof -
  have d: "deletable [''a''] (js_tree (sample_journal (Some 2)))"
    using sample_replaceable [of "Some 2"]
    by (auto simp: replaceable_def deletable_def sample_journal_def sample_tree_def node_at_def)
  have r: "mutation_ready sample_digest sample_identity ''2'' ''change_1'' sample_set
     [look (js_tree (sample_journal (Some 2))) [''a''], None] (sample_journal (Some 2))"
    using sample_ready [of "Some 2"]
    by (auto simp: mutation_ready_def collision_free_def content_list_def elim!: inj_on_subset)
  show ?thesis
    using delete_crash_safe [OF d r surjective_pairing, where kind = DELETED and now = 5 and later = 9]
    by blast
qed

end
