(* ===== verification/ChangeOperations.thy ===== *)
theory ChangeOperations
  imports ChangeRecovery
begin

text \<open>
  \<open>core/changes/operations.py\<close>: undo and redo of a sealed change set.  An
  operation binds every recorded path, refuses when the workspace no longer has
  the recorded nodes, logs one pending row for each path, restores them in
  order, commits the new lifecycle and clears the rows; when something fails
  before the commit it rolls the restored paths back.
\<close>

record operation_result =
  or_set :: string
  or_lifecycle :: change_lifecycle
  or_restored :: "string list"
  or_unmanaged_restored :: bool
  or_warning :: "string option"

record prepared_restore =
  pr_change :: file_change
  pr_target :: bound_node
  pr_desired :: "node_snapshot option"
  pr_pending :: pending_mutation

definition kind_of :: "node_snapshot option \<Rightarrow> node_snapshot option \<Rightarrow> file_change_kind" where
  "kind_of before after = (if before = None then CREATED else if after = None then DELETED else UPDATED)"

definition change_snapshot ::
  "(string \<Rightarrow> string) \<Rightarrow> blobs \<Rightarrow> file_change \<Rightarrow> bool \<Rightarrow> change_error + node_snapshot option"
where
  "change_snapshot H blobs change before =
     (let digest = if before then fc_before_hash change else fc_after_hash change;
          blob = if before then fc_before_blob change else fc_after_blob change;
          mode = if before then fc_before_mode change else fc_after_mode change;
          node_type = if before then resolved_before_node_type change
                      else resolved_after_node_type change
      in case digest of
           None \<Rightarrow> Inr None
         | Some d \<Rightarrow>
             (case node_type of
                None \<Rightarrow> Inl ChangeBlobCorrupt
              | Some t \<Rightarrow>
                  if t = DIRECTORY
                  then Inr (Some \<lparr>ns_type = t, ns_content = None, ns_mode = mode\<rparr>)
                  else
                    (case blob of
                       None \<Rightarrow> Inl ChangeBlobCorrupt
                     | Some b \<Rightarrow>
                         (case blob_get H blobs b of
                            Inl e \<Rightarrow> Inl e
                          | Inr content \<Rightarrow>
                              if H content \<noteq> d then Inl ChangeBlobCorrupt
                              else Inr (Some \<lparr>ns_type = t, ns_content = Some content, ns_mode = mode\<rparr>)))))"

text \<open>The suffix \<open>index:04d\<close> of a pending identifier.\<close>

definition four_digits :: "nat \<Rightarrow> string" where
  "four_digits n = replicate (4 - length (decimal n)) CHR ''0'' @ decimal n"

definition action_prefix :: "change_action \<Rightarrow> string" where
  "action_prefix action = (if action = UNDO then ''undo_'' else ''redo_'')"

definition operation_pending_id :: "change_action \<Rightarrow> string \<Rightarrow> nat \<Rightarrow> string" where
  "operation_pending_id action operation_id index =
     action_prefix action @ operation_id @ ''_'' @ four_digits index"

definition operation_pending ::
  "(string \<Rightarrow> string) \<Rightarrow> string \<Rightarrow> nat \<Rightarrow> change_set \<Rightarrow> file_change \<Rightarrow> node_snapshot option
     \<Rightarrow> node_snapshot option \<Rightarrow> pending_mutation journal"
where
  "operation_pending H pending_id now cs change current desired =
     sbind (lift_result (journal_relative (fc_path change))) (\<lambda>relative.
     sbind (put_snapshot H current) (\<lambda>before_blob.
     sbind (put_snapshot H desired) (\<lambda>after_blob.
       ret \<lparr>pm_id = pending_id, pm_set = cs_id cs, pm_workspace = cs_workspace cs, pm_path = relative,
            pm_kind = kind_of current desired,
            pm_node_type = or_else (snapshot_type desired)
              (or_else (snapshot_type current) (fc_node_type change)),
            pm_before_type = snapshot_type current, pm_after_type = snapshot_type desired,
            pm_before_hash = snapshot_digest H current, pm_before_blob = before_blob,
            pm_before_mode = snapshot_mode current,
            pm_after_hash = snapshot_digest H desired, pm_after_blob = after_blob,
            pm_after_mode = snapshot_mode desired, pm_created = now\<rparr>)))"

text \<open>The first loop of \<open>_prepare\<close>: the bound targets by path, and the paths whose
  node is not the recorded one.\<close>

fun bind_changes ::
  "(string \<Rightarrow> string) \<Rightarrow> change_action \<Rightarrow> file_change list \<Rightarrow> (string \<times> bound_node) list \<Rightarrow> string list
     \<Rightarrow> ((string \<times> bound_node) list \<times> string list) journal"
where
  "bind_changes H action [] targets conflicts = ret (targets, conflicts)"
| "bind_changes H action (change # rest) targets conflicts =
     sbind (lift_result (journal_relative (fc_path change))) (\<lambda>relative.
     sbind (read_tree (\<lambda>t. bind_path t relative)) (\<lambda>target.
     sbind (reads (\<lambda>s. change_snapshot H (js_blobs s) change (action = REDO))) (\<lambda>expected.
       bind_changes H action rest (AList.update relative target targets)
         (if snapshots_match H (bn_snapshot target) expected then conflicts
          else conflicts @ [relative]))))"

fun prepare_changes ::
  "(string \<Rightarrow> string) \<Rightarrow> change_action \<Rightarrow> string \<Rightarrow> (nat \<Rightarrow> nat) \<Rightarrow> change_set \<Rightarrow> (string \<times> bound_node) list
     \<Rightarrow> nat \<Rightarrow> file_change list \<Rightarrow> prepared_restore list journal"
where
  "prepare_changes H action operation_id clock cs targets index [] = ret []"
| "prepare_changes H action operation_id clock cs targets index (change # rest) =
     sbind (lift_result (journal_relative (fc_path change))) (\<lambda>relative.
     sbind (lift_result (case map_of targets relative of None \<Rightarrow> Inl KeyFailure | Some b \<Rightarrow> Inr b)) (\<lambda>target.
     sbind (reads (\<lambda>s. change_snapshot H (js_blobs s) change (action = UNDO))) (\<lambda>desired.
     sbind (operation_pending H (operation_pending_id action operation_id index) (clock index) cs change
              (bn_snapshot target) desired) (\<lambda>pending.
     sbind (prepare_changes H action operation_id clock cs targets (index + 1) rest) (\<lambda>items.
       ret (\<lparr>pr_change = change, pr_target = target, pr_desired = desired, pr_pending = pending\<rparr>
              # items))))))"

definition prepare ::
  "(string \<Rightarrow> string) \<Rightarrow> change_action \<Rightarrow> string \<Rightarrow> (nat \<Rightarrow> nat) \<Rightarrow> change_set \<Rightarrow> file_change list
     \<Rightarrow> prepared_restore list journal"
where
  "prepare H action operation_id clock cs changes =
     sbind (bind_changes H action changes [] []) (\<lambda>(targets, conflicts).
       if conflicts \<noteq> [] then raise ChangeConflict
       else prepare_changes H action operation_id clock cs targets 0
              (if action = UNDO then rev changes else changes))"

text \<open>Loops that return early with \<open>False\<close>.\<close>

fun all_hold :: "('a \<Rightarrow> ('s, 'e, bool) eff) \<Rightarrow> 'a list \<Rightarrow> ('s, 'e, bool) eff" where
  "all_hold f [] = ret True"
| "all_hold f (x # xs) = sbind (f x) (\<lambda>b. if b then all_hold f xs else ret False)"

definition rollback_item :: "(string \<Rightarrow> string) \<Rightarrow> prepared_restore \<Rightarrow> bool journal" where
  "rollback_item H item =
     sbind (read_tree (\<lambda>t. bind_path t (pm_path (pr_pending item)))) (\<lambda>current.
       if \<not> snapshots_match H (bn_snapshot current) (pr_desired item) then ret False
       else sbind (write_tree (restore current (bn_snapshot (pr_target item)))) (\<lambda>result.
              ret (snapshots_match H result (bn_snapshot (pr_target item)))))"

definition rolled_back_item :: "(string \<Rightarrow> string) \<Rightarrow> prepared_restore \<Rightarrow> bool journal" where
  "rolled_back_item H item =
     sbind (read_tree (\<lambda>t. bind_path t (pm_path (pr_pending item)))) (\<lambda>current.
       ret (snapshots_match H (bn_snapshot current) (bn_snapshot (pr_target item))))"

definition clear_pending :: "prepared_restore list \<Rightarrow> unit journal" where
  "clear_pending prepared = for_each (\<lambda>item. store_delete_pending (pm_id (pr_pending item))) prepared"

definition workspace_error :: "change_error \<Rightarrow> bool" where
  "workspace_error e \<longleftrightarrow> e = MutationTargetChanged \<or> e = UnsafeWorkspacePath \<or> e = OSFailure"

definition rollback :: "(string \<Rightarrow> string) \<Rightarrow> prepared_restore list \<Rightarrow> prepared_restore list \<Rightarrow> bool journal"
where
  "rollback H prepared applied =
     sbind (catch (sbind (all_hold (rollback_item H) (rev applied)) (\<lambda>b.
              if b then all_hold (rolled_back_item H) prepared else ret False))
            (\<lambda>e. if workspace_error e then ret False else raise e))
     (\<lambda>b. if b then catch (andthen (clear_pending prepared) (ret True)) (\<lambda>_. ret False) else ret False)"

text \<open>The \<open>except Exception\<close> branch before the commit.\<close>

definition abort_operation ::
  "(string \<Rightarrow> string) \<Rightarrow> change_action \<Rightarrow> change_set \<Rightarrow> prepared_restore list \<Rightarrow> prepared_restore list
     \<Rightarrow> change_error \<Rightarrow> 'a journal"
where
  "abort_operation H action cs prepared applied e =
     andthen
       (if prepared = [] then ret ()
        else sbind (store_get (cs_id cs)) (\<lambda>persisted.
          case persisted of
            None \<Rightarrow> ret ()
          | Some p \<Rightarrow>
              if cs_lifecycle p = committed_lifecycle action then ret ()
              else if cs_lifecycle p = source_lifecycle action
              then andthen (rollback H prepared applied) (ret ())
              else ret ()))
       (raise e)"

definition attempt :: "('s, 'e, 'a) eff \<Rightarrow> ('s, 'e, 'e + 'a) eff" where
  "attempt m = (\<lambda>s. case m s of (r, s') \<Rightarrow> (Inr r, s'))"

text \<open>The loop that restores: the items restored, and the error that stopped it.\<close>

fun restore_items ::
  "(string \<Rightarrow> string) \<Rightarrow> prepared_restore list \<Rightarrow> prepared_restore list
     \<Rightarrow> (prepared_restore list \<times> change_error option) journal"
where
  "restore_items H [] applied = ret (applied, None)"
| "restore_items H (item # rest) applied =
     sbind (attempt (write_tree (restore (pr_target item) (pr_desired item)))) (\<lambda>r.
       case r of
         Inl e \<Rightarrow> ret (applied, Some e)
       | Inr actual \<Rightarrow>
           if \<not> snapshots_match H actual (pr_desired item) then ret (applied, Some ChangeConflict)
           else restore_items H rest (applied @ [item]))"

definition commit_items ::
  "(string \<Rightarrow> string) \<Rightarrow> change_action \<Rightarrow> change_set \<Rightarrow> prepared_restore list \<Rightarrow> unit journal"
where
  "commit_items H action cs prepared =
     sbind (attempt (for_each (\<lambda>item. store_save_pending (pr_pending item)) prepared)) (\<lambda>saved.
     case saved of Inl e \<Rightarrow> abort_operation H action cs prepared [] e | Inr _ \<Rightarrow>
     sbind (restore_items H prepared []) (\<lambda>(applied, failure).
     case failure of Some e \<Rightarrow> abort_operation H action cs prepared applied e | None \<Rightarrow>
     sbind (attempt (store_save (cs\<lparr>cs_lifecycle := committed_lifecycle action\<rparr>))) (\<lambda>committed.
     case committed of Inl e \<Rightarrow> abort_operation H action cs prepared applied e | Inr _ \<Rightarrow>
       clear_pending prepared)))"

definition operate ::
  "(string \<Rightarrow> string) \<Rightarrow> workspace_identity \<Rightarrow> string \<Rightarrow> (nat \<Rightarrow> nat) \<Rightarrow> change_action \<Rightarrow> string
     \<Rightarrow> operation_result journal"
where
  "operate H ident operation_id clock action set_id =
     sbind (owned ident set_id) (\<lambda>cs.
     andthen (guard_else (cs_lifecycle cs = source_lifecycle action) ChangeLifecycleError)
    (andthen (guard_else (cs_reversibility cs \<noteq> REV_NONE) ChangeNotReversible)
    (sbind (lift_result (merge_file_changes (cs_files cs))) (\<lambda>changes.
     sbind (rethrow (\<lambda>e. if workspace_error e then ChangeConflict else e)
       (with_transaction ident
         (sbind (prepare H action operation_id clock cs changes) (\<lambda>prepared.
            andthen (commit_items H action cs prepared) (ret prepared))))) (\<lambda>prepared.
     ret \<lparr>or_set = set_id, or_lifecycle = committed_lifecycle action,
          or_restored = map (\<lambda>item. pm_path (pr_pending item)) prepared,
          or_unmanaged_restored = False,
          or_warning = (if cs_reversibility cs = REV_PARTIAL
                        then Some ''Unmanaged execute effects were not restored.'' else None)\<rparr>)))))"

definition undo where "undo H ident operation_id clock = operate H ident operation_id clock UNDO"

definition redo where "redo H ident operation_id clock = operate H ident operation_id clock REDO"

end
