(* ===== verification/ChangeUndo.thy ===== *)
theory ChangeUndo
  imports ChangeOperations "HOL-Library.Multiset"
begin

text \<open>
  Undo and redo of \<open>ChangeOperations\<close>: on a workspace that has the recorded
  nodes an operation restores every recorded path, undo and redo are inverse,
  and an operation that dies anywhere is completed or rolled back by the
  next \<open>reconcile_pending\<close>.
\<close>

section \<open>What an operation works on\<close>

definition parts :: "file_change \<Rightarrow> string list" where
  "parts c = posix_components (fc_path c)"

definition snap_at :: "(string \<Rightarrow> string) \<Rightarrow> blobs \<Rightarrow> file_change \<Rightarrow> bool \<Rightarrow> node_snapshot option" where
  "snap_at H blobs c before = (case change_snapshot H blobs c before of Inl _ \<Rightarrow> None | Inr s \<Rightarrow> s)"

definition op_order :: "change_action \<Rightarrow> file_change list \<Rightarrow> file_change list" where
  "op_order action changes = (if action = UNDO then rev changes else changes)"

definition op_steps ::
  "(string \<Rightarrow> string) \<Rightarrow> blobs \<Rightarrow> change_action \<Rightarrow> file_change list \<Rightarrow> (string list \<times> digest_node) list" where
  "op_steps H blobs action changes =
     map (\<lambda>c. (parts c, digest_of H (snap_at H blobs c (action = UNDO)))) (op_order action changes)"





section \<open>Identifiers\<close>










section \<open>Snapshots in the blobs\<close>






section \<open>The rows and items of an operation\<close>

definition op_row ::
  "(string \<Rightarrow> string) \<Rightarrow> change_action \<Rightarrow> string \<Rightarrow> (nat \<Rightarrow> nat) \<Rightarrow> change_set \<Rightarrow> tree \<Rightarrow> blobs \<Rightarrow> nat \<Rightarrow>
   file_change \<Rightarrow> pending_mutation"
where
  "op_row H action opid clock cs t blobs i c =
     (let current = look t (parts c); desired = snap_at H blobs c (action = UNDO) in
      \<lparr>pm_id = operation_pending_id action opid i, pm_set = cs_id cs, pm_workspace = cs_workspace cs,
       pm_path = as_posix (parts c), pm_kind = kind_of current desired,
       pm_node_type = or_else (snapshot_type desired) (or_else (snapshot_type current) (fc_node_type c)),
       pm_before_type = snapshot_type current, pm_after_type = snapshot_type desired,
       pm_before_hash = snapshot_digest H current, pm_before_blob = content_digest H current,
       pm_before_mode = snapshot_mode current,
       pm_after_hash = snapshot_digest H desired, pm_after_blob = content_digest H desired,
       pm_after_mode = snapshot_mode desired, pm_created = clock i\<rparr>)"

lemma op_row_simps [simp]:
  "pm_id (op_row H action opid clock cs t blobs i c) = operation_pending_id action opid i"
  "pm_set (op_row H action opid clock cs t blobs i c) = cs_id cs"
  "pm_workspace (op_row H action opid clock cs t blobs i c) = cs_workspace cs"
  "pm_path (op_row H action opid clock cs t blobs i c) = as_posix (parts c)"
  by (simp_all add: op_row_def Let_def)













section \<open>Preparation\<close>








lemma set_op_order [simp]: "set (op_order action changes) = set changes"
  by (simp add: op_order_def)


section \<open>The restorations\<close>



text \<open>The state after \<open>k\<close> of the steps \<open>xs\<close>, begun in \<open>s0\<close>.\<close>

definition at_step ::
  "(string \<Rightarrow> string) \<Rightarrow> jstate \<Rightarrow> (string list \<times> digest_node) list \<Rightarrow> nat \<Rightarrow> change_set list \<Rightarrow>
   pending_mutation list \<Rightarrow> jstate \<Rightarrow> bool"
where
  "at_step H s0 xs k sets pend s \<longleftrightarrow>
     tracked (js_tree s0) (js_tree s) (fst ` set (take k xs)) \<and>
     abs_tree H (js_tree s) = apply_steps (abs_tree H (js_tree s0)) (take k xs) \<and>
     tr_root (js_tree s) = tr_root (js_tree s0) \<and> tr_link_mode (js_tree s) = tr_link_mode (js_tree s0) \<and>
     js_sets s = sets \<and> js_pending s = pend \<and> js_blobs s = js_blobs s0 \<and>
     (js_budget s0 = None \<longrightarrow> js_budget s = None)"

definition died_in :: "(jstate \<Rightarrow> bool) \<Rightarrow> change_error \<Rightarrow> jstate \<Rightarrow> bool" where
  "died_in P e s \<longleftrightarrow> e = Crashed \<and> P s \<and> js_budget s = Some 0"

lemma at_step_budget:
  "at_step H s0 xs k sets pend s \<Longrightarrow> (js_budget s = None \<longrightarrow> b = None) \<Longrightarrow>
     at_step H s0 xs k sets pend (s\<lparr>js_budget := b\<rparr>)"
  by (simp add: at_step_def)






section \<open>The log of intents\<close>







section \<open>A dead process changes nothing\<close>






section \<open>Every prefix of an operation\<close>


definition dead_in :: "(jstate \<Rightarrow> bool) \<Rightarrow> change_error \<Rightarrow> jstate \<Rightarrow> bool" where
  "dead_in P e s \<longleftrightarrow> P s \<and> js_budget s = Some 0"

lemma died_dead: "died_in P e s \<Longrightarrow> (P s \<Longrightarrow> P' s) \<Longrightarrow> dead_in P' e' s"
  by (simp add: died_in_def dead_in_def)




section \<open>The whole operation\<close>

definition op_rows ::
  "(string \<Rightarrow> string) \<Rightarrow> change_action \<Rightarrow> string \<Rightarrow> (nat \<Rightarrow> nat) \<Rightarrow> change_set \<Rightarrow> tree \<Rightarrow> blobs \<Rightarrow>
   file_change list \<Rightarrow> pending_mutation list"
where
  "op_rows H action opid clock cs t blobs ops =
     map (\<lambda>i. op_row H action opid clock cs t blobs i (ops ! i)) [0..<length ops]"



lemma length_op_order [simp]: "length (op_order action changes) = length changes"
  by (simp add: op_order_def)




definition open_tree :: "jstate \<Rightarrow> jstate" where
  "open_tree s = s\<lparr>js_tree := (js_tree s)\<lparr>tr_created := {}\<rparr>\<rparr>"

definition close_tree :: "jstate \<Rightarrow> jstate" where
  "close_tree s = s\<lparr>js_tree := close_transaction (js_tree s)\<rparr>"






lemma at_step_budget_stop: "at_step H s0 xs k sets pend s \<Longrightarrow> js_budget s0 = None \<Longrightarrow> js_budget s = None"
  by (simp add: at_step_def)



section \<open>Undo and redo are inverse\<close>

definition opposite :: "change_action \<Rightarrow> change_action" where
  "opposite action = (if action = UNDO then REDO else UNDO)"





section \<open>Every intermediate tree can be bound\<close>



section \<open>The rows say what the paths were\<close>




section \<open>Rolling an operation back\<close>














section \<open>One batch of operation rows\<close>








lemma lifecycle_neq [simp]: "source_lifecycle action \<noteq> committed_lifecycle action"
  by (cases action) (simp_all add: source_lifecycle_def committed_lifecycle_def)



section \<open>Recovery of an operation\<close>



lemma length_op_steps [simp]: "length (op_steps H blobs action changes) = length changes"
  by (simp add: op_steps_def)





text \<open>The state the next process finds.\<close>

definition restarted :: "jstate \<Rightarrow> jstate" where
  "restarted s = reboot (close_tree s)"

lemma restarted_simps [simp]:
  "abs_tree H (js_tree (restarted s)) = abs_tree H (js_tree s)" "good_tree (js_tree (restarted s)) = good_tree (js_tree s)"
  "tr_root (js_tree (restarted s)) = tr_root (js_tree s)" "tr_link_mode (js_tree (restarted s)) = tr_link_mode (js_tree s)"
  "js_sets (restarted s) = js_sets s" "js_pending (restarted s) = js_pending s" "js_blobs (restarted s) = js_blobs s"
  "js_budget (restarted s) = None"
  by (simp_all add: restarted_def reboot_def close_tree_def) (simp add: close_transaction_def)

lemma open_tree_simps [simp]:
  "abs_tree H (js_tree (open_tree s)) = abs_tree H (js_tree s)" "good_tree (js_tree (open_tree s)) = good_tree (js_tree s)"
  "look (js_tree (open_tree s)) = look (js_tree s)"
  "tr_root (js_tree (open_tree s)) = tr_root (js_tree s)" "tr_link_mode (js_tree (open_tree s)) = tr_link_mode (js_tree s)"
  "js_sets (open_tree s) = js_sets s" "js_pending (open_tree s) = js_pending s" "js_blobs (open_tree s) = js_blobs s"
  "js_budget (open_tree s) = js_budget s"
  by (simp_all add: open_tree_def)

lemma close_tree_simps [simp]:
  "abs_tree H (js_tree (close_tree s)) = abs_tree H (js_tree s)" "js_sets (close_tree s) = js_sets s"
  "js_pending (close_tree s) = js_pending s"
  by (simp_all add: close_tree_def)

lemma op_row_open [simp]: "op_rows H action opid clock cs (js_tree (open_tree s)) blobs ops =
    op_rows H action opid clock cs (js_tree s) blobs ops"
  by (simp add: op_rows_def op_row_def Let_def)






lemma map_nth_upt: "map ((!) xs) [0..<length xs] = xs"
  by (rule map_nth)





section \<open>Properties\<close>








lemma opposite_simps [simp]:
  "source_lifecycle (opposite action) = committed_lifecycle action"
  "committed_lifecycle (opposite action) = source_lifecycle action"
  "(opposite action = UNDO) = (action = REDO)" "(opposite action = REDO) = (action = UNDO)"
  by (cases action; simp add: opposite_def source_lifecycle_def committed_lifecycle_def)+




section \<open>A sample operation\<close>

definition created :: "string \<Rightarrow> file_node_type \<Rightarrow> string \<Rightarrow> nat \<Rightarrow> file_change" where
  "created path node_type content mode =
     \<lparr>fc_mutation_id = None, fc_path = path, fc_kind = CREATED, fc_node_type = node_type,
      fc_before_type = None, fc_after_type = Some node_type, fc_before_hash = None,
      fc_after_hash = Some (sample_digest content), fc_before_blob = None,
      fc_after_blob = (if node_type = DIRECTORY then None else Some (sample_digest content)),
      fc_before_mode = None, fc_after_mode = Some mode\<rparr>"

definition sample_updated :: file_change where
  "sample_updated =
      \<lparr>fc_mutation_id = None, fc_path = ''a'', fc_kind = UPDATED, fc_node_type = FILE,
       fc_before_type = Some FILE, fc_after_type = Some FILE, fc_before_hash = Some (sample_digest ''old''),
       fc_after_hash = Some (sample_digest ''new''), fc_before_blob = Some (sample_digest ''old''),
       fc_after_blob = Some (sample_digest ''new''), fc_before_mode = Some 420, fc_after_mode = Some 420\<rparr>"

abbreviation sample_dir :: file_change where
  "sample_dir \<equiv> created ''d'' DIRECTORY [] 493"

abbreviation sample_file :: file_change where
  "sample_file \<equiv> created ''d/f'' FILE ''new'' 420"

definition sample_changes :: "file_change list" where
  "sample_changes = [sample_dir, sample_file, sample_updated]"

definition sample_applied :: change_set where
  "sample_applied = sample_set\<lparr>cs_lifecycle := APPLIED, cs_files := sample_changes, cs_sealed := Some 1\<rparr>"

definition sample_after :: tree where
  "sample_after =
     \<lparr>tr_nodes =
        [([''a''], \<lparr>nd_kind = DFile, nd_content = ''new'', nd_mode = 420, nd_ident = 7\<rparr>),
         ([''d''], \<lparr>nd_kind = DDir, nd_content = [], nd_mode = 493, nd_ident = 8\<rparr>),
         ([''d'', ''f''], \<lparr>nd_kind = DFile, nd_content = ''new'', nd_mode = 420, nd_ident = 9\<rparr>)],
      tr_next = 10, tr_root = 1, tr_created = {}, tr_file_mode = 420, tr_dir_mode = 493, tr_link_mode = 511\<rparr>"

definition sample_blobs :: blobs where
  "sample_blobs = [sample_digest ''old'' \<mapsto> ''old'', sample_digest ''new'' \<mapsto> ''new'']"

definition sample_done :: "nat option \<Rightarrow> jstate" where
  "sample_done budget =
     \<lparr>js_tree = sample_after, js_sets = [sample_applied], js_pending = [], js_blobs = sample_blobs,
      js_activities = [], js_budget = budget\<rparr>"

lemma sample_done_fields [simp]:
  "js_tree (sample_done b) = sample_after" "js_sets (sample_done b) = [sample_applied]"
  "js_pending (sample_done b) = []" "js_blobs (sample_done b) = sample_blobs" "js_budget (sample_done b) = b"
  by (simp_all add: sample_done_def)


lemma sample_parts [simp]:
  "parts sample_dir = [''d'']" "parts sample_file = [''d'', ''f'']" "parts sample_updated = [''a'']"
  by code_simp+

lemma sample_snapshots [simp]:
  "change_snapshot sample_digest sample_blobs sample_dir True = Inr None"
  "change_snapshot sample_digest sample_blobs sample_dir False =
     Inr (Some \<lparr>ns_type = DIRECTORY, ns_content = None, ns_mode = Some 493\<rparr>)"
  "change_snapshot sample_digest sample_blobs sample_file True = Inr None"
  "change_snapshot sample_digest sample_blobs sample_file False =
     Inr (Some \<lparr>ns_type = FILE, ns_content = Some ''new'', ns_mode = Some 420\<rparr>)"
  "change_snapshot sample_digest sample_blobs sample_updated True =
     Inr (Some \<lparr>ns_type = FILE, ns_content = Some ''old'', ns_mode = Some 420\<rparr>)"
  "change_snapshot sample_digest sample_blobs sample_updated False =
     Inr (Some \<lparr>ns_type = FILE, ns_content = Some ''new'', ns_mode = Some 420\<rparr>)"
  by code_simp+











end
