(* ===== verification/Modeling.thy ===== *)
theory Modeling
  imports Prelude Complex_Main
begin

text \<open>
  \<open>modeling/\<close>: messages, tool calls, usage, errors and stream events, and the
  gateway that streams one model turn from a provider with bounded retries.
  What a provider does at its attempt number \<open>i\<close> is the argument
  \<open>attempts i\<close>: the events it yields and how its stream ends.  Delays are
  rational numbers.
\<close>

section \<open>JSON values\<close>

datatype json =
    JNull
  | JBool bool
  | JInt int
  | JFloat rat
  | JString string
  | JList "json list"
  | JObject "(string \<times> json) list"

section \<open>Turns\<close>

datatype provider_id = DEEPSEEK | KIMI

record selected_model =
  sm_provider :: provider_id
  sm_model :: string

record tool_call =
  tc_id :: string
  tc_name :: string
  tc_arguments :: string

datatype model_message =
    SystemMessage string
  | UserMessage string
  | AssistantMessage string "tool_call list"
  | ToolResultMessage string string bool

datatype stop_reason = COMPLETED | TOOL_CALLS | MAX_TOKENS | CONTENT_FILTER | UNKNOWN_STOP

definition stop_value :: "stop_reason \<Rightarrow> string" where
  "stop_value r =
     (case r of COMPLETED \<Rightarrow> ''completed'' | TOOL_CALLS \<Rightarrow> ''tool_calls'' | MAX_TOKENS \<Rightarrow> ''max_tokens''
      | CONTENT_FILTER \<Rightarrow> ''content_filter'' | UNKNOWN_STOP \<Rightarrow> ''unknown'')"

record model_usage =
  mu_input :: nat
  mu_output :: nat
  mu_reasoning :: nat
  mu_cache_read :: nat
  mu_cache_write :: nat
  mu_retries :: nat

definition no_usage :: model_usage where
  "no_usage = \<lparr>mu_input = 0, mu_output = 0, mu_reasoning = 0, mu_cache_read = 0, mu_cache_write = 0,
     mu_retries = 0\<rparr>"

record continuation_state =
  ct_provider :: provider_id
  ct_kind :: string
  ct_data :: json

record model_turn =
  mt_provider :: provider_id
  mt_model :: string
  mt_content :: string
  mt_tool_calls :: "tool_call list"
  mt_stop :: stop_reason
  mt_usage :: model_usage
  mt_response_id :: "string option"
  mt_continuation :: "continuation_state option"

section \<open>Errors\<close>

datatype model_error_code =
    CONNECTION | TIMEOUT | AUTHENTICATION | RATE_LIMIT | TRANSIENT | INVALID_REQUEST
  | CONTEXT_LENGTH | PROVIDER_PROTOCOL

definition error_value :: "model_error_code \<Rightarrow> string" where
  "error_value c =
     (case c of CONNECTION \<Rightarrow> ''connection'' | TIMEOUT \<Rightarrow> ''timeout'' | AUTHENTICATION \<Rightarrow> ''authentication''
      | RATE_LIMIT \<Rightarrow> ''rate_limit'' | TRANSIENT \<Rightarrow> ''transient'' | INVALID_REQUEST \<Rightarrow> ''invalid_request''
      | CONTEXT_LENGTH \<Rightarrow> ''context_length'' | PROVIDER_PROTOCOL \<Rightarrow> ''provider_protocol'')"

definition retryable_code :: "model_error_code \<Rightarrow> bool" where
  "retryable_code c \<longleftrightarrow> c = CONNECTION \<or> c = TIMEOUT \<or> c = RATE_LIMIT \<or> c = TRANSIENT"

record model_error_info =
  me_code :: model_error_code
  me_message :: string
  me_retryable :: bool
  me_provider :: provider_id
  me_status :: "nat option"

text \<open>The info of the error class that the code selects.\<close>

definition error_from_info :: "model_error_info \<Rightarrow> model_error_info" where
  "error_from_info info = info\<lparr>me_retryable := retryable_code (me_code info)\<rparr>"

definition protocol_error :: "string \<Rightarrow> provider_id \<Rightarrow> model_error_info" where
  "protocol_error message provider =
     \<lparr>me_code = PROVIDER_PROTOCOL, me_message = message, me_retryable = False,
      me_provider = provider, me_status = None\<rparr>"

section \<open>The gateway\<close>

datatype stream_event =
    ReasoningStarted
  | ReasoningDelta string
  | TextDelta string
  | ToolCallStarted nat string string
  | ToolArgumentsDelta nat string
  | TurnCompleted model_turn
  | TurnFailed model_error_info

datatype gateway_event =
    StreamEvent stream_event
  | ProviderRetrying nat nat rat model_error_code

datatype stream_end = StreamEnds | RaisesModelError model_error_info | RaisesUnexpected

type_synonym provider_attempt = "stream_event list \<times> stream_end"

record retry_policy =
  rp_max_retries :: nat
  rp_base_delay :: rat
  rp_max_delay :: rat

definition visible_event :: "stream_event \<Rightarrow> bool" where
  "visible_event e = (case e of TurnCompleted _ \<Rightarrow> False | TurnFailed _ \<Rightarrow> False | _ \<Rightarrow> True)"

definition with_retry_usage :: "model_turn \<Rightarrow> nat \<Rightarrow> model_turn" where
  "with_retry_usage t retries =
     (if retries = 0 then t
      else t\<lparr>mt_usage := (mt_usage t)\<lparr>mu_retries := mu_retries (mt_usage t) + retries\<rparr>\<rparr>)"

text \<open>One attempt: what the gateway yields, and the error that makes it retry.\<close>

definition may_retry :: "retry_policy \<Rightarrow> nat \<Rightarrow> bool \<Rightarrow> bool \<Rightarrow> model_error_info \<Rightarrow> bool" where
  "may_retry policy retries visible completed info \<longleftrightarrow>
     me_retryable info \<and> \<not> visible \<and> \<not> completed \<and> retries < rp_max_retries policy"

fun pump ::
  "retry_policy \<Rightarrow> selected_model \<Rightarrow> nat \<Rightarrow> bool \<Rightarrow> bool \<Rightarrow> stream_event list \<Rightarrow> stream_end \<Rightarrow>
   gateway_event list \<times> model_error_info option"
where
  "pump policy sel retries visible completed [] ending =
     (case ending of
        StreamEnds \<Rightarrow> ([], None)
      | RaisesModelError info \<Rightarrow>
          if may_retry policy retries visible completed info then ([], Some info)
          else ([StreamEvent (TurnFailed info)], None)
      | RaisesUnexpected \<Rightarrow>
          ([StreamEvent (TurnFailed
              (protocol_error ''Provider stream raised an unexpected exception.'' (sm_provider sel)))], None))"
| "pump policy sel retries visible completed (e # es) ending =
     (let visible = (visible \<or> visible_event e) in
      case e of
        TurnCompleted turn \<Rightarrow>
          if mt_provider turn \<noteq> sm_provider sel \<or> mt_model turn \<noteq> sm_model sel
          then ([StreamEvent (TurnFailed
                   (protocol_error ''Provider completed a different frozen model.'' (sm_provider sel)))], None)
          else (case pump policy sel retries visible True es ending of
                  (out, retry) \<Rightarrow> (StreamEvent (TurnCompleted (with_retry_usage turn retries)) # out, retry))
      | TurnFailed info \<Rightarrow>
          let error = error_from_info info in
          if may_retry policy retries visible completed error then ([], Some error)
          else ([StreamEvent (TurnFailed info)], None)
      | _ \<Rightarrow>
          (case pump policy sel retries visible completed es ending of
             (out, retry) \<Rightarrow> (StreamEvent e # out, retry)))"

definition retry_delay :: "retry_policy \<Rightarrow> nat \<Rightarrow> rat" where
  "retry_delay policy retries = min (rp_base_delay policy * 2 ^ retries) (rp_max_delay policy)"

lemma pump_retry:
  "pump policy sel retries visible completed es ending = (out, Some info) \<Longrightarrow>
     retries < rp_max_retries policy \<and> (\<not> visible \<and> \<not> completed \<and> out = [] \<and> me_retryable info)"
proof (induction es arbitrary: visible completed out)
  case Nil
  then show ?case by (auto simp: may_retry_def split: stream_end.splits if_splits)
next
  case (Cons e es)
  show ?case
    using Cons.prems
    by (cases e)
      (auto simp: visible_event_def Let_def may_retry_def split: prod.splits if_splits dest: Cons.IH)
qed

function gateway_from ::
  "retry_policy \<Rightarrow> selected_model \<Rightarrow> (nat \<Rightarrow> provider_attempt) \<Rightarrow> nat \<Rightarrow> gateway_event list"
where
  "gateway_from policy sel attempts retries =
     (case pump policy sel retries False False (fst (attempts retries)) (snd (attempts retries)) of
        (out, None) \<Rightarrow> out
      | (out, Some info) \<Rightarrow>
          out @ ProviderRetrying (retries + 2) (rp_max_retries policy + 1)
                  (retry_delay policy retries) (me_code info)
              # gateway_from policy sel attempts (retries + 1))"
  by pat_completeness auto

termination
  by (relation "measure (\<lambda>(policy, _, _, retries). rp_max_retries policy - retries)")
    (auto dest: pump_retry [OF sym])

declare gateway_from.simps [simp del]

text \<open>\<open>ModelGateway.stream\<close>: the events, and the error it raises.\<close>

definition gateway_stream ::
  "(provider_id \<Rightarrow> (nat \<Rightarrow> provider_attempt) option) \<Rightarrow> retry_policy \<Rightarrow> selected_model \<Rightarrow>
   gateway_event list \<times> model_error_info option"
where
  "gateway_stream providers policy sel =
     (case providers (sm_provider sel) of
        None \<Rightarrow> ([], Some (protocol_error ''Selected Provider is not available in this Gateway.'' (sm_provider sel)))
      | Some attempts \<Rightarrow> (gateway_from policy sel attempts 0, None))"

fun completed_turns :: "gateway_event list \<Rightarrow> model_error_info + model_turn list" where
  "completed_turns [] = Inr []"
| "completed_turns (e # es) =
     (case e of
        StreamEvent (TurnFailed info) \<Rightarrow> Inl (error_from_info info)
      | StreamEvent (TurnCompleted turn) \<Rightarrow>
          (case completed_turns es of Inl info \<Rightarrow> Inl info | Inr turns \<Rightarrow> Inr (turn # turns))
      | _ \<Rightarrow> completed_turns es)"

definition gateway_complete ::
  "(provider_id \<Rightarrow> (nat \<Rightarrow> provider_attempt) option) \<Rightarrow> retry_policy \<Rightarrow> selected_model \<Rightarrow>
   model_error_info + model_turn"
where
  "gateway_complete providers policy sel =
     (case gateway_stream providers policy sel of
        (_, Some info) \<Rightarrow> Inl info
      | (events, None) \<Rightarrow>
          (case completed_turns events of
             Inl info \<Rightarrow> Inl info
           | Inr turns \<Rightarrow>
               if length turns \<noteq> 1
               then Inl (protocol_error ''Gateway requires exactly one completed model turn.'' (sm_provider sel))
               else Inr (hd turns)))"

section \<open>What a stream looks like\<close>

text \<open>The event is one of the selected model's, after the given number of retries.\<close>

definition settled_event :: "selected_model \<Rightarrow> nat \<Rightarrow> gateway_event \<Rightarrow> bool" where
  "settled_event sel retries e =
     (case e of
        ProviderRetrying _ _ _ _ \<Rightarrow> False
      | StreamEvent (TurnCompleted turn) \<Rightarrow>
          mt_provider turn = sm_provider sel \<and> mt_model turn = sm_model sel \<and> retries \<le> mu_retries (mt_usage turn)
      | _ \<Rightarrow> True)"

lemma settled_event_simps [simp]:
  "settled_event sel n (ProviderRetrying a b c d) = False"
  "settled_event sel n (StreamEvent (TurnCompleted turn)) \<longleftrightarrow>
     mt_provider turn = sm_provider sel \<and> mt_model turn = sm_model sel \<and> n \<le> mu_retries (mt_usage turn)"
  "settled_event sel n (StreamEvent (TurnFailed info))" "settled_event sel n (StreamEvent ReasoningStarted)"
  "settled_event sel n (StreamEvent (ReasoningDelta s))" "settled_event sel n (StreamEvent (TextDelta s))"
  "settled_event sel n (StreamEvent (ToolCallStarted i s s'))" "settled_event sel n (StreamEvent (ToolArgumentsDelta i s))"
  by (simp_all add: settled_event_def)


fun retry_notices :: "retry_policy \<Rightarrow> nat \<Rightarrow> model_error_info list \<Rightarrow> gateway_event list" where
  "retry_notices policy k [] = []"
| "retry_notices policy k (info # infos) =
     ProviderRetrying (k + 2) (rp_max_retries policy + 1) (retry_delay policy k) (me_code info)
       # retry_notices policy (Suc k) infos"

text \<open>The events of the attempt that is not retried.\<close>

abbreviation last_attempt ::
  "retry_policy \<Rightarrow> selected_model \<Rightarrow> (nat \<Rightarrow> provider_attempt) \<Rightarrow> nat \<Rightarrow> gateway_event list" where
  "last_attempt policy sel attempts n \<equiv>
     fst (pump policy sel n False False (fst (attempts n)) (snd (attempts n)))"

lemma gateway_from_shape:
  assumes "k \<le> rp_max_retries policy"
  shows "\<exists>failures. k + length failures \<le> rp_max_retries policy \<and> list_all me_retryable failures \<and>
     gateway_from policy sel attempts k =
       retry_notices policy k failures @ last_attempt policy sel attempts (k + length failures)"
  using assms
proof (induction "rp_max_retries policy - k" arbitrary: k rule: less_induct)
  case less
  obtain out retry where p: "pump policy sel k False False (fst (attempts k)) (snd (attempts k)) = (out, retry)"
    by fastforce
  show ?case
  proof (cases retry)
    case None
    with p have "gateway_from policy sel attempts k = last_attempt policy sel attempts k"
      by (subst gateway_from.simps) simp
    with less.prems show ?thesis by (intro exI [of _ "[]"]) simp
  next
    case (Some info)
    note r = pump_retry [OF p [unfolded Some]]
    have smaller: "rp_max_retries policy - Suc k < rp_max_retries policy - k" using r by arith
    obtain failures where f: "Suc k + length failures \<le> rp_max_retries policy" "list_all me_retryable failures"
      "gateway_from policy sel attempts (Suc k) =
         retry_notices policy (Suc k) failures @ last_attempt policy sel attempts (Suc k + length failures)"
      using less.hyps [OF smaller] r by auto
    have "gateway_from policy sel attempts k =
        ProviderRetrying (k + 2) (rp_max_retries policy + 1) (retry_delay policy k) (me_code info)
          # gateway_from policy sel attempts (Suc k)"
      using p r Some by (subst gateway_from.simps) simp
    with f r show ?thesis by (intro exI [of _ "info # failures"]) simp
  qed
qed


section \<open>The contract of a gateway\<close>

text \<open>What a caller that counts retries relies on: a completed turn reports the retry
  notices that went before it.\<close>

fun reports_retries :: "nat \<Rightarrow> gateway_event list \<Rightarrow> bool" where
  "reports_retries n [] = True"
| "reports_retries n (ProviderRetrying _ _ _ _ # es) = reports_retries (Suc n) es"
| "reports_retries n (StreamEvent (TurnCompleted turn) # es) =
     (mu_retries (mt_usage turn) = n \<and> reports_retries n es)"
| "reports_retries n (StreamEvent _ # es) = reports_retries n es"

text \<open>The providers of the repository leave the retries of a usage at zero.\<close>

definition counts_no_retries :: "provider_attempt \<Rightarrow> bool" where
  "counts_no_retries a =
     list_all (\<lambda>e. case e of TurnCompleted turn \<Rightarrow> mu_retries (mt_usage turn) = 0 | _ \<Rightarrow> True) (fst a)"

lemma reports_notices:
  "reports_retries k (retry_notices policy i failures @ es) = reports_retries (k + length failures) es"
  by (induction failures arbitrary: k i) simp_all

lemma pump_reports:
  "list_all (\<lambda>e. case e of TurnCompleted turn \<Rightarrow> mu_retries (mt_usage turn) = 0 | _ \<Rightarrow> True) es \<Longrightarrow>
     reports_retries n (fst (pump policy sel n visible completed es ending))"
proof (induction es arbitrary: visible completed)
  case Nil
  show ?case by (simp split: stream_end.split)
next
  case (Cons e es)
  then show ?case
    by (cases e) (simp_all add: Let_def with_retry_usage_def split_beta)
qed

locale counting_gateway =
  fixes stream :: "selected_model \<Rightarrow> gateway_event list \<times> model_error_info option"
  assumes counted: "reports_retries 0 (fst (stream sel))"
begin

lemma completed_counts:
  assumes "fst (stream sel) = es @ StreamEvent (TurnCompleted turn) # es'"
  shows "mu_retries (mt_usage turn) = length (filter (\<lambda>e. case e of ProviderRetrying _ _ _ _ \<Rightarrow> True | _ \<Rightarrow> False) es)"
proof -
  have "reports_retries n (es @ StreamEvent (TurnCompleted turn) # es') \<Longrightarrow>
      mu_retries (mt_usage turn) = n + length (filter (\<lambda>e. case e of ProviderRetrying _ _ _ _ \<Rightarrow> True | _ \<Rightarrow> False) es)" for n
    by (induction n es rule: reports_retries.induct) auto
  from this [of 0] counted [of sel] assms show ?thesis by simp
qed

end

text \<open>A provider table that only has attempts which count no retries.\<close>

definition with_attempts :: "(provider_id \<Rightarrow> (nat \<Rightarrow> provider_attempt) option) \<Rightarrow> provider_id \<Rightarrow> (nat \<Rightarrow> provider_attempt) option"
where
  "with_attempts providers p =
     map_option (\<lambda>attempts i. if counts_no_retries (attempts i) then attempts i else ([], StreamEnds)) (providers p)"

lemma gateway_from_reports:
  assumes "\<And>i. counts_no_retries (attempts i)"
  shows "reports_retries 0 (gateway_from policy sel attempts 0)"
  using gateway_from_shape [of 0 policy sel attempts] assms
  by (auto simp: reports_notices pump_reports counts_no_retries_def)

interpretation gateway: counting_gateway "gateway_stream (with_attempts providers) policy" for providers policy
proof
  fix sel
  show "reports_retries 0 (fst (gateway_stream (with_attempts providers) policy sel))"
    by (auto simp: gateway_stream_def with_attempts_def counts_no_retries_def intro!: gateway_from_reports split: option.split)
qed

end
