(* ===== verification/Citations.thy ===== *)
theory Citations
  imports Prelude "HOL-Library.AList"
begin

text \<open>
  \<open>core/citations.py\<close>: the citations of a turn and the allocator that gives
  each source URL one identity \<open>S1\<close>, \<open>S2\<close>, ... .  The verdict of
  \<open>urlsplit\<close> and of pydantic's \<open>AnyUrl\<close> on a URL is the parameter
  \<open>locator_ok\<close>.
\<close>

record citation =
  ci_id :: string
  ci_title :: string
  ci_url :: string

datatype citation_error =
    InvalidCitation
  | IdentitiesNotContiguous
  | UrlsNotUnique
  | TooManySources

section \<open>Valid citations\<close>

definition MAX_TURN_CITATIONS :: nat where
  "MAX_TURN_CITATIONS = 128"

text \<open>\<open>^S[1-9][0-9]{0,5}$\<close>\<close>

definition valid_citation_id :: "string \<Rightarrow> bool" where
  "valid_citation_id s \<longleftrightarrow>
     (case s of
        c # d # ds \<Rightarrow> c = CHR ''S'' \<and> is_digit d \<and> d \<noteq> CHR ''0'' \<and> length ds \<le> 5 \<and> list_all is_digit ds
      | _ \<Rightarrow> False)"

definition control_char :: "char \<Rightarrow> bool" where
  "control_char c \<longleftrightarrow> (let n = (of_char c :: nat) in n < 32 \<or> (127 \<le> n \<and> n \<le> 159))"

definition valid_title :: "string \<Rightarrow> bool" where
  "valid_title t \<longleftrightarrow>
     1 \<le> length t \<and> length t \<le> 500 \<and> strip t \<noteq> [] \<and> \<not> list_ex control_char t"

definition valid_url :: "(string \<Rightarrow> bool) \<Rightarrow> string \<Rightarrow> bool" where
  "valid_url locator_ok u \<longleftrightarrow>
     1 \<le> length u \<and> length u \<le> 8000 \<and> \<not> list_ex (\<lambda>c. control_char c \<or> is_space c) u \<and>
     CHR 0x5C \<notin> set u \<and> locator_ok u"

definition make_citation :: "(string \<Rightarrow> bool) \<Rightarrow> string \<Rightarrow> string \<Rightarrow> string \<Rightarrow> citation_error + citation" where
  "make_citation locator_ok ident title url =
     (if valid_citation_id ident \<and> valid_title title \<and> valid_url locator_ok url
      then Inr \<lparr>ci_id = ident, ci_title = title, ci_url = url\<rparr> else Inl InvalidCitation)"

section \<open>The allocator\<close>

text \<open>\<open>_ordered\<close> and \<open>_by_url\<close>.\<close>

record allocator =
  al_ordered :: "citation list"
  al_by_url :: "(string \<times> citation) list"

definition source_id :: "nat \<Rightarrow> string" where
  "source_id n = ''S'' @ decimal n"

fun load_citations :: "nat \<Rightarrow> citation list \<Rightarrow> allocator \<Rightarrow> citation_error + allocator" where
  "load_citations index [] a = Inr a"
| "load_citations index (c # cs) a =
     (if ci_id c \<noteq> source_id index then Inl IdentitiesNotContiguous
      else if map_of (al_by_url a) (ci_url c) \<noteq> None then Inl UrlsNotUnique
      else load_citations (index + 1) cs
             \<lparr>al_ordered = al_ordered a @ [c], al_by_url = AList.update (ci_url c) c (al_by_url a)\<rparr>)"

definition new_allocator :: "citation list \<Rightarrow> citation_error + allocator" where
  "new_allocator existing = load_citations 1 existing \<lparr>al_ordered = [], al_by_url = []\<rparr>"

definition allocate :: "(string \<Rightarrow> bool) \<Rightarrow> string \<Rightarrow> string \<Rightarrow> (allocator, citation_error, citation) eff" where
  "allocate locator_ok title url =
     sbind (gets (\<lambda>a. map_of (al_by_url a) url)) (\<lambda>previous.
       case previous of
         Some c \<Rightarrow> ret c
       | None \<Rightarrow>
           sbind (gets (\<lambda>a. length (al_ordered a))) (\<lambda>n.
           andthen (guard_else (n < MAX_TURN_CITATIONS) TooManySources)
          (sbind (lift_result (make_citation locator_ok (source_id (n + 1)) title url)) (\<lambda>c.
           andthen (modify (\<lambda>a. \<lparr>al_ordered = al_ordered a @ [c],
                                 al_by_url = AList.update (ci_url c) c (al_by_url a)\<rparr>))
          (ret c)))))"

definition snapshot :: "allocator \<Rightarrow> citation list" where
  "snapshot a = al_ordered a"

section \<open>The invariant\<close>

text \<open>Identities count from one, no URL has two, and the dictionary is that of the list.\<close>

definition numbered :: "citation list \<Rightarrow> bool" where
  "numbered cs \<longleftrightarrow> map ci_id cs = map source_id [1..<length cs + 1]"

definition allocator_ok :: "allocator \<Rightarrow> bool" where
  "allocator_ok a \<longleftrightarrow>
     numbered (al_ordered a) \<and> distinct (map ci_url (al_ordered a)) \<and>
     (\<forall>u. map_of (al_by_url a) u = List.find (\<lambda>c. ci_url c = u) (al_ordered a))"

lemma source_id_inject [simp]: "source_id m = source_id n \<longleftrightarrow> m = n"
  by (simp add: source_id_def)

lemma numbered_snoc: "numbered (cs @ [c]) \<longleftrightarrow> numbered cs \<and> ci_id c = source_id (length cs + 1)"
  by (auto simp: numbered_def)

lemma numbered_distinct: "numbered cs \<Longrightarrow> distinct (map ci_id cs)"
  unfolding numbered_def by (simp add: distinct_map inj_on_def)

lemma find_snoc: "List.find P (xs @ [x]) = (case List.find P xs of None \<Rightarrow> (if P x then Some x else None) | Some y \<Rightarrow> Some y)"
  by (induction xs) auto

lemma allocator_ok_add:
  assumes "allocator_ok a" and "ci_id c = source_id (length (al_ordered a) + 1)"
    and "map_of (al_by_url a) (ci_url c) = None"
  shows "allocator_ok \<lparr>al_ordered = al_ordered a @ [c], al_by_url = AList.update (ci_url c) c (al_by_url a)\<rparr>"
proof -
  have none: "List.find (\<lambda>d. ci_url d = ci_url c) (al_ordered a) = None"
    using assms(1,3) by (simp add: allocator_ok_def)
  then have fresh: "ci_url c \<notin> ci_url ` set (al_ordered a)" by (auto simp: find_None_iff)
  have "map_of (AList.update (ci_url c) c (al_by_url a)) u =
      List.find (\<lambda>d. ci_url d = u) (al_ordered a @ [c])" for u
    using assms(1) none by (cases "u = ci_url c") (auto simp: allocator_ok_def update_conv find_snoc split: option.split)
  with assms fresh show ?thesis by (simp add: allocator_ok_def numbered_snoc)
qed

lemma load_citations_ok:
  "allocator_ok a \<Longrightarrow> index = length (al_ordered a) + 1 \<Longrightarrow> load_citations index cs a = Inr a' \<Longrightarrow>
     allocator_ok a' \<and> al_ordered a' = al_ordered a @ cs"
proof (induction cs arbitrary: index a)
  case (Cons c cs)
  let ?a = "\<lparr>al_ordered = al_ordered a @ [c], al_by_url = AList.update (ci_url c) c (al_by_url a)\<rparr>"
  have "ci_id c = source_id (length (al_ordered a) + 1)" "map_of (al_by_url a) (ci_url c) = None"
    and run: "load_citations (index + 1) cs ?a = Inr a'"
    using Cons.prems by (auto split: if_splits)
  from allocator_ok_add [OF Cons.prems(1) this(1,2)] have "allocator_ok ?a" .
  from Cons.IH [OF this _ run] Cons.prems(2) show ?case by simp
qed simp

text \<open>A turn asks for sources one after the other, and goes on when one is refused.\<close>

fun allocations :: "(string \<Rightarrow> bool) \<Rightarrow> (string \<times> string) list \<Rightarrow> allocator \<Rightarrow> (citation_error + citation) list \<times> allocator" where
  "allocations locator_ok [] a = ([], a)"
| "allocations locator_ok ((title, url) # rest) a =
     (case allocate locator_ok title url a of
        (r, a') \<Rightarrow> (case allocations locator_ok rest a' of (rs, a'') \<Rightarrow> (r # rs, a'')))"

lemma allocate_cases:
  assumes "allocator_ok a"
  obtains (known) c where "List.find (\<lambda>c. ci_url c = url) (al_ordered a) = Some c" "allocate locator_ok title url a = (Inr c, a)"
  | (refused) e where "allocate locator_ok title url a = (Inl e, a)"
  | (added) c a' where "allocate locator_ok title url a = (Inr c, a')" "al_ordered a' = al_ordered a @ [c]"
      "ci_url c = url" "allocator_ok a'" "length (al_ordered a) < MAX_TURN_CITATIONS"
      "valid_title (ci_title c)" "valid_url locator_ok (ci_url c)" "List.find (\<lambda>c. ci_url c = url) (al_ordered a) = None"
proof (cases "map_of (al_by_url a) url")
  case (Some c)
  with assms have "List.find (\<lambda>c. ci_url c = url) (al_ordered a) = Some c" by (simp add: allocator_ok_def)
  moreover have "allocate locator_ok title url a = (Inr c, a)" using Some by (simp add: allocate_def)
  ultimately show ?thesis by (rule known)
next
  case None
  show ?thesis
  proof (cases "length (al_ordered a) < MAX_TURN_CITATIONS \<and>
      (\<exists>c. make_citation locator_ok (source_id (length (al_ordered a) + 1)) title url = Inr c)")
    case True
    then obtain c where c: "make_citation locator_ok (source_id (length (al_ordered a) + 1)) title url = Inr c"
      by blast
    then have f: "ci_id c = source_id (length (al_ordered a) + 1)" "ci_url c = url"
      "valid_title (ci_title c)" "valid_url locator_ok (ci_url c)"
      by (auto simp: make_citation_def split: if_splits)
    let ?a = "\<lparr>al_ordered = al_ordered a @ [c], al_by_url = AList.update (ci_url c) c (al_by_url a)\<rparr>"
    have "allocate locator_ok title url a = (Inr c, ?a)"
      using True c None by (simp add: allocate_def sbind_def [of "lift_result _"])
    moreover have "allocator_ok ?a"
      by (rule allocator_ok_add [OF assms]) (use f None in simp_all)
    moreover have "List.find (\<lambda>c. ci_url c = url) (al_ordered a) = None" using assms None by (simp add: allocator_ok_def)
    ultimately show ?thesis using True f by (intro added [of c ?a]) simp_all
  next
    case False
    then have "\<exists>e. allocate locator_ok title url a = (Inl e, a)"
      using None
      by (cases "make_citation locator_ok (source_id (length (al_ordered a) + 1)) title url")
        (auto simp: allocate_def sbind_def [of "lift_result _"])
    then show ?thesis using refused by blast
  qed
qed

text \<open>What the allocator still has when more sources are asked for.\<close>

lemma allocations_extend:
  assumes "allocator_ok a" and "length (al_ordered a) \<le> MAX_TURN_CITATIONS"
    and "allocations locator_ok reqs a = (rs, a')"
  shows "allocator_ok a' \<and> length (al_ordered a') \<le> MAX_TURN_CITATIONS \<and>
    (\<exists>new. al_ordered a' = al_ordered a @ new \<and> list_all (\<lambda>c. valid_title (ci_title c) \<and> valid_url locator_ok (ci_url c)) new) \<and>
    list_all2 (\<lambda>(_, url) r. case r of Inl _ \<Rightarrow> True | Inr c \<Rightarrow> c \<in> set (al_ordered a') \<and> ci_url c = url) reqs rs"
  using assms
proof (induction reqs arbitrary: a rs)
  case Nil
  then show ?case by simp
next
  case (Cons q reqs)
  obtain title url where q: "q = (title, url)" by fastforce
  obtain r a1 where r: "allocate locator_ok title url a = (r, a1)" by fastforce
  obtain rs' where rest: "allocations locator_ok reqs a1 = (rs', a')" and rs: "rs = r # rs'"
    using Cons.prems(3) by (auto simp: q r split: prod.splits)
  have step: "allocator_ok a1 \<and> length (al_ordered a1) \<le> MAX_TURN_CITATIONS \<and>
      (\<exists>new. al_ordered a1 = al_ordered a @ new \<and> list_all (\<lambda>c. valid_title (ci_title c) \<and> valid_url locator_ok (ci_url c)) new) \<and>
      (case r of Inl _ \<Rightarrow> True | Inr c \<Rightarrow> c \<in> set (al_ordered a1) \<and> ci_url c = url)"
    using Cons.prems(1)
  proof (cases rule: allocate_cases [where locator_ok = locator_ok and title = title and url = url])
    case (known c)
    with r Cons.prems show ?thesis by (auto simp: find_Some_iff)
  next
    case (refused e)
    with r Cons.prems show ?thesis by auto
  next
    case (added c a2)
    with r Cons.prems show ?thesis by auto
  qed
  then obtain new where new: "al_ordered a1 = al_ordered a @ new"
    "list_all (\<lambda>c. valid_title (ci_title c) \<and> valid_url locator_ok (ci_url c)) new" by blast
  from Cons.IH [OF _ _ rest] step
  obtain new' where "allocator_ok a'" "length (al_ordered a') \<le> MAX_TURN_CITATIONS" "al_ordered a' = al_ordered a1 @ new'"
    "list_all (\<lambda>c. valid_title (ci_title c) \<and> valid_url locator_ok (ci_url c)) new'"
    "list_all2 (\<lambda>(_, url) r. case r of Inl _ \<Rightarrow> True | Inr c \<Rightarrow> c \<in> set (al_ordered a') \<and> ci_url c = url) reqs rs'"
    by blast
  with new step show ?case
    by (auto simp: q rs split: sum.split)
qed

lemma new_allocator_ok: "allocator_ok \<lparr>al_ordered = [], al_by_url = []\<rparr>"
  by (simp add: allocator_ok_def numbered_def)

text \<open>C29: starting from the citations a turn already has, whatever sources are asked
  for and whichever are refused: identities stay \<open>S1\<close>, \<open>S2\<close>, ... in order,
  a URL never gets two of them, there are at most 128, the citations given out before
  keep their identity, and an accepted request returns the citation of its own URL.\<close>

theorem allocation_numbers_sources:
  assumes "new_allocator existing = Inr a" and "length existing \<le> MAX_TURN_CITATIONS"
    and "allocations locator_ok reqs a = (rs, a')"
  shows "numbered (snapshot a') \<and> distinct (map ci_url (snapshot a')) \<and>
    length (snapshot a') \<le> MAX_TURN_CITATIONS \<and>
    take (length existing) (snapshot a') = existing \<and>
    list_all2 (\<lambda>(_, url) r. case r of Inl _ \<Rightarrow> True | Inr c \<Rightarrow> c \<in> set (snapshot a') \<and> ci_url c = url) reqs rs"
proof -
  have a: "allocator_ok a" "al_ordered a = existing"
    using load_citations_ok [OF new_allocator_ok _ assms(1) [unfolded new_allocator_def]] by simp_all
  with allocations_extend [OF a(1) _ assms(3)] assms(2)
  obtain new where "allocator_ok a'" "length (al_ordered a') \<le> MAX_TURN_CITATIONS" "al_ordered a' = existing @ new"
    "list_all2 (\<lambda>(_, url) r. case r of Inl _ \<Rightarrow> True | Inr c \<Rightarrow> c \<in> set (al_ordered a') \<and> ci_url c = url) reqs rs"
    by auto
  then show ?thesis
    unfolding snapshot_def allocator_ok_def by auto
qed

theorem allocation_numbers_sources_witness:
  "map ci_id (snapshot (snd (allocations (\<lambda>_. True)
     [(''b'', ''https://b''), (''again'', ''https://a''), ('' '', ''https://c''), (''d'', ''https://d'')]
     \<lparr>al_ordered = [\<lparr>ci_id = ''S1'', ci_title = ''a'', ci_url = ''https://a''\<rparr>],
      al_by_url = [(''https://a'', \<lparr>ci_id = ''S1'', ci_title = ''a'', ci_url = ''https://a''\<rparr>)]\<rparr>)))
   = [''S1'', ''S2'', ''S3'']"
proof -
  let ?e = "[\<lparr>ci_id = ''S1'', ci_title = ''a'', ci_url = ''https://a''\<rparr>]"
  let ?a = "\<lparr>al_ordered = ?e, al_by_url = [(''https://a'', \<lparr>ci_id = ''S1'', ci_title = ''a'', ci_url = ''https://a''\<rparr>)]\<rparr>"
  let ?q = "[(''b'', ''https://b''), (''again'', ''https://a''), ('' '', ''https://c''), (''d'', ''https://d'')]"
  have init: "new_allocator ?e = Inr ?a"
    by code_simp
  obtain rs a' where run: "allocations (\<lambda>_. True) ?q ?a = (rs, a')" by fastforce
  have "length (snapshot (snd (allocations (\<lambda>_. True) ?q ?a))) = 3" by code_simp
  then have "length (snapshot a') = 3" using run by (metis snd_conv)
  with allocation_numbers_sources [OF init _ run]
  have "map ci_id (snapshot a') = map source_id [1..<4]"
    by (simp add: numbered_def MAX_TURN_CITATIONS_def)
  moreover have "map source_id [1..<4] = [''S1'', ''S2'', ''S3'']" by code_simp
  ultimately show ?thesis using run by (metis snd_conv)
qed

end
