(* ===== verification/Tools.thy ===== *)
theory Tools
  imports Modeling Citations "HOL-Library.AList"
begin

text \<open>
  \<open>core/tools/contracts.py\<close>, \<open>errors.py\<close> and \<open>context.py\<close>: the records that
  pass between the agent, the executor and a tool, the bounds their validators
  check, the capability quotas and the resource grants of a call.  A validator
  that rejects is \<open>None\<close> or a \<open>False\<close> here, and \<open>ValidationError\<close> there.
\<close>

section \<open>Names\<close>

definition is_lower :: "char \<Rightarrow> bool" where
  "is_lower c \<longleftrightarrow> (let n = (of_char c :: nat) in 97 \<le> n \<and> n \<le> 122)"

definition name_part :: "(char \<Rightarrow> bool) \<Rightarrow> string \<Rightarrow> bool" where
  "name_part extra s \<longleftrightarrow>
     (case s of [] \<Rightarrow> False
      | c # cs \<Rightarrow> is_lower c \<and> list_all (\<lambda>x. is_lower x \<or> is_digit x \<or> extra x) cs)"

text \<open>\<open>TOOL_NAME_PATTERN\<close>: a plain name, or \<open>mcp\<close> or \<open>user\<close> and two parts.\<close>

definition valid_tool_name :: "string \<Rightarrow> bool" where
  "valid_tool_name s \<longleftrightarrow>
     name_part (\<lambda>c. c = CHR ''_'') s \<or>
     (case split_on CHR ''.'' s of
        [ns, a, b] \<Rightarrow> (ns = ''mcp'' \<or> ns = ''user'') \<and>
          name_part (\<lambda>c. c = CHR ''_'' \<or> c = CHR ''-'') a \<and> name_part (\<lambda>c. c = CHR ''_'' \<or> c = CHR ''-'') b
      | _ \<Rightarrow> False)"

text \<open>\<open>^[a-z][a-z0-9_-]*(?:\.[a-z][a-z0-9_-]*)+$\<close>\<close>

definition valid_capability_name :: "string \<Rightarrow> bool" where
  "valid_capability_name s \<longleftrightarrow>
     (let ps = split_on CHR ''.'' s in
      2 \<le> length ps \<and> list_all (name_part (\<lambda>c. c = CHR ''_'' \<or> c = CHR ''-'')) ps)"

definition bounded :: "nat \<Rightarrow> nat \<Rightarrow> string \<Rightarrow> bool" where
  "bounded low high s \<longleftrightarrow> low \<le> length s \<and> length s \<le> high"

definition bounded_option :: "nat \<Rightarrow> nat \<Rightarrow> string option \<Rightarrow> bool" where
  "bounded_option low high s \<longleftrightarrow> (case s of None \<Rightarrow> True | Some x \<Rightarrow> bounded low high x)"

section \<open>Contracts\<close>

datatype tool_status = SUCCESS | ERROR

datatype tool_origin = AGENT | DIRECT

datatype tool_error_code =
    INVALID_ARGUMENTS | NOT_FOUND | WORKSPACE_NOT_TRUSTED | WORKSPACE_ESCAPE | PERMISSION_DENIED
  | CONFLICT | TOOL_TIMEOUT | STATE_UNAVAILABLE | EXECUTION_FAILED | UNCERTAIN_OUTCOME
  | MEMORY_DISABLED | MEMORY_CONFLICT | MEMORY_REJECTED
  | WEB_REQUEST_BUDGET_EXHAUSTED | WEB_REQUEST_REJECTED | WEB_CREDENTIAL_REJECTED | WEB_RATE_LIMITED
  | WEB_QUOTA_EXHAUSTED | WEB_PROVIDER_UNAVAILABLE | WEB_TIMEOUT | WEB_CONNECTION_FAILED
  | WEB_MALFORMED_RESPONSE | CANCELLED

fun code_value :: "tool_error_code \<Rightarrow> string" where
  "code_value INVALID_ARGUMENTS = ''invalid_arguments''"
| "code_value NOT_FOUND = ''not_found''"
| "code_value WORKSPACE_NOT_TRUSTED = ''workspace_not_trusted''"
| "code_value WORKSPACE_ESCAPE = ''workspace_escape''"
| "code_value PERMISSION_DENIED = ''permission_denied''"
| "code_value CONFLICT = ''conflict''"
| "code_value TOOL_TIMEOUT = ''timeout''"
| "code_value STATE_UNAVAILABLE = ''state_unavailable''"
| "code_value EXECUTION_FAILED = ''execution_failed''"
| "code_value UNCERTAIN_OUTCOME = ''uncertain_outcome''"
| "code_value MEMORY_DISABLED = ''memory_disabled''"
| "code_value MEMORY_CONFLICT = ''memory_conflict''"
| "code_value MEMORY_REJECTED = ''memory_rejected''"
| "code_value WEB_REQUEST_BUDGET_EXHAUSTED = ''web_request_budget_exhausted''"
| "code_value WEB_REQUEST_REJECTED = ''web_request_rejected''"
| "code_value WEB_CREDENTIAL_REJECTED = ''web_credential_rejected''"
| "code_value WEB_RATE_LIMITED = ''web_rate_limited''"
| "code_value WEB_QUOTA_EXHAUSTED = ''web_quota_exhausted''"
| "code_value WEB_PROVIDER_UNAVAILABLE = ''web_provider_unavailable''"
| "code_value WEB_TIMEOUT = ''web_timeout''"
| "code_value WEB_CONNECTION_FAILED = ''web_connection_failed''"
| "code_value WEB_MALFORMED_RESPONSE = ''web_malformed_response''"
| "code_value CANCELLED = ''cancelled''"

type_synonym json_dict = "(string \<times> json) list"

record tool_activity =
  ta_thread_id :: string
  ta_turn_id :: "string option"
  ta_operation_id :: string
  ta_call_id :: string
  ta_origin :: tool_origin
  ta_tool_name :: string
  ta_outcome :: string
  ta_input_summary :: string
  ta_result_summary :: string
  ta_error_code :: "string option"
  ta_duration_ms :: nat
  ta_change_set_id :: "string option"

record tool_spec =
  ts_name :: string
  ts_description :: string
  ts_input_schema :: json_dict
  ts_capability :: string
  ts_read_only :: bool
  ts_display :: json_dict

definition valid_spec :: "tool_spec \<Rightarrow> bool" where
  "valid_spec s \<longleftrightarrow>
     valid_tool_name (ts_name s) \<and> bounded 1 500 (ts_description s) \<and> valid_capability_name (ts_capability s)"

record tool_request =
  rq_call_id :: string
  rq_tool_name :: string
  rq_arguments :: json_dict

definition valid_request :: "string \<Rightarrow> string \<Rightarrow> bool" where
  "valid_request call_id tool_name \<longleftrightarrow> bounded 1 128 call_id \<and> valid_tool_name tool_name"

record tool_error =
  te_code :: tool_error_code
  te_message :: string
  te_retryable :: bool

record tool_presentation =
  tp_verb :: string
  tp_target :: "string option"
  tp_outcome :: "string option"
  tp_summary :: string
  tp_detail :: "string option"
  tp_truncated :: "nat option"
  tp_duration_ms :: "nat option"

definition valid_presentation :: "tool_presentation \<Rightarrow> bool" where
  "valid_presentation p \<longleftrightarrow>
     bounded 1 64 (tp_verb p) \<and> bounded_option 0 2000 (tp_target p) \<and> bounded_option 0 128 (tp_outcome p) \<and>
     bounded 0 2000 (tp_summary p) \<and> bounded_option 0 4000 (tp_detail p)"

definition plain_presentation :: "string \<Rightarrow> string option \<Rightarrow> tool_presentation" where
  "plain_presentation verb target =
     \<lparr>tp_verb = verb, tp_target = target, tp_outcome = None, tp_summary = [], tp_detail = None,
      tp_truncated = None, tp_duration_ms = None\<rparr>"

record tool_description =
  td_verb :: string
  td_display_target :: "string option"
  td_operation :: string
  td_target :: string

definition valid_description :: "tool_description \<Rightarrow> bool" where
  "valid_description d \<longleftrightarrow>
     bounded 1 64 (td_verb d) \<and> bounded_option 0 2000 (td_display_target d) \<and>
     bounded 1 128 (td_operation d) \<and> bounded 1 8000 (td_target d)"

record tool_result =
  tr_call_id :: string
  tr_tool_name :: string
  tr_status :: tool_status
  tr_content :: string
  tr_metadata :: json_dict
  tr_error :: "tool_error option"
  tr_presentation :: "tool_presentation option"
  tr_citations :: "citation list"

text \<open>\<open>error_matches_status\<close> and the bounds of the fields.\<close>

definition valid_result :: "tool_result \<Rightarrow> bool" where
  "valid_result r \<longleftrightarrow>
     length (tr_content r) \<le> 30000 \<and> length (tr_citations r) \<le> 128 \<and>
     (tr_status r = ERROR \<longleftrightarrow> tr_error r \<noteq> None) \<and>
     \<not> (tr_status r = ERROR \<and> tr_citations r \<noteq> [])"

record tool_output =
  to_content :: string
  to_metadata :: json_dict
  to_presentation :: "tool_presentation option"
  to_citations :: "citation list"

text \<open>\<open>ExpectedToolFailure\<close> and \<open>validate_expected_tool_failure\<close>: \<open>None\<close> is the
  \<open>TypeError\<close> of a failure whose attributes were changed to something invalid.\<close>

record expected_failure =
  ef_code :: tool_error_code
  ef_message :: string
  ef_retryable :: bool
  ef_metadata :: json_dict

definition validate_expected_failure :: "expected_failure \<Rightarrow> expected_failure option" where
  "validate_expected_failure f = (if bounded 1 2000 (ef_message f) then Some f else None)"

definition expected_failure_of :: "tool_error_code \<Rightarrow> string \<Rightarrow> expected_failure" where
  "expected_failure_of code message =
     \<lparr>ef_code = code, ef_message = message, ef_retryable = False, ef_metadata = []\<rparr>"

section \<open>Capability quotas\<close>

datatype quota_error = QuotaValueError | QuotaExhausted expected_failure

record quota_ledger =
  ql_limits :: "(string \<times> nat) list"
  ql_used :: "(string \<times> nat) list"

definition count_of :: "(string \<times> nat) list \<Rightarrow> string \<Rightarrow> nat" where
  "count_of m capability = (case map_of m capability of None \<Rightarrow> 0 | Some n \<Rightarrow> n)"

fun validated_counts :: "(string \<times> int) list \<Rightarrow> (string \<times> nat) list \<Rightarrow> quota_error + (string \<times> nat) list" where
  "validated_counts [] validated = Inr validated"
| "validated_counts ((capability, n) # rest) validated =
     (if capability = [] \<or> n < 0 then Inl QuotaValueError
      else validated_counts rest (AList.update capability (nat n) validated))"

definition new_ledger :: "(string \<times> int) list \<Rightarrow> (string \<times> int) list \<Rightarrow> quota_error + quota_ledger" where
  "new_ledger limits used_counts =
     (case validated_counts limits [] of Inl e \<Rightarrow> Inl e | Inr limits' \<Rightarrow>
      (case validated_counts used_counts [] of Inl e \<Rightarrow> Inl e | Inr used' \<Rightarrow>
        if list_ex (\<lambda>(c, _). map_of limits' c = None) used' then Inl QuotaValueError
        else if list_ex (\<lambda>(c, n). count_of limits' c < n) used' then Inl QuotaValueError
        else Inr \<lparr>ql_limits = limits', ql_used = used'\<rparr>))"

definition used :: "quota_ledger \<Rightarrow> string \<Rightarrow> nat" where
  "used l capability = count_of (ql_used l) capability"

definition remaining :: "quota_ledger \<Rightarrow> string \<Rightarrow> nat" where
  "remaining l capability = count_of (ql_limits l) capability - used l capability"

definition require_remaining :: "string \<Rightarrow> int \<Rightarrow> (quota_ledger, quota_error, unit) eff" where
  "require_remaining capability amount =
     andthen (guard_else (0 < amount) QuotaValueError)
    (sbind (gets (\<lambda>l. remaining l capability)) (\<lambda>n.
       guard_else (amount \<le> int n)
         (QuotaExhausted \<lparr>ef_code = WEB_REQUEST_BUDGET_EXHAUSTED, ef_message = ''The web request budget is exhausted.'',
            ef_retryable = False, ef_metadata = [(''capability'', JString capability)]\<rparr>)))"

definition consume :: "string \<Rightarrow> int \<Rightarrow> (quota_ledger, quota_error, nat) eff" where
  "consume capability amount =
     andthen (require_remaining capability amount)
    (sbind (gets (\<lambda>l. used l capability + nat amount)) (\<lambda>n.
     andthen (modify (\<lambda>l. l\<lparr>ql_used := AList.update capability n (ql_used l)\<rparr>)) (ret n)))"

text \<open>No capability is used beyond its limit.\<close>

definition ledger_ok :: "quota_ledger \<Rightarrow> bool" where
  "ledger_ok l \<longleftrightarrow> (\<forall>c. used l c \<le> count_of (ql_limits l) c)"

section \<open>The context of a call\<close>

record resource_grant =
  rg_capability :: string
  rg_resource_type :: string
  rg_resource_id :: string
  rg_identity :: string
  rg_operations :: "string list"

text \<open>\<open>[a-z][a-z0-9_.-]{0,n}\<close>\<close>

definition grant_name :: "nat \<Rightarrow> string \<Rightarrow> bool" where
  "grant_name n s \<longleftrightarrow>
     length s \<le> n + 1 \<and> name_part (\<lambda>c. c = CHR ''_'' \<or> c = CHR ''.'' \<or> c = CHR ''-'') s"

definition valid_grant :: "resource_grant \<Rightarrow> bool" where
  "valid_grant g \<longleftrightarrow>
     grant_name 127 (rg_capability g) \<and> grant_name 127 (rg_resource_type g) \<and>
     bounded 1 512 (rg_resource_id g) \<and> bounded 1 256 (rg_identity g) \<and>
     \<not> list_ex is_space (rg_resource_id g) \<and> \<not> list_ex is_space (rg_identity g) \<and>
     rg_operations g \<noteq> [] \<and> length (rg_operations g) \<le> 16 \<and> distinct (rg_operations g) \<and>
     list_all (grant_name 63) (rg_operations g)"

record tool_context =
  tx_thread_id :: string
  tx_operation_id :: string
  tx_turn_id :: "string option"
  tx_origin :: tool_origin
  tx_change_set_id :: "string option"
  tx_skill_mode :: string
  tx_grants :: "resource_grant list"
  tx_turn_active :: bool

text \<open>\<open>(?:auto|off|direct|[a-z][a-z0-9-]{0,63})\<close>; the three words match the last branch too.\<close>

definition valid_skill_mode :: "string \<Rightarrow> bool" where
  "valid_skill_mode s \<longleftrightarrow> length s \<le> 64 \<and> name_part (\<lambda>c. c = CHR ''-'') s"

definition valid_context :: "tool_context \<Rightarrow> bool" where
  "valid_context x \<longleftrightarrow>
     \<not> (tx_origin x = AGENT \<and> tx_turn_id x = None) \<and> \<not> (tx_origin x = DIRECT \<and> tx_turn_id x \<noteq> None) \<and>
     valid_skill_mode (tx_skill_mode x) \<and>
     distinct (map (\<lambda>g. (rg_capability g, rg_resource_type g, rg_resource_id g)) (tx_grants x))"

definition find_grant :: "tool_context \<Rightarrow> string \<Rightarrow> string \<Rightarrow> string \<Rightarrow> string \<Rightarrow> resource_grant option" where
  "find_grant x capability resource_type resource_id operation =
     List.find (\<lambda>g. rg_capability g = capability \<and> rg_resource_type g = resource_type \<and>
        rg_resource_id g = resource_id \<and> operation \<in> set (rg_operations g)) (tx_grants x)"

section \<open>Quotas are never exceeded\<close>

lemma count_update [simp]:
  "count_of (AList.update c n m) d = (if d = c then n else count_of m d)"
  by (simp add: count_of_def update_conv)

lemma validated_counts_keys:
  "validated_counts xs m = Inr m' \<Longrightarrow> distinct (map fst m) \<Longrightarrow> distinct (map fst m')"
  by (induction xs m rule: validated_counts.induct) (auto split: if_splits simp: distinct_update)

lemma new_ledger_ok:
  assumes "new_ledger limits used_counts = Inr l"
  shows "ledger_ok l"
proof -
  obtain limits' used' where l: "l = \<lparr>ql_limits = limits', ql_used = used'\<rparr>"
    and u: "validated_counts used_counts [] = Inr used'"
    and le: "\<not> list_ex (\<lambda>(c, n). count_of limits' c < n) used'"
    using assms by (auto simp: new_ledger_def split: sum.splits if_splits)
  have "distinct (map fst used')" using validated_counts_keys [OF u] by simp
  then have "count_of used' c \<le> count_of limits' c" for c
    using le by (cases "map_of used' c") (auto simp: count_of_def list_ex_iff not_less dest!: map_of_SomeD)
  then show ?thesis by (simp add: l ledger_ok_def used_def)
qed

lemma consume_cases:
  obtains (spent) "0 < amount" "amount \<le> int (remaining l capability)"
      "consume capability amount l = (Inr (used l capability + nat amount),
        l\<lparr>ql_used := AList.update capability (used l capability + nat amount) (ql_used l)\<rparr>)"
  | (refused) e where "consume capability amount l = (Inl e, l)" "\<not> (0 < amount \<and> amount \<le> int (remaining l capability))"
proof (cases "0 < amount \<and> amount \<le> int (remaining l capability)")
  case True
  then show ?thesis
    by (intro spent) (simp_all add: consume_def require_remaining_def andthen_def sbind_def)
next
  case False
  then have "\<exists>e. consume capability amount l = (Inl e, l)"
    by (auto simp: consume_def require_remaining_def andthen_def sbind_def guard_else_def)
  with False show ?thesis using refused by blast
qed

lemma keeps_ledger_ok: "keeps ledger_ok (consume capability amount)"
proof (rule keepsI)
  fix l assume ok: "ledger_ok l"
  show "ledger_ok (snd (consume capability amount l))"
  proof (cases rule: consume_cases [of amount l capability])
    case spent
    then have "used l capability + nat amount \<le> count_of (ql_limits l) capability"
      using ok by (auto simp: remaining_def ledger_ok_def nat_le_iff)
    with spent ok show ?thesis by (simp add: ledger_ok_def used_def)
  next
    case (refused e)
    with ok show ?thesis by simp
  qed
qed

section \<open>Sequences of uses\<close>

fun consumes :: "(string \<times> int) list \<Rightarrow> quota_ledger \<Rightarrow> (quota_error + nat) list \<times> quota_ledger" where
  "consumes [] l = ([], l)"
| "consumes ((capability, amount) # rest) l =
     (case consume capability amount l of (r, l') \<Rightarrow> (case consumes rest l' of (rs, l'') \<Rightarrow> (r # rs, l'')))"

text \<open>What the accepted requests of a capability add up to.\<close>

fun granted :: "string \<Rightarrow> (string \<times> int) list \<Rightarrow> (quota_error + nat) list \<Rightarrow> nat" where
  "granted c ((capability, amount) # reqs) (Inr _ # rs) =
     (if capability = c then nat amount else 0) + granted c reqs rs"
| "granted c (_ # reqs) (_ # rs) = granted c reqs rs"
| "granted c _ _ = 0"

lemma consumes_ok:
  "ledger_ok l \<Longrightarrow> consumes reqs l = (rs, l') \<Longrightarrow>
     ledger_ok l' \<and> ql_limits l' = ql_limits l \<and> used l' c = used l c + granted c reqs rs"
proof (induction reqs arbitrary: l rs)
  case (Cons q reqs)
  obtain capability amount where q: "q = (capability, amount)" by fastforce
  obtain r l1 rs' where r: "consume capability amount l = (r, l1)" and rest: "consumes reqs l1 = (rs', l')"
    and rs: "rs = r # rs'"
    using Cons.prems(2) by (auto simp: q split: prod.splits)
  have "ledger_ok l1" using keepsD [OF keeps_ledger_ok Cons.prems(1) r] .
  from Cons.IH [OF this rest] show ?case
    by (cases rule: consume_cases [of amount l capability]) (use r q rs in \<open>auto simp: used_def\<close>)
qed simp

text \<open>C33: a capability is never used beyond its limit: after any sequence of
  \<open>consume\<close> calls on a ledger the constructor accepted, whatever the amounts and
  whichever are refused, the accepted amounts of a capability and what was used before
  add up to its use, which is within its limit, and the limits are those of the start.\<close>

theorem quota_never_exceeded:
  assumes "new_ledger limits used_counts = Inr l" and "consumes reqs l = (rs, l')"
  shows "used l c + granted c reqs rs = used l' c \<and> used l' c \<le> count_of (ql_limits l) c \<and>
    ql_limits l' = ql_limits l"
  using consumes_ok [OF new_ledger_ok [OF assms(1)] assms(2), of c] by (metis ledger_ok_def)

theorem quota_never_exceeded_witness:
  "used (snd (consumes [(''web'', 2), (''web'', 2), (''web'', 1)]
     \<lparr>ql_limits = [(''web'', 3)], ql_used = [(''web'', 0)]\<rparr>)) ''web'' = 3"
proof -
  let ?l = "\<lparr>ql_limits = [(''web'', 3)], ql_used = [(''web'', 0)]\<rparr>"
  let ?q = "[(''web'', 2), (''web'', 2), (''web'', 1)]"
  have init: "new_ledger [(''web'', 3)] [(''web'', 0)] = Inr ?l" by code_simp
  obtain rs l' where run: "consumes ?q ?l = (rs, l')" by fastforce
  have "rs = fst (consumes ?q ?l)" using run by (metis fst_conv)
  moreover have "granted ''web'' ?q (fst (consumes ?q ?l)) = 3" by code_simp
  moreover have "used ?l ''web'' = 0" by code_simp
  ultimately have "used l' ''web'' = 3" using quota_never_exceeded [OF init run, of "''web''"] by simp
  then show ?thesis using run by (metis snd_conv)
qed

end
