(* ===== verification/Registry.thy ===== *)
theory Registry
  imports Tools "HOL-Library.Multiset"
begin

text \<open>
  \<open>core/tools/registry.py\<close>: the tools by name, in insertion order, and the
  all-or-nothing replacements of a set of tools.  The callbacks of a tool (its
  input model, handler, describer, admitter and timeout resolver) are one value
  of a type parameter; \<open>rt_runtime_ok\<close> is the verdict of the
  \<open>isinstance\<close>, \<open>callable\<close> and coroutine checks on them.  How
  \<open>json.dumps\<close> writes a float is the parameter \<open>float_text\<close>.
\<close>

section \<open>The size of a catalog entry\<close>

definition hex_digit :: "nat \<Rightarrow> char" where
  "hex_digit d = (if d < 10 then char_of (48 + d) else char_of (87 + d))"

definition escape_char :: "char \<Rightarrow> string" where
  "escape_char c =
     (let n = (of_char c :: nat) in
      if n = 34 then [CHR 0x5C, CHR 0x22] else if n = 92 then [CHR 0x5C, CHR 0x5C]
      else if n = 10 then [CHR 0x5C, CHR ''n''] else if n = 13 then [CHR 0x5C, CHR ''r'']
      else if n = 9 then [CHR 0x5C, CHR ''t''] else if n = 12 then [CHR 0x5C, CHR ''f'']
      else if n = 8 then [CHR 0x5C, CHR ''b'']
      else if n < 32 then CHR 0x5C # ''u00'' @ [hex_digit (n div 16), hex_digit (n mod 16)]
      else [c])"

definition json_text :: "string \<Rightarrow> string" where
  "json_text s = [CHR 0x22] @ concat (map escape_char s) @ [CHR 0x22]"

definition int_text :: "int \<Rightarrow> string" where
  "int_text i = (if i < 0 then CHR ''-'' # decimal (nat (- i)) else decimal (nat i))"

text \<open>\<open>json.dumps(.., ensure_ascii=False, separators=(",", ":"))\<close>\<close>

fun json_dumps :: "(rat \<Rightarrow> string) \<Rightarrow> json \<Rightarrow> string" where
  "json_dumps float_text JNull = ''null''"
| "json_dumps float_text (JBool b) = (if b then ''true'' else ''false'')"
| "json_dumps float_text (JInt i) = int_text i"
| "json_dumps float_text (JFloat r) = float_text r"
| "json_dumps float_text (JString s) = json_text s"
| "json_dumps float_text (JList xs) =
     ''['' @ join_with '','' (map (json_dumps float_text) xs) @ '']''"
| "json_dumps float_text (JObject kvs) =
     ''{'' @ join_with '','' (map (\<lambda>kv. json_text (fst kv) @ '':'' @ json_dumps float_text (snd kv)) kvs) @ ''}''"

definition utf8_bytes :: "string \<Rightarrow> nat" where
  "utf8_bytes s = sum_list (map (\<lambda>c. if (of_char c :: nat) < 128 then 1 else 2) s)"

section \<open>Registered tools\<close>

datatype replay_safety = REPLAYABLE | NON_REPLAYABLE

record 'h registered_tool =
  rt_spec :: tool_spec
  rt_callbacks :: 'h
  rt_replay :: replay_safety
  rt_grace :: "rat option"
  rt_runtime_ok :: bool

datatype registry_error = DuplicateToolName string | RegistryLimit string | RegistryValueError string

type_synonym 'h registry = "(string \<times> 'h registered_tool) list"

definition MAX_REGISTERED_TOOLS :: nat where "MAX_REGISTERED_TOOLS = 128"
definition MAX_CATALOG_BYTES :: nat where "MAX_CATALOG_BYTES = 1024 * 1024"
definition MAX_TOOL_NAME_CHARS :: nat where "MAX_TOOL_NAME_CHARS = 128"

definition validate_registered_tool :: "string \<Rightarrow> 'h registered_tool \<Rightarrow> registry_error + unit" where
  "validate_registered_tool name tool =
     (if ts_name (rt_spec tool) \<noteq> name \<or> \<not> rt_runtime_ok tool
      then Inl (RegistryLimit ''Tool registry contains an invalid runtime contract'') else Inr ())"

definition catalog_bytes :: "(rat \<Rightarrow> string) \<Rightarrow> tool_spec \<Rightarrow> nat" where
  "catalog_bytes float_text spec =
     utf8_bytes (json_dumps float_text (JObject
       [(''name'', JString (ts_name spec)), (''description'', JString (ts_description spec)),
        (''input_schema'', JObject (ts_input_schema spec))]))"

text \<open>The loop of \<open>_validate_snapshot\<close> over the sorted names.\<close>

fun validate_items :: "(rat \<Rightarrow> string) \<Rightarrow> nat \<Rightarrow> 'h registry \<Rightarrow> registry_error + unit" where
  "validate_items float_text bytes [] = Inr ()"
| "validate_items float_text bytes ((name, tool) # rest) =
     (case validate_registered_tool name tool of Inl e \<Rightarrow> Inl e | Inr _ \<Rightarrow>
      if (case rt_grace tool of None \<Rightarrow> False | Some g \<Rightarrow> g \<le> 0)
      then Inl (RegistryLimit ''Tool registry contains an invalid cancellation grace'')
      else if \<not> valid_spec (rt_spec tool)
      then Inl (RegistryLimit ''Tool registry contains an invalid runtime contract'')
      else if MAX_CATALOG_BYTES < bytes + catalog_bytes float_text (rt_spec tool)
      then Inl (RegistryLimit ''Tool registry exceeds the 1 MiB aggregate catalog limit'')
      else validate_items float_text (bytes + catalog_bytes float_text (rt_spec tool)) rest)"

definition validate_snapshot :: "(rat \<Rightarrow> string) \<Rightarrow> 'h registry \<Rightarrow> registry_error + unit" where
  "validate_snapshot float_text items =
     (if MAX_REGISTERED_TOOLS < length items
      then Inl (RegistryLimit ''Tool registry exceeds the 128-tool aggregate limit'')
      else if list_ex (\<lambda>(name, _). MAX_TOOL_NAME_CHARS < length name) items
      then Inl (RegistryLimit ''Tool registry contains a name outside downstream limits'')
      else validate_items float_text (2 + (length items - 1)) (sort_key fst items))"

section \<open>Operations\<close>

definition publish :: "(rat \<Rightarrow> string) \<Rightarrow> 'h registry \<Rightarrow> registry_error + 'h registry" where
  "publish float_text updated =
     (case validate_snapshot float_text updated of Inl e \<Rightarrow> Inl e | Inr _ \<Rightarrow> Inr updated)"

definition register :: "(rat \<Rightarrow> string) \<Rightarrow> 'h registered_tool \<Rightarrow> 'h registry \<Rightarrow> registry_error + 'h registry" where
  "register float_text tool items =
     (let name = ts_name (rt_spec tool) in
      if map_of items name \<noteq> None then Inl (DuplicateToolName name)
      else publish float_text (AList.update name tool items))"

definition resolve :: "'h registry \<Rightarrow> string \<Rightarrow> 'h registered_tool option" where
  "resolve items name = map_of items name"

definition replay_safety_of :: "'h registry \<Rightarrow> string \<Rightarrow> replay_safety" where
  "replay_safety_of items name =
     (case resolve items name of None \<Rightarrow> NON_REPLAYABLE | Some tool \<Rightarrow> rt_replay tool)"

definition specifications :: "'h registry \<Rightarrow> tool_spec list" where
  "specifications items = map (\<lambda>(_, tool). rt_spec tool) (sort_key fst items)"

definition unregister :: "string \<Rightarrow> 'h registry \<Rightarrow> 'h registry" where
  "unregister name items = AList.delete name items"

definition tool_names :: "'h registered_tool list \<Rightarrow> string list" where
  "tool_names tools = map (\<lambda>tool. ts_name (rt_spec tool)) tools"

fun first_duplicate :: "string list \<Rightarrow> string list \<Rightarrow> string option" where
  "first_duplicate seen [] = None"
| "first_duplicate seen (x # xs) = (if x \<in> set seen then Some x else first_duplicate (seen @ [x]) xs)"

definition add_all :: "'h registered_tool list \<Rightarrow> 'h registry \<Rightarrow> 'h registry" where
  "add_all tools items = fold (\<lambda>tool. AList.update (ts_name (rt_spec tool)) tool) tools items"

definition exact_set_snapshot ::
  "string list \<Rightarrow> 'h registered_tool list \<Rightarrow> 'h registry \<Rightarrow> registry_error + 'h registry"
where
  "exact_set_snapshot managed tools items =
     (if managed = [] then Inl (RegistryValueError ''Managed tool names must be non-empty strings'')
      else if \<not> distinct managed then Inl (RegistryValueError ''Managed tool names must be non-empty and unique'')
      else (case first_duplicate [] (tool_names tools) of
          Some d \<Rightarrow> Inl (DuplicateToolName d)
        | None \<Rightarrow>
            if list_ex (\<lambda>name. name \<notin> set managed) (tool_names tools)
            then Inl (RegistryValueError ''Replacement tool is outside the managed exact set'')
            else Inr (add_all tools (filter (\<lambda>(name, _). name \<notin> set managed) items))))"

definition validate_exact_set ::
  "(rat \<Rightarrow> string) \<Rightarrow> string list \<Rightarrow> 'h registered_tool list \<Rightarrow> 'h registry \<Rightarrow> registry_error + unit"
where
  "validate_exact_set float_text managed tools items =
     (case exact_set_snapshot managed tools items of
        Inl e \<Rightarrow> Inl e | Inr updated \<Rightarrow> validate_snapshot float_text updated)"

definition replace_exact_set ::
  "(rat \<Rightarrow> string) \<Rightarrow> string list \<Rightarrow> 'h registered_tool list \<Rightarrow> 'h registry \<Rightarrow> registry_error + 'h registry"
where
  "replace_exact_set float_text managed tools items =
     (case exact_set_snapshot managed tools items of
        Inl e \<Rightarrow> Inl e | Inr updated \<Rightarrow> publish float_text updated)"

definition valid_namespace :: "string \<Rightarrow> bool" where
  "valid_namespace ns \<longleftrightarrow>
     (case split_on CHR ''.'' ns of
        [a, b] \<Rightarrow> (a = ''mcp'' \<or> a = ''user'') \<and> name_part (\<lambda>c. c = CHR ''_'' \<or> c = CHR ''-'') b
      | _ \<Rightarrow> False)"

definition replace_namespace ::
  "(rat \<Rightarrow> string) \<Rightarrow> string \<Rightarrow> 'h registered_tool list \<Rightarrow> 'h registry \<Rightarrow> registry_error + 'h registry"
where
  "replace_namespace float_text ns tools items =
     (let prefix = ns @ ''.'';
          kept = filter (\<lambda>(name, _). \<not> starts_with prefix name) items
      in if \<not> valid_namespace ns then Inl (RegistryValueError ''Invalid tool namespace'')
         else if \<not> distinct (tool_names tools) then Inl (DuplicateToolName ns)
         else if list_ex (\<lambda>name. \<not> starts_with prefix name) (tool_names tools)
         then Inl (RegistryValueError ''Tool does not belong to namespace'')
         else (case filter (\<lambda>name. map_of kept name \<noteq> None) (sort (tool_names tools)) of
             d # _ \<Rightarrow> Inl (DuplicateToolName d)
           | [] \<Rightarrow> publish float_text (add_all tools kept)))"

definition remove_namespace :: "string \<Rightarrow> 'h registry \<Rightarrow> 'h registry" where
  "remove_namespace ns items = filter (\<lambda>(name, _). \<not> starts_with (ns @ ''.'') name) items"

section \<open>The limits of a published registry\<close>

definition entry_ok :: "string \<times> 'h registered_tool \<Rightarrow> bool" where
  "entry_ok entry \<longleftrightarrow>
     (case entry of (name, tool) \<Rightarrow>
        ts_name (rt_spec tool) = name \<and> rt_runtime_ok tool \<and> length name \<le> MAX_TOOL_NAME_CHARS \<and>
        (case rt_grace tool of None \<Rightarrow> True | Some g \<Rightarrow> 0 < g) \<and> valid_spec (rt_spec tool))"

definition registry_bytes :: "(rat \<Rightarrow> string) \<Rightarrow> 'h registry \<Rightarrow> nat" where
  "registry_bytes float_text items =
     2 + (length items - 1) + sum_list (map (\<lambda>(_, tool). catalog_bytes float_text (rt_spec tool)) items)"

definition registry_ok :: "(rat \<Rightarrow> string) \<Rightarrow> 'h registry \<Rightarrow> bool" where
  "registry_ok float_text items \<longleftrightarrow>
     distinct (map fst items) \<and> length items \<le> MAX_REGISTERED_TOOLS \<and> list_all entry_ok items \<and>
     (items = [] \<or> registry_bytes float_text items \<le> MAX_CATALOG_BYTES)"

lemma validate_items_iff:
  "validate_items float_text bytes items = Inr () \<longleftrightarrow>
     list_all (\<lambda>(name, tool). ts_name (rt_spec tool) = name \<and> rt_runtime_ok tool \<and>
        (case rt_grace tool of None \<Rightarrow> True | Some g \<Rightarrow> 0 < g) \<and> valid_spec (rt_spec tool)) items \<and>
     (items = [] \<or> bytes + sum_list (map (\<lambda>(_, tool). catalog_bytes float_text (rt_spec tool)) items) \<le> MAX_CATALOG_BYTES)"
proof (induction items arbitrary: bytes)
  case (Cons entry rest)
  show ?case
    by (cases entry) (auto simp: validate_registered_tool_def Cons.IH split: option.splits)
qed simp

lemma sum_list_sort_key: "sum_list (map f (sort_key k xs)) = sum_list (map (f :: _ \<Rightarrow> nat) xs)"
  by (metis mset_map mset_sort sum_mset_sum_list)

lemma sort_key_Nil_iff [simp]: "sort_key k xs = [] \<longleftrightarrow> xs = []"
  by (metis length_0_conv length_sort)

lemma list_all_sort_key [simp]: "list_all P (sort_key k xs) \<longleftrightarrow> list_all P xs"
  by (simp add: list_all_iff)

lemma entry_ok_split:
  "list_all entry_ok items \<longleftrightarrow>
     list_all (\<lambda>(name, tool). ts_name (rt_spec tool) = name \<and> rt_runtime_ok tool \<and>
        (case rt_grace tool of None \<Rightarrow> True | Some g \<Rightarrow> 0 < g) \<and> valid_spec (rt_spec tool)) items \<and>
     \<not> list_ex (\<lambda>(name, _). MAX_TOOL_NAME_CHARS < length name) items"
  by (induction items) (auto simp: entry_ok_def not_less split: prod.splits)

lemma validate_snapshot_iff:
  "validate_snapshot float_text items = Inr () \<longleftrightarrow>
     length items \<le> MAX_REGISTERED_TOOLS \<and> list_all entry_ok items \<and>
     (items = [] \<or> registry_bytes float_text items \<le> MAX_CATALOG_BYTES)"
  by (simp add: validate_snapshot_def validate_items_iff sum_list_sort_key registry_bytes_def entry_ok_split
      not_less conj_ac)

lemma publish_iff:
  "publish float_text updated = Inr items \<longleftrightarrow> items = updated \<and> validate_snapshot float_text updated = Inr ()"
  by (auto simp: publish_def split: sum.split)

lemma publish_ok:
  "publish float_text updated = Inr items \<Longrightarrow> distinct (map fst updated) \<Longrightarrow> registry_ok float_text items \<and> items = updated"
  by (simp add: publish_iff validate_snapshot_iff registry_ok_def)

lemma registry_bytes_filter: "registry_bytes float_text (filter P items) \<le> registry_bytes float_text items"
proof -
  let ?f = "\<lambda>(_, tool). catalog_bytes float_text (rt_spec tool)"
  have "sum_list (map ?f (filter P items)) \<le> sum_list (map ?f items)"
    by (induction items) auto
  moreover have "length (filter P items) \<le> length items" by simp
  ultimately show ?thesis unfolding registry_bytes_def by linarith
qed

lemma registry_ok_filter:
  assumes "registry_ok float_text items"
  shows "registry_ok float_text (filter P items)"
proof -
  have "distinct (map fst (filter P items))"
    using assms by (simp add: registry_ok_def distinct_map_filter)
  moreover have "length (filter P items) \<le> MAX_REGISTERED_TOOLS"
    using assms le_trans [OF length_filter_le] by (auto simp: registry_ok_def)
  moreover have "items = [] \<or> registry_bytes float_text (filter P items) \<le> MAX_CATALOG_BYTES"
    using assms le_trans [OF registry_bytes_filter] by (auto simp: registry_ok_def)
  moreover have "list_all entry_ok (filter P items)"
    using assms by (simp add: registry_ok_def list_all_iff)
  ultimately show ?thesis unfolding registry_ok_def by auto
qed

lemma distinct_add_all: "distinct (map fst items) \<Longrightarrow> distinct (map fst (add_all tools items))"
  by (induction tools arbitrary: items) (auto simp: add_all_def distinct_update)

lemma map_of_add_all:
  "distinct (tool_names tools) \<Longrightarrow>
     map_of (add_all tools items) name =
       (case List.find (\<lambda>tool. ts_name (rt_spec tool) = name) tools of None \<Rightarrow> map_of items name | Some tool \<Rightarrow> Some tool)"
proof (induction tools arbitrary: items)
  case (Cons tool tools)
  have "name = ts_name (rt_spec tool) \<Longrightarrow> List.find (\<lambda>t. ts_name (rt_spec t) = name) tools = None"
    using Cons.prems by (auto simp: tool_names_def find_None_iff image_iff)
  with Cons show ?case
    by (auto simp: add_all_def tool_names_def update_conv split: option.splits)
qed (simp add: add_all_def)

lemma first_duplicate_None: "first_duplicate seen xs = None \<longleftrightarrow> distinct xs \<and> set seen \<inter> set xs = {}"
  by (induction seen xs rule: first_duplicate.induct) auto

lemma map_of_filter_key: "map_of (filter (\<lambda>(k, _). P k) xs) k = (if P k then map_of xs k else None)"
  by (induction xs) auto

section \<open>Sequences of operations\<close>

text \<open>One call on a registry; a call that raises leaves \<open>_items\<close> alone.\<close>

datatype 'h registry_op =
    Register "'h registered_tool"
  | Unregister string
  | ReplaceExactSet "string list" "'h registered_tool list"
  | ReplaceNamespace string "'h registered_tool list"
  | RemoveNamespace string

definition keep_unless :: "registry_error + 'h registry \<Rightarrow> 'h registry \<Rightarrow> (registry_error + unit) \<times> 'h registry" where
  "keep_unless r items = (case r of Inl e \<Rightarrow> (Inl e, items) | Inr items' \<Rightarrow> (Inr (), items'))"

fun registry_call :: "(rat \<Rightarrow> string) \<Rightarrow> 'h registry_op \<Rightarrow> ('h registry, registry_error, unit) eff" where
  "registry_call ft (Register tool) items = keep_unless (register ft tool items) items"
| "registry_call ft (Unregister name) items = (Inr (), unregister name items)"
| "registry_call ft (ReplaceExactSet managed tools) items = keep_unless (replace_exact_set ft managed tools items) items"
| "registry_call ft (ReplaceNamespace ns tools) items = keep_unless (replace_namespace ft ns tools items) items"
| "registry_call ft (RemoveNamespace ns) items = (Inr (), remove_namespace ns items)"

fun registry_calls :: "(rat \<Rightarrow> string) \<Rightarrow> 'h registry_op list \<Rightarrow> 'h registry \<Rightarrow> 'h registry" where
  "registry_calls ft [] items = items"
| "registry_calls ft (c # cs) items = registry_calls ft cs (snd (registry_call ft c items))"

lemma registry_ok_distinct [simp]: "registry_ok ft items \<Longrightarrow> distinct (map fst items)"
  by (simp add: registry_ok_def)

lemma registry_ok_delete: "registry_ok ft items \<Longrightarrow> registry_ok ft (AList.delete name items)"
  by (simp add: AList.delete_eq registry_ok_filter)

lemma distinct_filter_fst: "distinct (map fst items) \<Longrightarrow> distinct (map fst (filter P items))"
  by (rule distinct_map_filter)

lemma register_ok:
  "register ft tool items = Inr items' \<Longrightarrow> registry_ok ft items \<Longrightarrow>
     registry_ok ft items' \<and> items' = AList.update (ts_name (rt_spec tool)) tool items"
  using publish_ok by (fastforce simp: register_def Let_def distinct_update split: if_splits)

lemma exact_set_snapshot_Inr:
  "exact_set_snapshot managed tools items = Inr updated \<longleftrightarrow>
     managed \<noteq> [] \<and> distinct managed \<and> distinct (tool_names tools) \<and> set (tool_names tools) \<subseteq> set managed \<and>
     updated = add_all tools (filter (\<lambda>(name, _). name \<notin> set managed) items)"
proof -
  have "first_duplicate [] (tool_names tools) = None \<longleftrightarrow> distinct (tool_names tools)"
    by (simp add: first_duplicate_None)
  then show ?thesis
    by (cases "first_duplicate [] (tool_names tools)")
      (auto simp: exact_set_snapshot_def list_ex_iff)
qed

lemma replace_exact_set_ok:
  assumes "replace_exact_set ft managed tools items = Inr items'" and "registry_ok ft items"
  shows "registry_ok ft items'"
    and "distinct (tool_names tools)" "set (tool_names tools) \<subseteq> set managed"
    and "items' = add_all tools (filter (\<lambda>(name, _). name \<notin> set managed) items)"
proof -
  obtain updated where u: "exact_set_snapshot managed tools items = Inr updated" "publish ft updated = Inr items'"
    using assms(1) by (auto simp: replace_exact_set_def split: sum.splits)
  note facts = u(1) [unfolded exact_set_snapshot_Inr]
  have "distinct (map fst updated)"
    using facts assms(2) by (auto intro!: distinct_add_all distinct_filter_fst)
  with u(2) have "registry_ok ft items' \<and> items' = updated" by (rule publish_ok)
  with facts show "registry_ok ft items'" "distinct (tool_names tools)" "set (tool_names tools) \<subseteq> set managed"
    "items' = add_all tools (filter (\<lambda>(name, _). name \<notin> set managed) items)" by auto
qed

lemma replace_namespace_ok:
  assumes "replace_namespace ft ns tools items = Inr items'" and "registry_ok ft items"
  shows "registry_ok ft items'"
    and "distinct (tool_names tools)" "\<forall>name \<in> set (tool_names tools). starts_with (ns @ ''.'') name"
    and "items' = add_all tools (remove_namespace ns items)"
proof -
  have facts: "distinct (tool_names tools)" "\<forall>name \<in> set (tool_names tools). starts_with (ns @ ''.'') name"
    and pub: "publish ft (add_all tools (remove_namespace ns items)) = Inr items'"
    using assms(1)
    by (auto simp: replace_namespace_def remove_namespace_def Let_def list_ex_iff split: if_splits list.splits)
  have "distinct (map fst (add_all tools (remove_namespace ns items)))"
    using assms(2) by (auto simp: remove_namespace_def intro!: distinct_add_all distinct_filter_fst)
  with pub have "registry_ok ft items' \<and> items' = add_all tools (remove_namespace ns items)" by (rule publish_ok)
  with facts show "registry_ok ft items'" "distinct (tool_names tools)"
    "\<forall>name \<in> set (tool_names tools). starts_with (ns @ ''.'') name"
    "items' = add_all tools (remove_namespace ns items)" by auto
qed

lemma keeps_registry_ok: "keeps (registry_ok ft) (registry_call ft (c :: 'a registry_op))"
proof (rule keepsI)
  fix items :: "'a registry" assume ok: "registry_ok ft items"
  show "registry_ok ft (snd (registry_call ft c items))"
  proof (cases c)
    case (Register tool)
    with ok show ?thesis
      by (cases "register ft tool items") (auto simp: keep_unless_def dest: register_ok)
  next
    case (ReplaceExactSet managed tools)
    with ok show ?thesis
      by (cases "replace_exact_set ft managed tools items")
        (auto simp: keep_unless_def dest: replace_exact_set_ok(1))
  next
    case (ReplaceNamespace ns tools)
    with ok show ?thesis
      by (cases "replace_namespace ft ns tools items")
        (auto simp: keep_unless_def dest: replace_namespace_ok(1))
  qed (auto simp: ok unregister_def remove_namespace_def intro: registry_ok_delete [OF ok] registry_ok_filter [OF ok])
qed

lemma registry_calls_ok: "registry_ok ft items \<Longrightarrow> registry_ok ft (registry_calls ft cs items)"
  by (induction cs arbitrary: items) (simp_all add: keeps_registry_ok [unfolded keeps_def])

text \<open>C34: whatever is registered, replaced or removed, in whatever order and
  whichever calls raise, the registry never holds more than 128 tools, two tools
  of one name, a tool under another name than its own, an invalid contract or
  name, or a catalog above 1 MiB.\<close>

theorem registry_within_limits: "registry_ok ft (registry_calls ft cs [])"
  by (rule registry_calls_ok) (simp add: registry_ok_def MAX_REGISTERED_TOOLS_def)

text \<open>C35: \<open>replace_namespace\<close> swaps exactly the tools of one namespace: after
  it succeeds, a name inside the namespace resolves to the given tool of that name or
  to nothing, and every other name resolves as before.\<close>

theorem replace_namespace_swaps:
  assumes "replace_namespace ft ns tools items = Inr items'" and "registry_ok ft items"
  shows "resolve items' name =
     (if starts_with (ns @ ''.'') name then List.find (\<lambda>tool. ts_name (rt_spec tool) = name) tools
      else resolve items name)"
proof -
  note facts = replace_namespace_ok [OF assms]
  have kept: "map_of (remove_namespace ns items) name =
      (if starts_with (ns @ ''.'') name then None else map_of items name)"
    by (simp add: remove_namespace_def map_of_filter_key [of "\<lambda>k. \<not> starts_with (ns @ ''.'') k"])
  have "List.find (\<lambda>tool. ts_name (rt_spec tool) = name) tools = None" if "\<not> starts_with (ns @ ''.'') name"
    using facts(3) that by (auto simp: find_None_iff tool_names_def)
  then show ?thesis
    by (auto simp: resolve_def facts(4) map_of_add_all [OF facts(2)] kept split: option.splits)
qed

definition sample_tool :: "string \<Rightarrow> unit registered_tool" where
  "sample_tool name =
     \<lparr>rt_spec = \<lparr>ts_name = name, ts_description = ''sample'', ts_input_schema = [], ts_capability = ''a.b'',
        ts_read_only = True, ts_display = []\<rparr>,
      rt_callbacks = (), rt_replay = REPLAYABLE, rt_grace = None, rt_runtime_ok = True\<rparr>"

lemma sample_tool_name [simp]: "ts_name (rt_spec (sample_tool name)) = name"
  by (simp add: sample_tool_def)

lemma sample_tool_ok: "valid_tool_name name \<Longrightarrow> length name \<le> 128 \<Longrightarrow> entry_ok (name, sample_tool name)"
  by (simp add: entry_ok_def sample_tool_def valid_spec_def valid_capability_name_def name_part_def bounded_def
      MAX_TOOL_NAME_CHARS_def is_lower_def Let_def)

lemma sample_bytes: "catalog_bytes ft (rt_spec (sample_tool name)) \<le> 51 + utf8_bytes (json_text name)"
  by (simp add: catalog_bytes_def sample_tool_def utf8_bytes_def json_text_def escape_char_def)

lemma utf8_bytes_le: "utf8_bytes s \<le> 2 * length s"
  by (induction s) (auto simp: utf8_bytes_def)

lemma json_text_length: "length (json_text s) \<le> 6 * length s + 2"
proof -
  have "length (escape_char c) \<le> 6" for c by (simp add: escape_char_def Let_def)
  then have "length (concat (map escape_char s)) \<le> 6 * length s"
    by (induction s) (auto intro: add_mono)
  then show ?thesis by (simp add: json_text_def)
qed

lemma sample_registry_ok:
  assumes "valid_tool_name name" and "length name \<le> 128"
  shows "registry_ok ft [(name, sample_tool name)]"
proof -
  have "catalog_bytes ft (rt_spec (sample_tool name)) \<le> 2000"
    using sample_bytes [of ft name] utf8_bytes_le [of "json_text name"] json_text_length [of name] assms(2) by linarith
  then show ?thesis
    using sample_tool_ok [OF assms]
    by (simp add: registry_ok_def registry_bytes_def MAX_REGISTERED_TOOLS_def MAX_CATALOG_BYTES_def)
qed

theorem replace_namespace_swaps_witness:
  "resolve [(''user.p.new'', sample_tool ''user.p.new'')] ''user.p.old'' = None"
proof -
  have old: "registry_ok (\<lambda>_. []) [(''user.p.old'', sample_tool ''user.p.old'')]"
    by (rule sample_registry_ok) (simp_all add: valid_tool_name_def name_part_def is_lower_def Let_def)
  have new: "registry_ok (\<lambda>_. []) [(''user.p.new'', sample_tool ''user.p.new'')]"
    by (rule sample_registry_ok) (simp_all add: valid_tool_name_def name_part_def is_lower_def Let_def)
  then have "publish (\<lambda>_. []) [(''user.p.new'', sample_tool ''user.p.new'')] = Inr [(''user.p.new'', sample_tool ''user.p.new'')]"
    by (simp add: publish_iff validate_snapshot_iff registry_ok_def)
  then have "replace_namespace (\<lambda>_. []) ''user.p'' [sample_tool ''user.p.new'']
      [(''user.p.old'', sample_tool ''user.p.old'')] = Inr [(''user.p.new'', sample_tool ''user.p.new'')]"
    by (simp add: replace_namespace_def Let_def valid_namespace_def name_part_def is_lower_def tool_names_def
        starts_with_def add_all_def)
  from replace_namespace_swaps [OF this old, of "''user.p.old''"] show ?thesis
    by (simp add: starts_with_def)
qed

end
