(* ===== verification/Executor.thy ===== *)
theory Executor
  imports Permissions Registry "HOL-Library.Sublist"
begin

text \<open>
  \<open>core/tools/executor.py\<close>: one tool call, from the resolution of its name to
  its result, its audit record and its terminal event.  What the executor calls is a
  parameter: the callbacks of the tool, the approval resolver, the event emitter, the
  activity writer and the clock.  Each of these calls ends in a value or in one of the
  exceptions the executor tells apart.  The trace records the calls in their order.
  The ellipsis is the character 85 (hex).
\<close>

section \<open>How a call ends\<close>

datatype raised = R_CANCELLED | R_EXPECTED expected_failure | R_TIMEOUT | R_VALIDATION | R_OTHER

type_synonym 'a outcome = "raised + 'a"

text \<open>An awaited action and whether the caller is cancelled while it runs.\<close>

datatype ending = ENDS_OK | ENDS_CANCELLED | ENDS_FAILED

record action =
  ac_ending :: ending
  ac_caller_cancelled :: bool

text \<open>A handler: its outcome, when it completes, when it stops after it has been told to
  cancel, and when the caller is cancelled (seconds from its start).\<close>

record handler_run =
  hr_outcome :: "tool_output option outcome"
  hr_completes :: "rat option"
  hr_stops :: "rat option"
  hr_caller_cancels :: "rat option"

text \<open>The callbacks of a tool.  An admitter returns whether it returned \<open>None\<close>; a
  describer and a handler return \<open>None\<close> for an object of another class.\<close>

record 'a tool_callbacks =
  cb_validate :: "json_dict \<Rightarrow> 'a outcome"
  cb_admit :: "'a \<Rightarrow> tool_context \<Rightarrow> bool outcome"
  cb_describe :: "'a \<Rightarrow> tool_description option outcome"
  cb_timeout :: "('a \<Rightarrow> rat outcome) option"
  cb_handler :: "'a \<Rightarrow> tool_context \<Rightarrow> handler_run"

record approval_request =
  ap_capability :: string
  ap_operation :: string
  ap_target :: string
  ap_prompt :: string

record exec_world =
  ew_started :: action
  ew_audit :: action
  ew_terminal :: action
  ew_resolver :: "(approval_request \<Rightarrow> tool_approval_decision option outcome) option"
  ew_elapsed :: rat
  ew_locator_ok :: "string \<Rightarrow> bool"

record exec_config =
  xc_timeout :: rat
  xc_max_content :: nat
  xc_policy :: "policy_request \<Rightarrow> policy_decision"

datatype terminal_kind = TOOL_COMPLETED | TOOL_FAILED | TOOL_CANCELLED

record terminal_payload =
  tm_kind :: terminal_kind
  tm_call_id :: string
  tm_tool_name :: string
  tm_verb :: string
  tm_target :: "string option"
  tm_outcome :: string
  tm_summary :: string
  tm_detail :: "string option"
  tm_truncated :: "nat option"
  tm_duration_ms :: nat
  tm_error_code :: "string option"

datatype exec_event =
    Started string string "string option"
  | Asked approval_request
  | HandlerRan rat
  | Audited tool_activity
  | Finished terminal_payload

datatype exec_error = CancelledError | InvariantError string | EmitError | RecordError

record exec_state =
  xs_session :: permission_session
  xs_trace :: "exec_event list"

type_synonym 'a exec = "(exec_state, exec_error, 'a) eff"

definition note_event :: "exec_event \<Rightarrow> (exec_state, 'e, unit) eff" where
  "note_event e = modify (\<lambda>s. s\<lparr>xs_trace := xs_trace s @ [e]\<rparr>)"

text \<open>\<open>try: m\<close> with the exception as a value.\<close>

definition attempt :: "('s, 'e, 'a) eff \<Rightarrow> ('s, 'f, 'e + 'a) eff" where
  "attempt m = (\<lambda>s. case m s of (r, s') \<Rightarrow> (Inr r, s'))"

section \<open>Presentations\<close>

fun title_case :: "bool \<Rightarrow> string \<Rightarrow> string" where
  "title_case after_letter [] = []"
| "title_case after_letter (c # cs) =
     (let n = (of_char c :: nat);
          lower = 97 \<le> n \<and> n \<le> 122;
          upper = 65 \<le> n \<and> n \<le> 90 in
      (if after_letter then fold_char c else if lower then char_of (n - 32) else c)
        # title_case (lower \<or> upper) cs)"

definition title :: "string \<Rightarrow> string" where
  "title s = title_case False s"

definition default_verb :: "string \<Rightarrow> string" where
  "default_verb tool_name = title (map (\<lambda>c. if c = CHR ''_'' then CHR '' '' else c) tool_name)"

definition configured_verb :: "json_dict \<Rightarrow> string option" where
  "configured_verb display =
     (case map_of display ''verb'' of Some (JString v) \<Rightarrow> if v = [] then None else Some v | _ \<Rightarrow> None)"

definition static_presentation :: "tool_request \<Rightarrow> 'h registered_tool option \<Rightarrow> tool_presentation" where
  "static_presentation req registered =
     (let configured = (case registered of None \<Rightarrow> None | Some tool \<Rightarrow> configured_verb (ts_display (rt_spec tool)));
          verb = (case configured of Some v \<Rightarrow> v | None \<Rightarrow> default_verb (rq_tool_name req))
      in plain_presentation (take 64 verb) None)"

definition approval_request_for :: "string \<Rightarrow> tool_description \<Rightarrow> approval_request" where
  "approval_request_for capability d =
     (let full = ''Do you want to '' @ td_operation d @ '' '' @ td_target d @ ''?'' in
      \<lparr>ap_capability = capability, ap_operation = td_operation d, ap_target = td_target d,
       ap_prompt = (if length full \<le> 2000 then full else take 1999 full @ [CHR 0x85])\<rparr>)"

section \<open>Audit record and terminal event\<close>

text \<open>Python's \<open>round\<close>: to the nearest, ties to even.\<close>

definition round_even :: "rat \<Rightarrow> int" where
  "round_even x =
     (let f = floor x; d = x - of_int f in
      if d < 1 / 2 then f else if 1 / 2 < d then f + 1 else if even f then f else f + 1)"

definition valid_activity :: "tool_activity \<Rightarrow> bool" where
  "valid_activity a \<longleftrightarrow>
     bounded 1 128 (ta_thread_id a) \<and> bounded_option 0 128 (ta_turn_id a) \<and> bounded 1 128 (ta_operation_id a) \<and>
     bounded 1 128 (ta_call_id a) \<and> bounded 1 200 (ta_tool_name a) \<and>
     bounded 0 2000 (ta_input_summary a) \<and> bounded 0 4000 (ta_result_summary a) \<and>
     bounded_option 0 128 (ta_error_code a) \<and> bounded_option 0 128 (ta_change_set_id a) \<and>
     (ta_origin a = AGENT \<longrightarrow> ta_turn_id a \<noteq> None) \<and> (ta_origin a = DIRECT \<longrightarrow> ta_turn_id a = None)"

definition argument_summary :: "json_dict \<Rightarrow> string" where
  "argument_summary arguments =
     (let names = join_with '', '' (map (take 100) (take 16 (sort (map fst arguments)))) in
      if names = [] then ''arguments: none'' else ''arguments: '' @ names)"

definition duration_of :: "exec_world \<Rightarrow> nat" where
  "duration_of w = nat (max 0 (round_even (ew_elapsed w * 1000)))"

definition activity_of ::
  "exec_world \<Rightarrow> tool_request \<Rightarrow> tool_context \<Rightarrow> string \<Rightarrow> tool_presentation \<Rightarrow> string option \<Rightarrow> tool_activity"
where
  "activity_of w req cx outcome p code =
     \<lparr>ta_thread_id = tx_thread_id cx, ta_turn_id = tx_turn_id cx, ta_operation_id = tx_operation_id cx,
      ta_call_id = rq_call_id req, ta_origin = tx_origin cx, ta_tool_name = rq_tool_name req,
      ta_outcome = outcome, ta_input_summary = argument_summary (rq_arguments req),
      ta_result_summary = tp_summary p, ta_error_code = code, ta_duration_ms = duration_of w,
      ta_change_set_id = tx_change_set_id cx\<rparr>"

definition terminal_artifacts ::
  "exec_world \<Rightarrow> tool_request \<Rightarrow> tool_context \<Rightarrow> string \<Rightarrow> tool_presentation \<Rightarrow> string option
   \<Rightarrow> exec_error + tool_presentation \<times> tool_activity"
where
  "terminal_artifacts w req cx outcome p code =
     (let measured = p\<lparr>tp_duration_ms := Some (duration_of w)\<rparr>;
          activity = activity_of w req cx outcome measured code
      in if valid_activity activity then Inr (measured, activity) else Inl RecordError)"

definition terminal_of :: "terminal_kind \<Rightarrow> tool_request \<Rightarrow> tool_presentation \<Rightarrow> tool_activity \<Rightarrow> terminal_payload" where
  "terminal_of kind req p activity =
     \<lparr>tm_kind = kind, tm_call_id = rq_call_id req, tm_tool_name = rq_tool_name req, tm_verb = tp_verb p,
      tm_target = tp_target p,
      tm_outcome = (case tp_outcome p of Some (c # cs) \<Rightarrow> c # cs | _ \<Rightarrow> title (ta_outcome activity)),
      tm_summary = tp_summary p, tm_detail = tp_detail p, tm_truncated = tp_truncated p,
      tm_duration_ms = ta_duration_ms activity, tm_error_code = ta_error_code activity\<rparr>"

text \<open>\<open>_start_terminal_event\<close> and \<open>_finish_terminal_event\<close>, which reports a failed
  or late delivery to the log only.\<close>

definition finish_terminal_event :: "terminal_payload \<Rightarrow> unit exec" where
  "finish_terminal_event payload = note_event (Finished payload)"

text \<open>The bare \<open>await\<close> of an action, and \<open>finish_cancellation_safe\<close>, which
  returns whether the caller was cancelled.\<close>

definition await_action :: "action \<Rightarrow> exec_error \<Rightarrow> unit exec" where
  "await_action a failure =
     (if ac_caller_cancelled a then raise CancelledError
      else case ac_ending a of
        ENDS_OK \<Rightarrow> ret () | ENDS_CANCELLED \<Rightarrow> raise CancelledError | ENDS_FAILED \<Rightarrow> raise failure)"

definition finish_cancellation_safe :: "action \<Rightarrow> exec_error \<Rightarrow> bool exec" where
  "finish_cancellation_safe a failure =
     (case ac_ending a of
        ENDS_OK \<Rightarrow> ret (ac_caller_cancelled a)
      | ENDS_CANCELLED \<Rightarrow> raise CancelledError
      | ENDS_FAILED \<Rightarrow> raise (if ac_caller_cancelled a then CancelledError else failure))"

text \<open>\<open>_finalize_cancellation\<close>: the audit's own failure and cancellation are logged.\<close>

definition finalize_cancellation :: "exec_world \<Rightarrow> tool_request \<Rightarrow> tool_context \<Rightarrow> tool_presentation \<Rightarrow> unit exec" where
  "finalize_cancellation w req cx p =
     sbind (lift_result (terminal_artifacts w req cx ''cancelled''
         (p\<lparr>tp_outcome := Some ''Cancelled'', tp_summary := ''Cancelled''\<rparr>) (Some (code_value CANCELLED))))
       (\<lambda>(measured, activity).
         andthen (note_event (Audited activity))
           (finish_terminal_event (terminal_of TOOL_CANCELLED req measured activity)))"

definition finalize_handler_outcome ::
  "exec_world \<Rightarrow> tool_request \<Rightarrow> tool_context \<Rightarrow> string \<Rightarrow> tool_presentation \<Rightarrow> string option \<Rightarrow> terminal_kind
   \<Rightarrow> tool_presentation exec"
where
  "finalize_handler_outcome w req cx outcome p code kind =
     sbind (lift_result (terminal_artifacts w req cx outcome p code)) (\<lambda>(measured, activity).
     andthen (note_event (Audited activity))
       (if ac_ending (ew_audit w) = ENDS_CANCELLED then raise CancelledError
        else if ac_caller_cancelled (ew_audit w) then
          andthen (finish_terminal_event (terminal_of kind req measured activity)) (raise CancelledError)
        else if ac_ending (ew_audit w) = ENDS_FAILED then raise (InvariantError ''Tool audit finalization failed.'')
        else
          andthen (note_event (Finished (terminal_of kind req measured activity)))
         (andthen (await_action (ew_terminal w) EmitError) (ret measured))))"

definition failed_presentation :: "tool_presentation \<Rightarrow> tool_error_code \<Rightarrow> string \<Rightarrow> tool_presentation" where
  "failed_presentation p code detail =
     p\<lparr>tp_outcome := Some ''Failed'', tp_summary := code_value code, tp_detail := Some detail\<rparr>"

definition finalize_unexpected_failure :: "exec_world \<Rightarrow> tool_request \<Rightarrow> tool_context \<Rightarrow> tool_presentation \<Rightarrow> unit exec" where
  "finalize_unexpected_failure w req cx p =
     andthen (finalize_handler_outcome w req cx ''error''
         (failed_presentation p EXECUTION_FAILED ''Tool execution failed.'')
         (Some (code_value EXECUTION_FAILED)) TOOL_FAILED)
       (ret ())"

definition checked_result :: "tool_result \<Rightarrow> tool_result exec" where
  "checked_result r = andthen (guard_else (valid_result r) RecordError) (ret r)"

definition error_result ::
  "exec_world \<Rightarrow> tool_request \<Rightarrow> tool_context \<Rightarrow> tool_presentation \<Rightarrow> expected_failure \<Rightarrow> tool_result exec"
where
  "error_result w req cx p f =
     (let detail = take 2000 (ef_message f) in
      andthen (guard_else (detail \<noteq> []) RecordError)
     (sbind (finalize_handler_outcome w req cx ''error'' (failed_presentation p (ef_code f) detail)
               (Some (code_value (ef_code f))) TOOL_FAILED) (\<lambda>shown.
        checked_result
          \<lparr>tr_call_id = rq_call_id req, tr_tool_name = rq_tool_name req, tr_status = ERROR, tr_content = detail,
           tr_metadata = ef_metadata f,
           tr_error = Some \<lparr>te_code = ef_code f, te_message = detail, te_retryable = ef_retryable f\<rparr>,
           tr_presentation = Some shown, tr_citations = []\<rparr>)))"

section \<open>The started event\<close>

definition note_started :: "tool_request \<Rightarrow> tool_presentation \<Rightarrow> unit exec" where
  "note_started req p = note_event (Started (rq_call_id req) (tp_verb p) (tp_target p))"

definition emit_started_with_cancellation ::
  "exec_world \<Rightarrow> tool_request \<Rightarrow> tool_context \<Rightarrow> tool_presentation \<Rightarrow> unit exec"
where
  "emit_started_with_cancellation w req cx p =
     andthen (note_started req p)
    (sbind (attempt (await_action (ew_started w) EmitError)) (\<lambda>r.
       case r of
         Inr _ \<Rightarrow> ret ()
       | Inl CancelledError \<Rightarrow> andthen (finalize_cancellation w req cx p) (raise CancelledError)
       | Inl e \<Rightarrow> raise e))"

definition cancelled_before_start :: "exec_world \<Rightarrow> tool_request \<Rightarrow> tool_context \<Rightarrow> tool_presentation \<Rightarrow> 'a exec" where
  "cancelled_before_start w req cx p =
     andthen (note_started req p)
    (andthen (finish_cancellation_safe (ew_started w) EmitError)
    (andthen (finalize_cancellation w req cx p) (raise CancelledError)))"

definition failed_before_start ::
  "exec_world \<Rightarrow> tool_request \<Rightarrow> tool_context \<Rightarrow> tool_presentation \<Rightarrow> string \<Rightarrow> 'a exec"
where
  "failed_before_start w req cx p message =
     andthen (emit_started_with_cancellation w req cx p)
    (andthen (finalize_unexpected_failure w req cx p) (raise (InvariantError message)))"

section \<open>Admission and description\<close>

definition admit_and_describe :: "'a tool_callbacks \<Rightarrow> 'a \<Rightarrow> tool_context \<Rightarrow> tool_description outcome" where
  "admit_and_describe cb args cx =
     (case cb_admit cb args cx of
        Inl e \<Rightarrow> Inl e
      | Inr False \<Rightarrow> Inl R_OTHER
      | Inr True \<Rightarrow>
          (case cb_describe cb args of
             Inl e \<Rightarrow> Inl e
           | Inr None \<Rightarrow> Inl R_OTHER
           | Inr (Some d) \<Rightarrow> if valid_description d then Inr d else Inl R_VALIDATION))"

section \<open>Permission, approval and the handler\<close>

definition authorize ::
  "exec_config \<Rightarrow> exec_world \<Rightarrow> string \<Rightarrow> tool_description \<Rightarrow> tool_context \<Rightarrow> (exec_state, raised, unit) eff"
where
  "authorize cfg w capability d cx =
     sbind (gets (\<lambda>s. xc_policy cfg (session_request (xs_session s) capability (tx_thread_id cx)))) (\<lambda>decision.
     andthen (guard_else (pd_reason decision \<noteq> [] \<and> length (pd_reason decision) \<le> 2000) R_OTHER)
     (case pd_action decision of
        DENY \<Rightarrow> raise (R_EXPECTED (expected_failure_of PERMISSION_DENIED (pd_reason decision)))
      | ALLOW \<Rightarrow> ret ()
      | ASK \<Rightarrow>
          (case ew_resolver w of
             None \<Rightarrow> raise (R_EXPECTED (expected_failure_of PERMISSION_DENIED ''This tool operation requires approval.''))
           | Some resolver \<Rightarrow>
               andthen (note_event (Asked (approval_request_for capability d)))
              (sbind (lift_result (resolver (approval_request_for capability d))) (\<lambda>approval.
                case approval of
                  None \<Rightarrow> raise R_OTHER
                | Some DENY_APPROVAL \<Rightarrow>
                    raise (R_EXPECTED (expected_failure_of PERMISSION_DENIED ''Tool operation was denied.''))
                | Some ALLOW_THREAD_WRITES \<Rightarrow>
                    andthen (guard_else (capability = capability_value WORKSPACE_WRITE) R_OTHER)
                      (modify (\<lambda>s. s\<lparr>xs_session := grant_thread_writes (xs_session s)\<rparr>))
                | Some ALLOW_THREAD_NETWORK \<Rightarrow>
                    andthen (guard_else (capability = capability_value NETWORK_READ) R_OTHER)
                   (sbind (gets (\<lambda>s. grant_thread_network (tx_thread_id cx) (xs_session s))) (\<lambda>r.
                      case r of Inl _ \<Rightarrow> raise R_OTHER | Inr session \<Rightarrow> modify (\<lambda>s. s\<lparr>xs_session := session\<rparr>)))
                | Some ALLOW_ONCE \<Rightarrow> ret ())))))"

text \<open>\<open>_invoke_with_deadline\<close>: the last part of the timeout, at most half of it and
  at most half a second, is kept for the handler to stop.\<close>

definition cleanup_grace :: "rat \<Rightarrow> rat" where
  "cleanup_grace timeout = min (1 / 2) (timeout / 2)"

definition before :: "rat option \<Rightarrow> rat \<Rightarrow> bool" where
  "before t limit \<longleftrightarrow> (case t of None \<Rightarrow> False | Some x \<Rightarrow> x < limit)"

text \<open>\<open>_cancel_handler_task\<close> told to propagate: whether the caller is cancelled before the
  handler stops or the deadline passes.\<close>

definition cancel_handler_task :: "rat \<Rightarrow> rat \<Rightarrow> handler_run \<Rightarrow> bool" where
  "cancel_handler_task since deadline run \<longleftrightarrow>
     before (hr_caller_cancels run)
       (case hr_stops run of None \<Rightarrow> deadline | Some t \<Rightarrow> min (max t since) deadline)"

definition invoke_with_deadline :: "rat \<Rightarrow> handler_run \<Rightarrow> tool_output option outcome" where
  "invoke_with_deadline timeout run =
     (let execution_deadline = timeout - cleanup_grace timeout;
          waits_until = (case hr_completes run of None \<Rightarrow> execution_deadline | Some t \<Rightarrow> min t execution_deadline)
      in if before (hr_caller_cancels run) waits_until then Inl R_CANCELLED
         else if (case hr_completes run of None \<Rightarrow> False | Some t \<Rightarrow> t \<le> execution_deadline) then hr_outcome run
         else if cancel_handler_task execution_deadline timeout run
         then Inl R_CANCELLED else Inl R_TIMEOUT)"

definition valid_citation :: "(string \<Rightarrow> bool) \<Rightarrow> citation \<Rightarrow> bool" where
  "valid_citation locator_ok c \<longleftrightarrow>
     valid_citation_id (ci_id c) \<and> valid_title (ci_title c) \<and> valid_url locator_ok (ci_url c)"

definition valid_output :: "(string \<Rightarrow> bool) \<Rightarrow> tool_output \<Rightarrow> bool" where
  "valid_output locator_ok out \<longleftrightarrow>
     (case to_presentation out of None \<Rightarrow> True | Some p \<Rightarrow> valid_presentation p) \<and>
     list_all (valid_citation locator_ok) (to_citations out) \<and> length (to_citations out) \<le> 128"

definition resolve_timeout :: "exec_config \<Rightarrow> 'a tool_callbacks \<Rightarrow> 'a \<Rightarrow> rat outcome" where
  "resolve_timeout cfg cb args =
     (case (case cb_timeout cb of None \<Rightarrow> Inr (xc_timeout cfg) | Some resolver \<Rightarrow> resolver args) of
        Inl e \<Rightarrow> Inl e
      | Inr t \<Rightarrow> if 0 < t then Inr t else Inl R_OTHER)"

definition run_handler ::
  "exec_config \<Rightarrow> exec_world \<Rightarrow> 'a tool_callbacks registered_tool \<Rightarrow> 'a \<Rightarrow> tool_description \<Rightarrow> tool_context
   \<Rightarrow> (exec_state, raised, tool_output) eff"
where
  "run_handler cfg w tool args d cx =
     andthen (authorize cfg w (ts_capability (rt_spec tool)) d cx)
    (sbind (lift_result (resolve_timeout cfg (rt_callbacks tool) args)) (\<lambda>timeout.
     andthen (note_event (HandlerRan timeout))
    (sbind (lift_result (invoke_with_deadline timeout (cb_handler (rt_callbacks tool) args cx))) (\<lambda>output.
       case output of
         None \<Rightarrow> raise R_OTHER
       | Some out \<Rightarrow> andthen (guard_else (valid_output (ew_locator_ok w) out) R_VALIDATION) (ret out)))))"

section \<open>Execution\<close>

definition success_result ::
  "exec_config \<Rightarrow> exec_world \<Rightarrow> tool_request \<Rightarrow> tool_context \<Rightarrow> tool_presentation \<Rightarrow> tool_output \<Rightarrow> tool_result exec"
where
  "success_result cfg w req cx p out =
     sbind (finalize_handler_outcome w req cx ''success''
        (case to_presentation out of
           Some shown \<Rightarrow> shown
         | None \<Rightarrow> p\<lparr>tp_outcome := Some ''Completed'', tp_summary := ''Completed'',
             tp_detail := (if to_content out = [] then None else Some (take 4000 (to_content out)))\<rparr>)
        None TOOL_COMPLETED) (\<lambda>shown.
       checked_result
         \<lparr>tr_call_id = rq_call_id req, tr_tool_name = rq_tool_name req, tr_status = SUCCESS,
          tr_content = take (xc_max_content cfg) (to_content out), tr_metadata = to_metadata out, tr_error = None,
          tr_presentation = Some shown, tr_citations = to_citations out\<rparr>)"

definition finish_call ::
  "exec_config \<Rightarrow> exec_world \<Rightarrow> tool_request \<Rightarrow> tool_context \<Rightarrow> tool_presentation \<Rightarrow> tool_output outcome \<Rightarrow> tool_result exec"
where
  "finish_call cfg w req cx p r =
     (case r of
        Inr out \<Rightarrow> success_result cfg w req cx p out
      | Inl R_CANCELLED \<Rightarrow> andthen (finalize_cancellation w req cx p) (raise CancelledError)
      | Inl R_TIMEOUT \<Rightarrow> error_result w req cx p (expected_failure_of TOOL_TIMEOUT ''Tool execution timed out.'')
      | Inl (R_EXPECTED f) \<Rightarrow>
          (case validate_expected_failure f of
             Some g \<Rightarrow> error_result w req cx p g
           | None \<Rightarrow> andthen (finalize_unexpected_failure w req cx p)
                (raise (InvariantError ''Unexpected tool handler failure.'')))
      | Inl _ \<Rightarrow> andthen (finalize_unexpected_failure w req cx p)
            (raise (InvariantError ''Unexpected tool handler failure.'')))"

definition execute_described ::
  "exec_config \<Rightarrow> exec_world \<Rightarrow> 'a tool_callbacks registered_tool \<Rightarrow> 'a \<Rightarrow> tool_description \<Rightarrow> tool_request \<Rightarrow> tool_context
   \<Rightarrow> tool_result exec"
where
  "execute_described cfg w tool args d req cx =
     (let p = plain_presentation (td_verb d) (td_display_target d) in
      andthen (emit_started_with_cancellation w req cx p)
     (sbind (attempt (run_handler cfg w tool args d cx)) (finish_call cfg w req cx p)))"

definition execute_validated ::
  "exec_config \<Rightarrow> exec_world \<Rightarrow> 'a tool_callbacks registered_tool \<Rightarrow> 'a \<Rightarrow> tool_request \<Rightarrow> tool_context
   \<Rightarrow> tool_presentation \<Rightarrow> tool_result exec"
where
  "execute_validated cfg w tool args req cx p =
     (case admit_and_describe (rt_callbacks tool) args cx of
        Inr d \<Rightarrow> execute_described cfg w tool args d req cx
      | Inl R_CANCELLED \<Rightarrow> cancelled_before_start w req cx p
      | Inl (R_EXPECTED f) \<Rightarrow>
          (case validate_expected_failure f of
             Some g \<Rightarrow> andthen (emit_started_with_cancellation w req cx p) (error_result w req cx p g)
           | None \<Rightarrow> failed_before_start w req cx p ''Unexpected tool invocation policy failure.'')
      | Inl _ \<Rightarrow> failed_before_start w req cx p ''Unexpected tool invocation policy failure.'')"

definition execute ::
  "exec_config \<Rightarrow> 'a tool_callbacks registry \<Rightarrow> exec_world \<Rightarrow> tool_request \<Rightarrow> tool_context \<Rightarrow> tool_result exec"
where
  "execute cfg reg w req cx =
     (let registered = resolve reg (rq_tool_name req);
          p = static_presentation req registered
      in case registered of
           None \<Rightarrow>
             andthen (emit_started_with_cancellation w req cx p)
               (error_result w req cx p (expected_failure_of NOT_FOUND ''Unknown tool.''))
         | Some tool \<Rightarrow>
             (case cb_validate (rt_callbacks tool) (rq_arguments req) of
                Inr args \<Rightarrow> execute_validated cfg w tool args req cx p
              | Inl R_CANCELLED \<Rightarrow> cancelled_before_start w req cx p
              | Inl R_VALIDATION \<Rightarrow>
                  andthen (emit_started_with_cancellation w req cx p)
                    (error_result w req cx p
                      (expected_failure_of INVALID_ARGUMENTS ''Tool arguments did not match the schema.''))
              | Inl _ \<Rightarrow> failed_before_start w req cx p ''Unexpected tool input validation failure.''))"

section \<open>What a computation adds to the trace\<close>

definition emits ::
  "permission_session \<Rightarrow> (exec_state, 'e, 'a) eff \<Rightarrow> ('e + 'a \<Rightarrow> permission_session \<Rightarrow> exec_event list \<Rightarrow> bool) \<Rightarrow> bool"
where
  "emits \<sigma> m Q \<longleftrightarrow>
     (\<forall>s r s'. xs_session s = \<sigma> \<longrightarrow> m s = (r, s') \<longrightarrow>
        (\<exists>ev. xs_trace s' = xs_trace s @ ev \<and> Q r (xs_session s') ev))"

lemma emitsI:
  "(\<And>s r s'. xs_session s = \<sigma> \<Longrightarrow> m s = (r, s') \<Longrightarrow> \<exists>ev. xs_trace s' = xs_trace s @ ev \<and> Q r (xs_session s') ev)
   \<Longrightarrow> emits \<sigma> m Q"
  by (simp add: emits_def)

lemma emitsD:
  "emits \<sigma> m Q \<Longrightarrow> xs_session s = \<sigma> \<Longrightarrow> m s = (r, s') \<Longrightarrow> \<exists>ev. xs_trace s' = xs_trace s @ ev \<and> Q r (xs_session s') ev"
  by (simp add: emits_def)

lemma emits_weaken: "emits \<sigma> m Q \<Longrightarrow> (\<And>r \<sigma>' ev. Q r \<sigma>' ev \<Longrightarrow> R r \<sigma>' ev) \<Longrightarrow> emits \<sigma> m R"
  by (fastforce simp: emits_def)

lemma emits_sbind:
  assumes "emits \<sigma> m Q1" and "\<And>x \<sigma>1 ev. Q1 (Inr x) \<sigma>1 ev \<Longrightarrow> emits \<sigma>1 (f x) (\<lambda>r \<sigma>2 ev2. Q r \<sigma>2 (ev @ ev2))"
    and "\<And>e \<sigma>1 ev. Q1 (Inl e) \<sigma>1 ev \<Longrightarrow> Q (Inl e) \<sigma>1 ev"
  shows "emits \<sigma> (sbind m f) Q"
proof (rule emitsI)
  fix s r s' assume s: "xs_session s = \<sigma>" and run: "sbind m f s = (r, s')"
  obtain q s1 where m: "m s = (q, s1)" by (metis surj_pair)
  from emitsD [OF assms(1) s m] obtain ev where ev: "xs_trace s1 = xs_trace s @ ev" "Q1 q (xs_session s1) ev" by blast
  show "\<exists>ev. xs_trace s' = xs_trace s @ ev \<and> Q r (xs_session s') ev"
  proof (cases q)
    case (Inl e)
    with m run ev assms(3) show ?thesis by (auto simp: sbind_def)
  next
    case (Inr x)
    then have "f x s1 = (r, s')" using m run by (simp add: sbind_def)
    from emitsD [OF assms(2) [OF ev(2) [unfolded Inr]] refl this] ev(1) show ?thesis by auto
  qed
qed

lemma emits_andthen:
  "emits \<sigma> m Q1 \<Longrightarrow> (\<And>x \<sigma>1 ev. Q1 (Inr x) \<sigma>1 ev \<Longrightarrow> emits \<sigma>1 k (\<lambda>r \<sigma>2 ev2. Q r \<sigma>2 (ev @ ev2))) \<Longrightarrow>
   (\<And>e \<sigma>1 ev. Q1 (Inl e) \<sigma>1 ev \<Longrightarrow> Q (Inl e) \<sigma>1 ev) \<Longrightarrow> emits \<sigma> (andthen m k) Q"
  unfolding andthen_def by (rule emits_sbind)

lemma emits_ret [simp]: "emits \<sigma> (ret x) Q \<longleftrightarrow> Q (Inr x) \<sigma> []"
  and emits_raise [simp]: "emits \<sigma> (raise e) Q \<longleftrightarrow> Q (Inl e) \<sigma> []"
  and emits_lift [simp]: "emits \<sigma> (lift_result q) Q \<longleftrightarrow> Q q \<sigma> []"
  and emits_note [simp]: "emits \<sigma> (note_event v) Q' \<longleftrightarrow> Q' (Inr ()) \<sigma> [v]"
  by (auto simp: emits_def note_event_def intro: exI [of _ "\<lparr>xs_session = \<sigma>, xs_trace = []\<rparr>"])

section \<open>The order of the calls\<close>

fun rank :: "exec_event \<Rightarrow> nat" where
  "rank (Started _ _ _) = 0"
| "rank (Asked _) = 1"
| "rank (HandlerRan _) = 2"
| "rank (Audited _) = 3"
| "rank (Finished _) = 4"

text \<open>The end of a call that raises: nothing, the audit, or the audit and the event.\<close>

definition tail_ranks :: "exec_event list \<Rightarrow> bool" where
  "tail_ranks ev \<longleftrightarrow> map rank ev \<in> {[], [3], [3, 4]}"

text \<open>The end of a call that returns: audit and event agree with each other and with the result.\<close>

definition settles :: "tool_request \<Rightarrow> tool_result \<Rightarrow> exec_event list \<Rightarrow> bool" where
  "settles req r ev \<longleftrightarrow>
     tr_call_id r = rq_call_id req \<and> tr_tool_name r = rq_tool_name req \<and> valid_result r \<and>
     (\<exists>a t. ev = [Audited a, Finished t] \<and> valid_activity a \<and>
        ta_call_id a = rq_call_id req \<and> ta_tool_name a = rq_tool_name req \<and>
        tm_call_id t = rq_call_id req \<and> tm_tool_name t = rq_tool_name req \<and>
        ta_outcome a = (if tr_status r = SUCCESS then ''success'' else ''error'') \<and>
        tm_kind t = (if tr_status r = SUCCESS then TOOL_COMPLETED else TOOL_FAILED) \<and>
        ta_error_code a = map_option (\<lambda>e. code_value (te_code e)) (tr_error r) \<and>
        tm_error_code t = ta_error_code a \<and> tm_duration_ms t = ta_duration_ms a)"

lemma settles_ranks: "settles req r ev \<Longrightarrow> map rank ev = [3, 4]"
  by (auto simp: settles_def)

lemma terminal_artifacts_cases:
  "terminal_artifacts w req cx outcome p code = Inr (measured, a) \<longleftrightarrow>
     measured = p\<lparr>tp_duration_ms := Some (duration_of w)\<rparr> \<and> a = activity_of w req cx outcome measured code \<and> valid_activity a"
  by (auto simp: terminal_artifacts_def Let_def)

lemma emits_await: "emits \<sigma> (await_action a e) (\<lambda>r \<sigma>' ev. \<sigma>' = \<sigma> \<and> ev = [] \<and> (r = Inr () \<or> r = Inl CancelledError \<or> r = Inl e))"
  by (simp add: await_action_def split: ending.split)

lemma emits_safe: "emits \<sigma> (finish_cancellation_safe a e) (\<lambda>r \<sigma>' ev. \<sigma>' = \<sigma> \<and> ev = [])"
  by (simp add: finish_cancellation_safe_def split: ending.split)

lemma emits_finalize_cancellation:
  "emits \<sigma> (finalize_cancellation w req cx p) (\<lambda>r \<sigma>' ev. \<sigma>' = \<sigma> \<and> tail_ranks ev \<and>
     (r = Inr () \<longrightarrow> (\<exists>a t. ev = [Audited a, Finished t] \<and> ta_outcome a = ''cancelled'' \<and> tm_kind t = TOOL_CANCELLED)))"
  unfolding finalize_cancellation_def
  by (rule emits_sbind [where ?Q1.0 = "\<lambda>r \<sigma>' ev. \<sigma>' = \<sigma> \<and> ev = [] \<and> terminal_artifacts w req cx ''cancelled''
         (p\<lparr>tp_outcome := Some ''Cancelled'', tp_summary := ''Cancelled''\<rparr>) (Some (code_value CANCELLED)) = r"])
    (auto simp: andthen_def finish_terminal_event_def tail_ranks_def terminal_artifacts_cases activity_of_def terminal_of_def
      intro!: emits_sbind [where ?Q1.0 = "\<lambda>r \<sigma>' ev. \<sigma>' = \<sigma> \<and> (\<exists>a. ev = [Audited a] \<and> ta_outcome a = ''cancelled'')"])

lemma emits_finalize_outcome:
  "emits \<sigma> (finalize_handler_outcome w req cx outcome p code kind) (\<lambda>r \<sigma>' ev. \<sigma>' = \<sigma> \<and> tail_ranks ev \<and>
     (\<forall>shown. r = Inr shown \<longrightarrow> shown = p\<lparr>tp_duration_ms := Some (duration_of w)\<rparr> \<and>
        (let a = activity_of w req cx outcome shown code in
         valid_activity a \<and> ev = [Audited a, Finished (terminal_of kind req shown a)])))"
proof (rule emitsI)
  fix s r s' assume s: "xs_session s = \<sigma>" and run: "finalize_handler_outcome w req cx outcome p code kind s = (r, s')"
  show "\<exists>ev. xs_trace s' = xs_trace s @ ev \<and> xs_session s' = \<sigma> \<and> tail_ranks ev \<and>
     (\<forall>shown. r = Inr shown \<longrightarrow> shown = p\<lparr>tp_duration_ms := Some (duration_of w)\<rparr> \<and>
        (let a = activity_of w req cx outcome shown code in
         valid_activity a \<and> ev = [Audited a, Finished (terminal_of kind req shown a)]))"
  proof (cases "terminal_artifacts w req cx outcome p code")
    case (Inl e)
    with run s show ?thesis
      by (auto simp: finalize_handler_outcome_def sbind_def tail_ranks_def)
  next
    case (Inr ma)
    then obtain measured a where ma: "terminal_artifacts w req cx outcome p code = Inr (measured, a)" by (cases ma) auto
    with run s show ?thesis
      by (auto simp: finalize_handler_outcome_def sbind_def [of "lift_result _"] note_event_def finish_terminal_event_def tail_ranks_def
          await_action_def terminal_artifacts_cases run_andthen_Inr run_andthen_Inl Let_def split: if_splits ending.splits)
  qed
qed

lemma emits_checked: "emits \<sigma> (checked_result res) (\<lambda>r \<sigma>' ev. \<sigma>' = \<sigma> \<and> ev = [] \<and> (\<forall>x. r = Inr x \<longrightarrow> x = res \<and> valid_result res))"
  by (simp add: emits_def checked_result_def)

lemma emits_guard [simp]: "emits \<sigma> (guard_else b e) Q \<longleftrightarrow> Q (if b then Inr () else Inl e) \<sigma> []"
  by (simp add: guard_else_def)

text \<open>The results of a handler outcome that was finalized.\<close>

lemma emits_result:
  assumes "\<And>shown. tr_call_id (mk shown) = rq_call_id req \<and> tr_tool_name (mk shown) = rq_tool_name req \<and>
      outcome = (if tr_status (mk shown) = SUCCESS then ''success'' else ''error'') \<and>
      kind = (if tr_status (mk shown) = SUCCESS then TOOL_COMPLETED else TOOL_FAILED) \<and>
      code = map_option (\<lambda>e. code_value (te_code e)) (tr_error (mk shown))"
  shows "emits \<sigma> (sbind (finalize_handler_outcome w req cx outcome p code kind) (\<lambda>shown. checked_result (mk shown)))
    (\<lambda>r \<sigma>' ev. \<sigma>' = \<sigma> \<and> tail_ranks ev \<and> (\<forall>res. r = Inr res \<longrightarrow> settles req res ev \<and> (\<exists>shown. res = mk shown)))"
proof (rule emits_sbind [OF emits_finalize_outcome])
  fix shown \<sigma>1 ev
  assume Q: "\<sigma>1 = \<sigma> \<and> tail_ranks ev \<and> (\<forall>y. Inr shown = (Inr y :: exec_error + tool_presentation) \<longrightarrow>
      y = p\<lparr>tp_duration_ms := Some (duration_of w)\<rparr> \<and>
      (let a = activity_of w req cx outcome y code in
         valid_activity a \<and> ev = [Audited a, Finished (terminal_of kind req y a)]))"
  define a where "a = activity_of w req cx outcome shown code"
  have ev: "ev = [Audited a, Finished (terminal_of kind req shown a)]" and ok: "valid_activity a"
    and tail: "tail_ranks ev" "\<sigma>1 = \<sigma>"
    using Q by (auto simp: Let_def a_def)
  have "ta_call_id a = rq_call_id req" "ta_tool_name a = rq_tool_name req" "ta_outcome a = outcome" "ta_error_code a = code"
    by (simp_all add: a_def activity_of_def)
  then have settled: "settles req (mk shown) ev" if "valid_result (mk shown)"
    unfolding settles_def using assms [of shown] that ok
    by (intro conjI exI [of _ a] exI [of _ "terminal_of kind req shown a"]) (simp_all add: ev terminal_of_def)
  show "emits \<sigma>1 (checked_result (mk shown)) (\<lambda>r \<sigma>2 ev2. \<sigma>2 = \<sigma> \<and> tail_ranks (ev @ ev2) \<and>
      (\<forall>res. r = Inr res \<longrightarrow> settles req res (ev @ ev2) \<and> (\<exists>shown. res = mk shown)))"
    by (rule emits_weaken [OF emits_checked]) (use settled tail in auto)
qed simp

lemma emits_error_result:
  "emits \<sigma> (error_result w req cx p f) (\<lambda>r \<sigma>' ev. \<sigma>' = \<sigma> \<and> tail_ranks ev \<and>
     (\<forall>res. r = Inr res \<longrightarrow> settles req res ev \<and> tr_status res = ERROR \<and>
        (\<exists>e. tr_error res = Some e \<and> te_code e = ef_code f)))"
  unfolding error_result_def Let_def
  by (rule emits_andthen [where ?Q1.0 = "\<lambda>r \<sigma>' ev. \<sigma>' = \<sigma> \<and> ev = []"])
    (auto simp: tail_ranks_def intro!: emits_weaken [OF emits_result])

lemma emits_success_result:
  "emits \<sigma> (success_result cfg w req cx p out) (\<lambda>r \<sigma>' ev. \<sigma>' = \<sigma> \<and> tail_ranks ev \<and>
     (\<forall>res. r = Inr res \<longrightarrow> settles req res ev \<and> tr_status res = SUCCESS \<and>
        tr_content res = take (xc_max_content cfg) (to_content out) \<and> tr_citations res = to_citations out))"
  unfolding success_result_def
  by (rule emits_weaken [OF emits_result]) auto

lemma emits_unexpected: "emits \<sigma> (finalize_unexpected_failure w req cx p) (\<lambda>r \<sigma>' ev. \<sigma>' = \<sigma> \<and> tail_ranks ev)"
  unfolding finalize_unexpected_failure_def
  by (rule emits_andthen [OF emits_finalize_outcome]) auto

text \<open>A computation that never returns, and ends the trace.\<close>

definition only_raises :: "permission_session \<Rightarrow> (exec_event list \<Rightarrow> bool) \<Rightarrow> 'e + 'a \<Rightarrow> permission_session \<Rightarrow> exec_event list \<Rightarrow> bool" where
  "only_raises \<sigma> P r \<sigma>' ev \<longleftrightarrow> \<sigma>' = \<sigma> \<and> P ev \<and> (\<exists>e. r = Inl e)"

lemma emits_unexpected_raise:
  "emits \<sigma> (andthen (finalize_unexpected_failure w req cx p) (raise e)) (only_raises \<sigma> tail_ranks)"
  by (rule emits_andthen [OF emits_unexpected]) (auto simp: only_raises_def)

lemma emits_cancellation_raise:
  "emits \<sigma> (andthen (finalize_cancellation w req cx p) (raise e)) (only_raises \<sigma> tail_ranks)"
  by (rule emits_andthen [OF emits_finalize_cancellation]) (auto simp: only_raises_def)

definition started_ranks :: "exec_event list \<Rightarrow> bool" where
  "started_ranks ev \<longleftrightarrow> (\<exists>e ev'. ev = e # ev' \<and> rank e = 0 \<and> tail_ranks ev')"

lemma emits_note_started: "emits \<sigma> (note_started req p) (\<lambda>r \<sigma>' ev. r = Inr () \<and> \<sigma>' = \<sigma> \<and> (\<exists>e. ev = [e] \<and> rank e = 0))"
  by (simp add: note_started_def)

lemma emits_attempt: "emits \<sigma> m Q \<Longrightarrow> emits \<sigma> (attempt m) (\<lambda>r \<sigma>' ev. \<exists>q. r = Inr q \<and> Q q \<sigma>' ev)"
  by (fastforce simp: emits_def attempt_def split: prod.splits)

lemma emits_started:
  "emits \<sigma> (emit_started_with_cancellation w req cx p) (\<lambda>r \<sigma>' ev. \<sigma>' = \<sigma> \<and> started_ranks ev \<and>
     (r = Inr () \<longrightarrow> (\<exists>e. ev = [e] \<and> rank e = 0)))"
  unfolding emit_started_with_cancellation_def
proof (rule emits_andthen [OF emits_note_started])
  fix x :: unit and \<sigma>1 ev
  assume ev: "(Inr x :: exec_error + unit) = Inr () \<and> \<sigma>1 = \<sigma> \<and> (\<exists>e. ev = [e] \<and> rank e = 0)"
  let ?Q = "\<lambda>r \<sigma>2 ev2. \<sigma>2 = \<sigma> \<and> started_ranks (ev @ ev2) \<and> (r = Inr () \<longrightarrow> (\<exists>e. ev @ ev2 = [e] \<and> rank e = 0))"
  have quiet: "?Q (r :: exec_error + unit) \<sigma> []" for r using ev by (auto simp: started_ranks_def tail_ranks_def)
  have "emits \<sigma> (andthen (finalize_cancellation w req cx p) (raise CancelledError)) ?Q"
    by (rule emits_weaken [OF emits_cancellation_raise]) (use ev in \<open>auto simp: only_raises_def started_ranks_def\<close>)
  then show "emits \<sigma>1 (sbind (attempt (await_action (ew_started w) EmitError))
      (\<lambda>r. case r of Inl CancelledError \<Rightarrow> andthen (finalize_cancellation w req cx p) (raise CancelledError)
           | Inl e \<Rightarrow> raise e | Inr _ \<Rightarrow> ret ())) ?Q"
    using ev quiet
    by (intro emits_sbind [OF emits_attempt [OF emits_await]]) (auto split: sum.split exec_error.split)
qed auto

lemma emits_cancelled_before_start:
  "emits \<sigma> (cancelled_before_start w req cx p) (only_raises \<sigma> started_ranks)"
  unfolding cancelled_before_start_def
proof (rule emits_andthen [OF emits_note_started])
  fix x :: unit and \<sigma>1 ev
  assume ev: "(Inr x :: exec_error + unit) = Inr () \<and> \<sigma>1 = \<sigma> \<and> (\<exists>e. ev = [e] \<and> rank e = 0)"
  show "emits \<sigma>1 (andthen (finish_cancellation_safe (ew_started w) EmitError)
      (andthen (finalize_cancellation w req cx p) (raise CancelledError)))
      (\<lambda>r \<sigma>2 ev2. only_raises \<sigma> started_ranks r \<sigma>2 (ev @ ev2))"
    by (rule emits_andthen [OF emits_safe], rule emits_weaken [OF emits_cancellation_raise])
      (use ev in \<open>auto simp: only_raises_def started_ranks_def tail_ranks_def\<close>)
qed auto

lemma emits_failed_before_start:
  "emits \<sigma> (failed_before_start w req cx p message) (only_raises \<sigma> started_ranks)"
  unfolding failed_before_start_def
  by (rule emits_andthen [OF emits_started], rule emits_weaken [OF emits_unexpected_raise])
    (auto simp: only_raises_def started_ranks_def)

section \<open>Who lets a handler run\<close>

definition permits :: "exec_config \<Rightarrow> exec_world \<Rightarrow> string \<Rightarrow> tool_description \<Rightarrow> tool_context \<Rightarrow> permission_session \<Rightarrow> bool" where
  "permits cfg w capability d cx \<sigma> \<longleftrightarrow>
     (let decision = xc_policy cfg (session_request \<sigma> capability (tx_thread_id cx)) in
      pd_action decision = ALLOW \<or>
      (pd_action decision = ASK \<and>
        (\<exists>resolver answer. ew_resolver w = Some resolver \<and>
           resolver (approval_request_for capability d) = Inr (Some answer) \<and> answer \<noteq> DENY_APPROVAL)))"

definition granted_by ::
  "exec_world \<Rightarrow> string \<Rightarrow> tool_description \<Rightarrow> tool_context \<Rightarrow> permission_session \<Rightarrow> permission_session \<Rightarrow> bool"
where
  "granted_by w capability d cx \<sigma> \<sigma>' \<longleftrightarrow>
     \<sigma>' = \<sigma> \<or>
     (\<exists>resolver. ew_resolver w = Some resolver \<and>
        (resolver (approval_request_for capability d) = Inr (Some ALLOW_THREAD_WRITES) \<and>
           capability = capability_value WORKSPACE_WRITE \<and> \<sigma>' = grant_thread_writes \<sigma> \<or>
         resolver (approval_request_for capability d) = Inr (Some ALLOW_THREAD_NETWORK) \<and>
           capability = capability_value NETWORK_READ \<and> grant_thread_network (tx_thread_id cx) \<sigma> = Inr \<sigma>'))"

lemma emits_authorize:
  "emits \<sigma> (authorize cfg w capability d cx) (\<lambda>r \<sigma>' ev. map rank ev \<in> {[], [1]} \<and> granted_by w capability d cx \<sigma> \<sigma>' \<and>
     (r = Inr () \<longrightarrow> permits cfg w capability d cx \<sigma>))"
proof (rule emitsI)
  fix s r s' assume s: "xs_session s = \<sigma>" and run: "authorize cfg w capability d cx s = (r, s')"
  define decision where "decision = xc_policy cfg (session_request \<sigma> capability (tx_thread_id cx))"
  let ?goal = "\<exists>ev. xs_trace s' = xs_trace s @ ev \<and> map rank ev \<in> {[], [1]} \<and> granted_by w capability d cx \<sigma> (xs_session s') \<and>
     (r = Inr () \<longrightarrow> permits cfg w capability d cx \<sigma>)"
  have quiet: ?goal if "s' = s" and "r = Inr () \<Longrightarrow> permits cfg w capability d cx \<sigma>"
    using that s by (auto simp: granted_by_def)
  note run = run [unfolded authorize_def run_sbind_prims s decision_def [symmetric]]
  show ?goal
  proof (cases "pd_action decision")
    case DENY
    with run show ?thesis by (intro quiet) (auto split: if_splits)
  next
    case ALLOW
    with run show ?thesis by (intro quiet) (auto simp: permits_def decision_def [symmetric] split: if_splits)
  next
    case ASK
    show ?thesis
    proof (cases "ew_resolver w")
      case None
      with ASK run show ?thesis by (intro quiet) (auto split: if_splits)
    next
      case (Some resolver)
      show ?thesis
      proof (cases "pd_reason decision \<noteq> [] \<and> length (pd_reason decision) \<le> 2000")
        case False
        with run show ?thesis by (intro quiet) auto
      next
        case True
        define q where "q = approval_request_for capability d"
        have P: "permits cfg w capability d cx \<sigma>" if "resolver q = Inr (Some a)" "a \<noteq> DENY_APPROVAL" for a
          using that ASK Some by (auto simp: permits_def decision_def [symmetric] q_def)
        note run = run [folded q_def]
        show ?thesis
          using run True ASK Some s P
          by (cases "resolver q" ; cases r)
            (auto simp: note_event_def sbind_def [of "lift_result _"] granted_by_def q_def [symmetric]
              split: option.splits tool_approval_decision.splits if_splits sum.splits)
      qed
    qed
  qed
qed

text \<open>What the trace and the session say after the guarded part of a call.\<close>

definition handler_part ::
  "exec_config \<Rightarrow> exec_world \<Rightarrow> 'a tool_callbacks registered_tool \<Rightarrow> 'a \<Rightarrow> tool_description \<Rightarrow> tool_context
   \<Rightarrow> permission_session \<Rightarrow> permission_session \<Rightarrow> exec_event list \<Rightarrow> bool"
where
  "handler_part cfg w tool args d cx \<sigma> \<sigma>' ev \<longleftrightarrow>
     granted_by w (ts_capability (rt_spec tool)) d cx \<sigma> \<sigma>' \<and>
     (\<forall>t. HandlerRan t \<in> set ev \<longrightarrow>
        permits cfg w (ts_capability (rt_spec tool)) d cx \<sigma> \<and> resolve_timeout cfg (rt_callbacks tool) args = Inr t)"

definition returned_by ::
  "exec_config \<Rightarrow> exec_world \<Rightarrow> 'a tool_callbacks registered_tool \<Rightarrow> 'a \<Rightarrow> tool_context \<Rightarrow> tool_output \<Rightarrow> exec_event list \<Rightarrow> bool"
where
  "returned_by cfg w tool args cx out ev \<longleftrightarrow>
     (\<exists>t. HandlerRan t \<in> set ev \<and>
        invoke_with_deadline t (cb_handler (rt_callbacks tool) args cx) = Inr (Some out) \<and> valid_output (ew_locator_ok w) out)"

lemma ranks_no_handler: "map rank ev \<in> {[], [1], [3], [3, 4]} \<Longrightarrow> HandlerRan t \<notin> set ev"
proof
  assume "map rank ev \<in> {[], [1], [3], [3, 4]}" and "HandlerRan t \<in> set ev"
  moreover have "rank (HandlerRan t) \<in> set (map rank ev)" using calculation(2) by (metis imageI set_map)
  ultimately show False by auto
qed

lemma emits_run_handler:
  "emits \<sigma> (run_handler cfg w tool args d cx) (\<lambda>r \<sigma>' ev.
     map rank ev \<in> {[], [1], [2], [1, 2]} \<and> handler_part cfg w tool args d cx \<sigma> \<sigma>' ev \<and>
     (\<forall>out. r = Inr out \<longrightarrow> returned_by cfg w tool args cx out ev))"
  (is "emits \<sigma> _ ?Q")
  unfolding run_handler_def
proof (rule emits_andthen [OF emits_authorize])
  fix e \<sigma>1 ev
  assume Q: "map rank ev \<in> {[], [1]} \<and> granted_by w (ts_capability (rt_spec tool)) d cx \<sigma> \<sigma>1 \<and>
      ((Inl e :: raised + unit) = Inr () \<longrightarrow> permits cfg w (ts_capability (rt_spec tool)) d cx \<sigma>)"
  then have "HandlerRan t \<notin> set ev" for t using ranks_no_handler [of ev t] by auto
  with Q show "?Q (Inl e) \<sigma>1 ev" by (auto simp: handler_part_def)
next
  fix x :: unit and \<sigma>1 ev
  assume Q: "map rank ev \<in> {[], [1]} \<and> granted_by w (ts_capability (rt_spec tool)) d cx \<sigma> \<sigma>1 \<and>
      ((Inr x :: raised + unit) = Inr () \<longrightarrow> permits cfg w (ts_capability (rt_spec tool)) d cx \<sigma>)"
  have none: "HandlerRan t \<notin> set ev" for t using Q ranks_no_handler [of ev t] by auto
  have ranks: "map rank ev \<in> {[], [1]}" using Q by blast
  have quiet: "?Q (Inl e) \<sigma>1 ev" for e :: raised
    using Q none by (auto simp: handler_part_def)
  let ?P = "\<lambda>r \<sigma>2 ev2. ?Q r \<sigma>2 (ev @ ev2)"
  have inner: "emits \<sigma>1 (andthen (note_event (HandlerRan t))
      (sbind (lift_result (invoke_with_deadline t (cb_handler (rt_callbacks tool) args cx))) (\<lambda>output.
         case output of None \<Rightarrow> raise R_OTHER
         | Some out \<Rightarrow> andthen (guard_else (valid_output (ew_locator_ok w) out) R_VALIDATION) (ret out)))) ?P"
    if t: "resolve_timeout cfg (rt_callbacks tool) args = Inr t" for t
  proof (rule emits_andthen [where ?Q1.0 = "\<lambda>r \<sigma>' ev. r = Inr () \<and> \<sigma>' = \<sigma>1 \<and> ev = [HandlerRan t]"])
    fix y :: unit and \<sigma>2 ev2 assume ev2: "(Inr y :: raised + unit) = Inr () \<and> \<sigma>2 = \<sigma>1 \<and> ev2 = [HandlerRan t]"
    have ran: "map rank (ev @ [HandlerRan t]) \<in> {[], [1], [2], [1, 2]}" using ranks by auto
    have part: "handler_part cfg w tool args d cx \<sigma> \<sigma>1 (ev @ [HandlerRan t])"
      using Q none t by (auto simp: handler_part_def)
    show "emits \<sigma>2 (sbind (lift_result (invoke_with_deadline t (cb_handler (rt_callbacks tool) args cx))) (\<lambda>output.
         case output of None \<Rightarrow> raise R_OTHER
         | Some out \<Rightarrow> andthen (guard_else (valid_output (ew_locator_ok w) out) R_VALIDATION) (ret out)))
       (\<lambda>r \<sigma>3 ev3. ?P r \<sigma>3 (ev2 @ ev3))"
      using ev2 ran part
      by (intro emits_sbind [where ?Q1.0 = "\<lambda>r \<sigma>' ev. \<sigma>' = \<sigma>1 \<and> ev = [] \<and> invoke_with_deadline t (cb_handler (rt_callbacks tool) args cx) = r"])
        (auto split: option.split simp: returned_by_def andthen_def
          intro!: emits_sbind [where ?Q1.0 = "\<lambda>r \<sigma>' ev. \<sigma>' = \<sigma>1 \<and> ev = [] \<and> (r = Inr () \<longrightarrow> valid_output (ew_locator_ok w) _)"])
  qed auto
  show "emits \<sigma>1 (sbind (lift_result (resolve_timeout cfg (rt_callbacks tool) args)) (\<lambda>timeout.
      andthen (note_event (HandlerRan timeout))
      (sbind (lift_result (invoke_with_deadline timeout (cb_handler (rt_callbacks tool) args cx))) (\<lambda>output.
         case output of None \<Rightarrow> raise R_OTHER
         | Some out \<Rightarrow> andthen (guard_else (valid_output (ew_locator_ok w) out) R_VALIDATION) (ret out))))) ?P"
    by (rule emits_sbind [where ?Q1.0 = "\<lambda>r \<sigma>' ev. \<sigma>' = \<sigma>1 \<and> ev = [] \<and> resolve_timeout cfg (rt_callbacks tool) args = r"])
      (use inner quiet in auto)
qed

section \<open>The whole call\<close>

text \<open>What one execution adds: its started event, at most one question, at most one
  run of the handler, at most one audit record and at most one terminal event, in this
  order; a run of the handler was validated, admitted, described and permitted; a result
  comes with an audit record and a terminal event that agree with it.\<close>

definition in_order :: "exec_event list \<Rightarrow> bool" where
  "in_order ev \<longleftrightarrow> ev \<noteq> [] \<and> rank (hd ev) = 0 \<and> sorted_wrt (<) (map rank ev)"

definition gated :: "exec_config \<Rightarrow> 'a tool_callbacks registry \<Rightarrow> exec_world \<Rightarrow> tool_request \<Rightarrow> tool_context
  \<Rightarrow> permission_session \<Rightarrow> permission_session \<Rightarrow> exec_event list \<Rightarrow> bool"
where
  "gated cfg reg w req cx \<sigma> \<sigma>' ev \<longleftrightarrow>
     \<sigma>' = \<sigma> \<and> (\<forall>t. HandlerRan t \<notin> set ev) \<or>
     (\<exists>tool args d. resolve reg (rq_tool_name req) = Some tool \<and>
        cb_validate (rt_callbacks tool) (rq_arguments req) = Inr args \<and>
        admit_and_describe (rt_callbacks tool) args cx = Inr d \<and>
        handler_part cfg w tool args d cx \<sigma> \<sigma>' ev)"

definition succeeded :: "exec_config \<Rightarrow> 'a tool_callbacks registry \<Rightarrow> exec_world \<Rightarrow> tool_request \<Rightarrow> tool_context
  \<Rightarrow> tool_result \<Rightarrow> exec_event list \<Rightarrow> bool"
where
  "succeeded cfg reg w req cx res ev \<longleftrightarrow>
     (\<exists>tool args out. resolve reg (rq_tool_name req) = Some tool \<and>
        cb_validate (rt_callbacks tool) (rq_arguments req) = Inr args \<and> returned_by cfg w tool args cx out ev \<and>
        tr_content res = take (xc_max_content cfg) (to_content out) \<and> tr_citations res = to_citations out)"

definition call_ok ::
  "exec_config \<Rightarrow> 'a tool_callbacks registry \<Rightarrow> exec_world \<Rightarrow> tool_request \<Rightarrow> tool_context \<Rightarrow> permission_session
   \<Rightarrow> exec_error + tool_result \<Rightarrow> permission_session \<Rightarrow> exec_event list \<Rightarrow> bool"
where
  "call_ok cfg reg w req cx \<sigma> r \<sigma>' ev \<longleftrightarrow>
     in_order ev \<and> gated cfg reg w req cx \<sigma> \<sigma>' ev \<and>
     (\<forall>res. r = Inr res \<longrightarrow> (\<exists>ev1 ev2. ev = ev1 @ ev2 \<and> settles req res ev2) \<and>
        (tr_status res = SUCCESS \<longrightarrow> succeeded cfg reg w req cx res ev))"

lemma started_ranks_facts:
  assumes "started_ranks ev"
  shows "in_order ev" and "HandlerRan t \<notin> set ev"
proof -
  obtain e ev' where ev: "ev = e # ev'" "rank e = 0" "map rank ev' \<in> {[], [3], [3, 4]}"
    using assms by (auto simp: started_ranks_def tail_ranks_def)
  then show "in_order ev" by (auto simp: in_order_def)
  have "HandlerRan t \<notin> set ev'" using ranks_no_handler [of ev' t] ev(3) by auto
  moreover have "e \<noteq> HandlerRan t" using ev(2) by auto
  ultimately show "HandlerRan t \<notin> set ev" by (simp add: ev(1))
qed

lemma emits_call_raises: "emits \<sigma> m (only_raises \<sigma> started_ranks) \<Longrightarrow> emits \<sigma> m (call_ok cfg reg w req cx \<sigma>)"
  by (rule emits_weaken, assumption)
    (auto simp: only_raises_def call_ok_def gated_def intro: started_ranks_facts dest: started_ranks_facts)

lemma emits_refused:
  "emits \<sigma> (andthen (emit_started_with_cancellation w req cx p) (error_result w req cx p f)) (call_ok cfg reg w req cx \<sigma>)"
proof (rule emits_andthen [OF emits_started])
  fix e \<sigma>1 ev
  assume "\<sigma>1 = \<sigma> \<and> started_ranks ev \<and> ((Inl e :: exec_error + unit) = Inr () \<longrightarrow> (\<exists>e. ev = [e] \<and> rank e = 0))"
  then show "call_ok cfg reg w req cx \<sigma> (Inl e) \<sigma>1 ev"
    using started_ranks_facts by (auto simp: call_ok_def gated_def)
next
  fix x :: unit and \<sigma>1 ev
  assume "\<sigma>1 = \<sigma> \<and> started_ranks ev \<and> ((Inr x :: exec_error + unit) = Inr () \<longrightarrow> (\<exists>e. ev = [e] \<and> rank e = 0))"
  then obtain e where e: "\<sigma>1 = \<sigma>" "ev = [e]" "rank e = 0" by auto
  have "call_ok cfg reg w req cx \<sigma> r \<sigma> (ev @ ev2)"
    if "tail_ranks ev2" and "\<forall>res. r = Inr res \<longrightarrow> settles req res ev2 \<and> tr_status res = ERROR" for r ev2
  proof -
    have "started_ranks (ev @ ev2)" using e that(1) by (simp add: started_ranks_def)
    from started_ranks_facts [OF this] that(2) show ?thesis
      by (auto simp: call_ok_def gated_def)
  qed
  then show "emits \<sigma>1 (error_result w req cx p f) (\<lambda>r \<sigma>2 ev2. call_ok cfg reg w req cx \<sigma> r \<sigma>2 (ev @ ev2))"
    by (intro emits_weaken [OF emits_error_result]) (auto simp: e(1))
qed

text \<open>What follows the guarded part.\<close>

lemma emits_finish_call:
  "emits \<sigma> (finish_call cfg w req cx p q) (\<lambda>r \<sigma>' ev. \<sigma>' = \<sigma> \<and> tail_ranks ev \<and>
     (\<forall>res. r = Inr res \<longrightarrow> settles req res ev \<and>
        (tr_status res = SUCCESS \<longrightarrow> (\<exists>out. q = Inr out \<and> tr_content res = take (xc_max_content cfg) (to_content out) \<and>
            tr_citations res = to_citations out))))"
proof -
  have unexpected: "emits \<sigma> (andthen (finalize_unexpected_failure w req cx p) (raise e)) (\<lambda>r \<sigma>' ev. \<sigma>' = \<sigma> \<and> tail_ranks ev \<and> (\<forall>res :: tool_result. r = Inr res \<longrightarrow> P res ev))"
    for e :: exec_error and P
    by (rule emits_weaken [OF emits_unexpected_raise]) (auto simp: only_raises_def)
  have cancelled: "emits \<sigma> (andthen (finalize_cancellation w req cx p) (raise e)) (\<lambda>r \<sigma>' ev. \<sigma>' = \<sigma> \<and> tail_ranks ev \<and> (\<forall>res :: tool_result. r = Inr res \<longrightarrow> P res ev))"
    for e :: exec_error and P
    by (rule emits_weaken [OF emits_cancellation_raise]) (auto simp: only_raises_def)
  show ?thesis
  proof (cases q)
    case (Inr out)
    then show ?thesis
      unfolding finish_call_def by (auto intro: emits_weaken [OF emits_success_result])
  next
    case (Inl e)
    show ?thesis
    proof (cases e)
      case (R_EXPECTED f)
      with Inl unexpected show ?thesis
        by (cases "validate_expected_failure f")
          (auto simp: finish_call_def intro: emits_weaken [OF emits_error_result])
    next
      case R_TIMEOUT
      with Inl show ?thesis by (auto simp: finish_call_def intro: emits_weaken [OF emits_error_result])
    qed (use Inl unexpected cancelled in \<open>simp_all add: finish_call_def\<close>)
  qed
qed

lemma call_ranks:
  assumes "rank e = 0" and "map rank ev1 \<in> {[], [1], [2], [1, 2]}" and "tail_ranks ev2"
  shows "in_order (e # ev1 @ ev2)"
  using assms by (auto simp: in_order_def tail_ranks_def)

lemma emits_execute_described:
  assumes tool: "resolve reg (rq_tool_name req) = Some tool"
    "cb_validate (rt_callbacks tool) (rq_arguments req) = Inr args" "admit_and_describe (rt_callbacks tool) args cx = Inr d"
  shows "emits \<sigma> (execute_described cfg w tool args d req cx) (call_ok cfg reg w req cx \<sigma>)"
  unfolding execute_described_def Let_def
proof (rule emits_andthen [OF emits_started])
  fix e \<sigma>1 ev
  assume "\<sigma>1 = \<sigma> \<and> started_ranks ev \<and> ((Inl e :: exec_error + unit) = Inr () \<longrightarrow> (\<exists>e. ev = [e] \<and> rank e = 0))"
  then show "call_ok cfg reg w req cx \<sigma> (Inl e) \<sigma>1 ev"
    using started_ranks_facts by (auto simp: call_ok_def gated_def)
next
  fix x :: unit and \<sigma>1 ev
  let ?p = "plain_presentation (td_verb d) (td_display_target d)"
  assume "\<sigma>1 = \<sigma> \<and> started_ranks ev \<and> ((Inr x :: exec_error + unit) = Inr () \<longrightarrow> (\<exists>e. ev = [e] \<and> rank e = 0))"
  then obtain e where e: "\<sigma>1 = \<sigma>" "ev = [e]" "rank e = 0" by auto
  then have e_ran: "HandlerRan t \<noteq> e" for t by auto
  show "emits \<sigma>1 (sbind (attempt (run_handler cfg w tool args d cx)) (finish_call cfg w req cx ?p))
      (\<lambda>r \<sigma>2 ev2. call_ok cfg reg w req cx \<sigma> r \<sigma>2 (ev @ ev2))"
    unfolding e(1)
  proof (rule emits_sbind [OF emits_attempt [OF emits_run_handler]])
    fix q \<sigma>2 ev1
    assume "\<exists>q'. (Inr q :: exec_error + raised + tool_output) = Inr q' \<and> map rank ev1 \<in> {[], [1], [2], [1, 2]} \<and>
        handler_part cfg w tool args d cx \<sigma> \<sigma>2 ev1 \<and> (\<forall>out. q' = Inr out \<longrightarrow> returned_by cfg w tool args cx out ev1)"
    then have ranks: "map rank ev1 \<in> {[], [1], [2], [1, 2]}" and part: "handler_part cfg w tool args d cx \<sigma> \<sigma>2 ev1"
      and ret: "\<And>out. q = Inr out \<Longrightarrow> returned_by cfg w tool args cx out ev1" by auto
    show "emits \<sigma>2 (finish_call cfg w req cx ?p q) (\<lambda>r \<sigma>3 ev2. call_ok cfg reg w req cx \<sigma> r \<sigma>3 (ev @ ev1 @ ev2))"
    proof (rule emits_weaken [OF emits_finish_call])
      fix r :: "exec_error + tool_result" and \<sigma>3 ev2
      assume Q: "\<sigma>3 = \<sigma>2 \<and> tail_ranks ev2 \<and> (\<forall>res. r = Inr res \<longrightarrow> settles req res ev2 \<and>
        (tr_status res = SUCCESS \<longrightarrow> (\<exists>out. q = Inr out \<and> tr_content res = take (xc_max_content cfg) (to_content out) \<and>
            tr_citations res = to_citations out)))"
      then have "HandlerRan t \<notin> set ev2" for t
        using ranks_no_handler [of ev2 t] by (auto simp: tail_ranks_def)
      then have part': "handler_part cfg w tool args d cx \<sigma> \<sigma>3 (ev @ ev1 @ ev2)"
        using part e_ran Q by (auto simp: handler_part_def e(2))
      have order: "in_order (ev @ ev1 @ ev2)" using call_ranks [OF e(3) ranks] Q by (simp add: e(2))
      have gate: "gated cfg reg w req cx \<sigma> \<sigma>3 (ev @ ev1 @ ev2)" using part' tool by (auto simp: gated_def)
      have ret': "returned_by cfg w tool args cx out (ev @ ev1 @ ev2)" if "q = Inr out" for out
        using ret [OF that] by (auto simp: returned_by_def)
      have "succeeded cfg reg w req cx res (ev @ ev1 @ ev2)" if "r = Inr res" "tr_status res = SUCCESS" for res
      proof -
        from Q that obtain out where out: "q = Inr out" "tr_content res = take (xc_max_content cfg) (to_content out)"
          "tr_citations res = to_citations out"
          by auto
        with tool ret' [OF out(1)] show ?thesis
          unfolding succeeded_def by (intro exI [of _ tool] exI [of _ args] exI [of _ out] conjI)
      qed
      moreover have "\<exists>l1 l2. ev @ ev1 @ ev2 = l1 @ l2 \<and> settles req res l2" if "r = Inr res" for res
        using Q that by (intro exI [of _ "ev @ ev1"] exI [of _ ev2]) simp
      ultimately show "call_ok cfg reg w req cx \<sigma> r \<sigma>3 (ev @ ev1 @ ev2)"
        using order gate by (simp add: call_ok_def)
    qed
  qed auto
qed

lemma emits_execute: "emits \<sigma> (execute cfg reg w req cx) (call_ok cfg reg w req cx \<sigma>)"
proof (cases "resolve reg (rq_tool_name req)")
  case None
  then show ?thesis by (simp add: execute_def Let_def emits_refused)
next
  case (Some tool)
  note raises = emits_call_raises [OF emits_failed_before_start] emits_call_raises [OF emits_cancelled_before_start]
  show ?thesis
  proof (cases "cb_validate (rt_callbacks tool) (rq_arguments req)")
    case (Inl e)
    with Some show ?thesis by (cases e) (simp_all add: execute_def Let_def emits_refused raises)
  next
    case (Inr args)
    note validated = Inr
    show ?thesis
    proof (cases "admit_and_describe (rt_callbacks tool) args cx")
      case (Inr d)
      with Some validated emits_execute_described show ?thesis
        by (fastforce simp: execute_def execute_validated_def)
    next
      case (Inl e)
      with Some validated show ?thesis
        by (cases e) (auto simp: execute_def execute_validated_def emits_refused raises Let_def split: option.split)
    qed
  qed
qed

text \<open>C15: one execution of a tool call emits its started event first, asks for
  approval at most once, runs the handler at most once, writes at most one audit record and
  emits at most one terminal event, in this order; when it returns, with a success or an
  error, there are exactly one audit record and one terminal event, they come last, and
  they agree with the result on the call, the outcome and the error code; the result is that
  of the request and within its bounds.\<close>

theorem execution_events_in_order:
  assumes "execute cfg reg w req cx s = (r, s')"
  shows "\<exists>ev. xs_trace s' = xs_trace s @ ev \<and> in_order ev \<and>
    (\<forall>res. r = Inr res \<longrightarrow> (\<exists>ev1 ev2. ev = ev1 @ ev2 \<and> settles req res ev2))"
  using emitsD [OF emits_execute refl assms] by (auto simp: call_ok_def)

text \<open>C9: the handler of a tool runs only when the tool is registered under
  the requested name, its arguments validated, its admitter and describer accepted them, and
  the policy allows the capability in the session as it was at the call, or asks and the user
  did not deny exactly this request; otherwise the session stays as it is, and it only ever
  gains the grant the user gave for the capability of the tool.\<close>

theorem handler_needs_permission:
  assumes "execute cfg reg w req cx s = (r, s')" and "xs_trace s = []"
  shows "gated cfg reg w req cx (xs_session s) (xs_session s') (xs_trace s')"
  using emitsD [OF emits_execute refl assms(1)] assms(2) by (auto simp: call_ok_def)

text \<open>An example: a tool whose handler answers after a tenth of a second.\<close>

definition sample_callbacks :: "unit tool_callbacks" where
  "sample_callbacks =
     \<lparr>cb_validate = (\<lambda>_. Inr ()), cb_admit = (\<lambda>_ _. Inr True),
      cb_describe = (\<lambda>_. Inr (Some \<lparr>td_verb = ''Edit'', td_display_target = Some ''a.txt'', td_operation = ''edit'', td_target = ''a.txt''\<rparr>)),
      cb_timeout = None,
      cb_handler = (\<lambda>_ _. \<lparr>hr_outcome = Inr (Some \<lparr>to_content = ''ok'', to_metadata = [], to_presentation = None, to_citations = []\<rparr>),
         hr_completes = Some (1 / 10), hr_stops = None, hr_caller_cancels = None\<rparr>)\<rparr>"

definition sample_registry :: "unit tool_callbacks registry" where
  "sample_registry =
     [(''edit_file'', \<lparr>rt_spec = \<lparr>ts_name = ''edit_file'', ts_description = ''edit'', ts_input_schema = [],
         ts_capability = ''workspace.write'', ts_read_only = False, ts_display = []\<rparr>,
       rt_callbacks = sample_callbacks, rt_replay = REPLAYABLE, rt_grace = None, rt_runtime_ok = True\<rparr>)]"

definition sample_world :: "tool_approval_decision option outcome \<Rightarrow> exec_world" where
  "sample_world answer =
     \<lparr>ew_started = \<lparr>ac_ending = ENDS_OK, ac_caller_cancelled = False\<rparr>,
      ew_audit = \<lparr>ac_ending = ENDS_OK, ac_caller_cancelled = False\<rparr>,
      ew_terminal = \<lparr>ac_ending = ENDS_OK, ac_caller_cancelled = False\<rparr>,
      ew_resolver = Some (\<lambda>_. answer), ew_elapsed = 1 / 8, ew_locator_ok = (\<lambda>_. True)\<rparr>"

definition sample_config :: exec_config where
  "sample_config = \<lparr>xc_timeout = 30, xc_max_content = 10, xc_policy = evaluate\<rparr>"

definition sample_request :: tool_request where
  "sample_request = \<lparr>rq_call_id = ''c1'', rq_tool_name = ''edit_file'', rq_arguments = []\<rparr>"

definition sample_context :: tool_context where
  "sample_context =
     \<lparr>tx_thread_id = ''t'', tx_operation_id = ''o'', tx_turn_id = Some ''u'', tx_origin = AGENT,
      tx_change_set_id = None, tx_skill_mode = ''auto'', tx_grants = [], tx_turn_active = True\<rparr>"

definition sample_state :: exec_state where
  "sample_state = \<lparr>xs_session = new_session, xs_trace = []\<rparr>"

theorem execution_events_in_order_witness:
  "in_order (xs_trace (snd (execute sample_config sample_registry (sample_world (Inr (Some ALLOW_ONCE)))
     sample_request sample_context sample_state))) \<and>
   map rank (xs_trace (snd (execute sample_config sample_registry (sample_world (Inr (Some ALLOW_ONCE)))
     sample_request sample_context sample_state))) = [0, 1, 2, 3, 4]"
proof -
  let ?x = "execute sample_config sample_registry (sample_world (Inr (Some ALLOW_ONCE))) sample_request sample_context sample_state"
  have "xs_trace sample_state = []" by (simp add: sample_state_def)
  with execution_events_in_order [OF prod.collapse [symmetric], of sample_config sample_registry
      "sample_world (Inr (Some ALLOW_ONCE))" sample_request sample_context sample_state]
  have "in_order (xs_trace (snd ?x))" by auto
  moreover have "map rank (xs_trace (snd ?x)) = [0, 1, 2, 3, 4]" by code_simp
  ultimately show ?thesis by blast
qed

theorem handler_needs_permission_witness:
  "gated sample_config sample_registry (sample_world (Inr (Some DENY_APPROVAL))) sample_request sample_context new_session
     (xs_session (snd (execute sample_config sample_registry (sample_world (Inr (Some DENY_APPROVAL)))
        sample_request sample_context sample_state)))
     (xs_trace (snd (execute sample_config sample_registry (sample_world (Inr (Some DENY_APPROVAL)))
        sample_request sample_context sample_state))) \<and>
   map rank (xs_trace (snd (execute sample_config sample_registry (sample_world (Inr (Some DENY_APPROVAL)))
     sample_request sample_context sample_state))) = [0, 1, 3, 4]"
proof -
  let ?x = "execute sample_config sample_registry (sample_world (Inr (Some DENY_APPROVAL))) sample_request sample_context sample_state"
  have "xs_trace sample_state = []" "xs_session sample_state = new_session" by (simp_all add: sample_state_def)
  with handler_needs_permission [OF prod.collapse [symmetric], of sample_state sample_config sample_registry
      "sample_world (Inr (Some DENY_APPROVAL))" sample_request sample_context]
  have "gated sample_config sample_registry (sample_world (Inr (Some DENY_APPROVAL))) sample_request sample_context new_session
     (xs_session (snd ?x)) (xs_trace (snd ?x))" by simp
  moreover have "map rank (xs_trace (snd ?x)) = [0, 1, 3, 4]" by code_simp
  ultimately show ?thesis by blast
qed

section \<open>Success, and silence\<close>

lemma invoke_returns:
  assumes "invoke_with_deadline timeout run = Inr out"
  shows "hr_outcome run = Inr out" and "\<exists>t. hr_completes run = Some t \<and> t \<le> timeout - cleanup_grace timeout \<and>
    \<not> before (hr_caller_cancels run) t"
  using assms by (auto simp: invoke_with_deadline_def Let_def before_def min_def split: if_splits option.splits)

text \<open>C17: a successful result carries the content and the citations of a valid
  output that the handler returned, in time: at the latest when the timeout less the
  grace kept for stopping it had passed, and before the caller was cancelled.\<close>

theorem success_is_handlers_output:
  assumes "execute cfg reg w req cx s = (Inr res, s')" and "tr_status res = SUCCESS" and "xs_trace s = []"
  shows "\<exists>tool args run out timeout t. resolve reg (rq_tool_name req) = Some tool \<and>
    cb_validate (rt_callbacks tool) (rq_arguments req) = Inr args \<and>
    run = cb_handler (rt_callbacks tool) args cx \<and> hr_outcome run = Inr (Some out) \<and> valid_output (ew_locator_ok w) out \<and>
    tr_content res = take (xc_max_content cfg) (to_content out) \<and> tr_citations res = to_citations out \<and>
    resolve_timeout cfg (rt_callbacks tool) args = Inr timeout \<and>
    hr_completes run = Some t \<and> t \<le> timeout - cleanup_grace timeout \<and> \<not> before (hr_caller_cancels run) t"
proof -
  have ok: "call_ok cfg reg w req cx (xs_session s) (Inr res) (xs_session s') (xs_trace s')"
    using emitsD [OF emits_execute refl assms(1)] assms(3) by simp
  then obtain tool args out timeout where t: "resolve reg (rq_tool_name req) = Some tool"
    "cb_validate (rt_callbacks tool) (rq_arguments req) = Inr args" "HandlerRan timeout \<in> set (xs_trace s')"
    "invoke_with_deadline timeout (cb_handler (rt_callbacks tool) args cx) = Inr (Some out)" "valid_output (ew_locator_ok w) out"
    "tr_content res = take (xc_max_content cfg) (to_content out)" "tr_citations res = to_citations out"
    using assms(2) unfolding call_ok_def succeeded_def returned_by_def by blast
  moreover have "resolve_timeout cfg (rt_callbacks tool) args = Inr timeout"
    using ok t(1,2,3) by (auto simp: call_ok_def gated_def handler_part_def)
  ultimately show ?thesis using invoke_returns [OF t(4)] by blast
qed

theorem success_is_handlers_output_witness:
  "case fst (execute sample_config sample_registry (sample_world (Inr (Some ALLOW_ONCE))) sample_request sample_context sample_state) of
     Inl _ \<Rightarrow> False | Inr res \<Rightarrow> tr_status res = SUCCESS \<and> tr_content res = ''ok'' \<and> tr_citations res = []"
proof -
  let ?x = "execute sample_config sample_registry (sample_world (Inr (Some ALLOW_ONCE))) sample_request sample_context sample_state"
  have "case fst ?x of Inl _ \<Rightarrow> False | Inr res \<Rightarrow> tr_status res = SUCCESS" by code_simp
  then obtain res where res: "fst ?x = Inr res" "tr_status res = SUCCESS" by (cases "fst ?x") auto
  then have run: "?x = (Inr res, snd ?x)" by (metis prod.collapse)
  have "xs_trace sample_state = []" by (simp add: sample_state_def)
  from success_is_handlers_output [OF run res(2) this]
  have "tr_content res = ''ok'' \<and> tr_citations res = []"
    by (auto simp: resolve_def sample_registry_def sample_request_def sample_callbacks_def sample_config_def)
  with res show ?thesis by simp
qed

lemma network_asks:
  assumes "(thread_id, capability_value NETWORK_READ) \<notin> ps_thread_granted \<sigma>"
  shows "pd_action (evaluate (session_request \<sigma> (capability_value NETWORK_READ) thread_id)) = ASK"
  using assms by (simp add: evaluate_def session_request_def known_capability_def all_capabilities_def Let_def)

text \<open>C16: with the default policy, a tool that reads the network never runs
  without an answer of the user or a grant to the active Thread, whatever mode the session
  is in and whatever it was granted for other capabilities or other Threads.\<close>

theorem network_handler_never_silent:
  assumes "execute cfg reg w req cx s = (r, s')" and "xs_trace s = []" and "xc_policy cfg = evaluate"
    and "resolve reg (rq_tool_name req) = Some tool" and "ts_capability (rt_spec tool) = capability_value NETWORK_READ"
    and "(tx_thread_id cx, capability_value NETWORK_READ) \<notin> ps_thread_granted (xs_session s)"
    and "HandlerRan timeout \<in> set (xs_trace s')"
  shows "\<exists>resolver d answer. ew_resolver w = Some resolver \<and>
    resolver (approval_request_for (capability_value NETWORK_READ) d) = Inr (Some answer) \<and> answer \<noteq> DENY_APPROVAL"
proof -
  have "call_ok cfg reg w req cx (xs_session s) r (xs_session s') (xs_trace s')"
    using emitsD [OF emits_execute refl assms(1)] assms(2) by simp
  then obtain d where "permits cfg w (capability_value NETWORK_READ) d cx (xs_session s)"
    using assms(4,5,7) by (auto simp: call_ok_def gated_def handler_part_def)
  then show ?thesis
    using network_asks [OF assms(6)] assms(3) by (auto simp: permits_def Let_def)
qed

definition network_registry :: "unit tool_callbacks registry" where
  "network_registry = map (\<lambda>(name, tool). (name, tool\<lparr>rt_spec := (rt_spec tool)\<lparr>ts_capability := ''network.read''\<rparr>\<rparr>)) sample_registry"

theorem network_handler_never_silent_witness:
  "\<exists>d answer. (Inr (Some ALLOW_ONCE) :: tool_approval_decision option outcome) = Inr (Some answer) \<and> answer \<noteq> DENY_APPROVAL \<and>
     ap_capability (approval_request_for (capability_value NETWORK_READ) d) = ''network.read''"
proof -
  let ?x = "execute sample_config network_registry (sample_world (Inr (Some ALLOW_ONCE))) sample_request sample_context sample_state"
  have run: "?x = (fst ?x, snd ?x)" by simp
  have "list_ex (\<lambda>e. rank e = 2) (xs_trace (snd ?x))" by code_simp
  then obtain e where e: "e \<in> set (xs_trace (snd ?x))" "rank e = 2" unfolding list_ex_iff by blast
  have "\<exists>t. e = HandlerRan t" using e(2) by (cases e rule: exec_event.exhaust) simp_all
  with e(1) obtain t where t: "HandlerRan t \<in> set (xs_trace (snd ?x))" by blast
  have reg: "resolve network_registry (rq_tool_name sample_request) = Some (snd (hd network_registry))"
    "ts_capability (rt_spec (snd (hd network_registry))) = capability_value NETWORK_READ"
    by (simp_all add: network_registry_def sample_registry_def sample_request_def resolve_def)
  from network_handler_never_silent [OF run _ _ reg _ t]
  show ?thesis
    by (auto simp: sample_state_def sample_config_def new_session_def sample_world_def approval_request_for_def Let_def)
qed

end
