(* ===== verification/AnswerCitations.thy ===== *)
theory AnswerCitations
  imports Tools
begin

text \<open>
  \<open>agent/finalization.py\<close>: the citations a turn's successful tool results
  carry, the check of the source markers of its answer, and the source list that
  is appended when the answer cites none.  The em dash is the character 97 (hex).
\<close>

section \<open>Collecting the citations of a turn\<close>

datatype aggregation_error = MultipleIds | TooManyTurnCitations | ConflictingValues string | NotContiguous

text \<open>\<open>ordered\<close>, with \<open>by_id\<close> and \<open>by_url\<close>.\<close>

record collection =
  co_ordered :: "citation list"
  co_by_id :: "(string \<times> citation) list"
  co_by_url :: "(string \<times> citation) list"

fun collect_citations :: "citation list \<Rightarrow> collection \<Rightarrow> aggregation_error + collection" where
  "collect_citations [] k = Inr k"
| "collect_citations (c # cs) k =
     (case map_of (co_by_id k) (ci_id c) of
        None \<Rightarrow>
          if (case map_of (co_by_url k) (ci_url c) of None \<Rightarrow> False | Some d \<Rightarrow> ci_id d \<noteq> ci_id c)
          then Inl MultipleIds
          else if MAX_TURN_CITATIONS \<le> length (co_ordered k) then Inl TooManyTurnCitations
          else collect_citations cs
            \<lparr>co_ordered = co_ordered k @ [c], co_by_id = AList.update (ci_id c) c (co_by_id k),
             co_by_url = AList.update (ci_url c) c (co_by_url k)\<rparr>
      | Some previous \<Rightarrow> if previous \<noteq> c then Inl (ConflictingValues (ci_id c)) else collect_citations cs k)"

fun collect_results :: "tool_result list \<Rightarrow> collection \<Rightarrow> aggregation_error + collection" where
  "collect_results [] k = Inr k"
| "collect_results (r # rs) k =
     (if tr_status r \<noteq> SUCCESS then collect_results rs k
      else case collect_citations (tr_citations r) k of Inl e \<Rightarrow> Inl e | Inr k' \<Rightarrow> collect_results rs k')"

definition collect_tool_citations :: "tool_result list \<Rightarrow> aggregation_error + citation list" where
  "collect_tool_citations rs =
     (case collect_results rs \<lparr>co_ordered = [], co_by_id = [], co_by_url = []\<rparr> of
        Inl e \<Rightarrow> Inl e
      | Inr k \<Rightarrow>
          if list_ex (\<lambda>(index, c). ci_id c \<noteq> source_id index) (enumerate 1 (co_ordered k)) then Inl NotContiguous
          else Inr (co_ordered k))"

section \<open>Source markers\<close>

text \<open>\<open>\[\[(S[0-9]+)\]\]\<close> at the start of a text, and \<open>findall\<close>.\<close>

definition match_marker :: "string \<Rightarrow> (string \<times> string) option" where
  "match_marker s =
     (let rest = drop 3 s; ds = takeWhile is_digit rest; tail = dropWhile is_digit rest in
      if starts_with ''[[S'' s \<and> ds \<noteq> [] \<and> starts_with '']]'' tail then Some (CHR ''S'' # ds, drop 2 tail) else None)"

lemma match_marker_shorter: "match_marker s = Some (m, rest) \<Longrightarrow> length rest < length s"
proof -
  assume "match_marker s = Some (m, rest)"
  then have r: "rest = drop 2 (dropWhile is_digit (drop 3 s))" and s: "starts_with ''[[S'' s"
    by (auto simp: match_marker_def Let_def split: if_splits)
  have "s \<noteq> []" using s by (auto simp: starts_with_def)
  moreover have "length rest \<le> length s - 3"
    using length_dropWhile_le [of is_digit "drop 3 s"] by (simp add: r)
  ultimately show ?thesis by (cases s) auto
qed

function find_markers :: "string \<Rightarrow> string list" where
  "find_markers [] = []"
| "find_markers (c # cs) =
     (case match_marker (c # cs) of Some (m, rest) \<Rightarrow> m # find_markers rest | None \<Rightarrow> find_markers cs)"
  by pat_completeness auto
termination by (relation "measure length") (auto dest: match_marker_shorter)

section \<open>The answer\<close>

definition MAX_FINAL_ANSWER :: nat where
  "MAX_FINAL_ANSWER = 200000"

definition replace_char :: "char \<Rightarrow> string \<Rightarrow> string \<Rightarrow> string" where
  "replace_char c by_text s = concat (map (\<lambda>x. if x = c then by_text else [x]) s)"

definition escape_source_title :: "string \<Rightarrow> string" where
  "escape_source_title value_text =
     foldl (\<lambda>escaped c. replace_char c [CHR 0x5C, c] escaped)
       (replace_char (CHR 0x5C) [CHR 0x5C, CHR 0x5C] value_text) (CHR 0x60 # ''*_[]<>#'')"

definition sources_header :: string where
  "sources_header = [CHR 0x0A, CHR 0x0A] @ ''Sources:'' @ [CHR 0x0A]"

definition marker_line :: "citation \<Rightarrow> string" where
  "marker_line c = ''- [['' @ ci_id c @ '']]''"

definition source_line :: "citation \<Rightarrow> string" where
  "source_line c =
     marker_line c @ '' '' @ escape_source_title (ci_title c) @ [CHR '' '', CHR 0x97, CHR '' ''] @ ci_url c @ [CHR 0x0A]"

text \<open>The loop over the citations: the lines that fit, and whether one did not.\<close>

fun source_lines :: "int \<Rightarrow> citation list \<Rightarrow> string list \<times> int \<times> bool" where
  "source_lines available [] = ([], available, False)"
| "source_lines available (c # cs) =
     (let line = source_line c in
      if available < int (length line) then ([], available, True)
      else case source_lines (available - int (length line)) cs of (lines, rest, truncated) \<Rightarrow> (line # lines, rest, truncated))"

text \<open>\<open>fallback[:available]\<close>, with Python's meaning of a negative bound.\<close>

definition slice_to :: "int \<Rightarrow> string \<Rightarrow> string" where
  "slice_to n s = (if n < 0 then take (length s - nat (- n)) s else take (nat n) s)"

definition append_sources :: "string \<Rightarrow> citation list \<Rightarrow> string \<times> bool" where
  "append_sources final_answer citations =
     (let first = hd citations;
          stripped = rstrip final_answer;
          room = int MAX_FINAL_ANSWER - int (length stripped) - int (length sources_header);
          answer = (if room \<le> 0
             then rstrip (slice_to (max 1 (int MAX_FINAL_ANSWER - int (length sources_header + length (marker_line first)))) stripped)
             else stripped);
          available = (if room \<le> 0 then int MAX_FINAL_ANSWER - int (length answer) - int (length sources_header) else room)
      in case source_lines available citations of
           (lines, rest, truncated) \<Rightarrow>
             if lines = [] then (answer @ sources_header @ rstrip (slice_to rest (marker_line first)), True)
             else (answer @ sources_header @ rstrip (concat lines), truncated))"

datatype diagnostic_code = CITATION_INVALID_ID | CITATION_SOURCES_APPENDED | CITATION_SOURCES_TRUNCATED

definition validate_answer_citations :: "string \<Rightarrow> citation list \<Rightarrow> string \<times> diagnostic_code list" where
  "validate_answer_citations final_answer citations =
     (let known = map ci_id citations;
          markers = find_markers final_answer;
          referenced = filter (\<lambda>m. m \<in> set known) markers;
          invalid = (if list_ex (\<lambda>m. m \<notin> set known) markers then [CITATION_INVALID_ID] else [])
      in if citations \<noteq> [] \<and> referenced = []
         then (case append_sources final_answer citations of (answer, truncated) \<Rightarrow>
                 (answer, invalid @ [CITATION_SOURCES_APPENDED] @ (if truncated then [CITATION_SOURCES_TRUNCATED] else [])))
         else (final_answer, invalid))"

section \<open>What is collected\<close>

definition collection_ok :: "collection \<Rightarrow> bool" where
  "collection_ok k \<longleftrightarrow>
     length (co_ordered k) \<le> MAX_TURN_CITATIONS \<and>
     distinct (map ci_id (co_ordered k)) \<and> distinct (map ci_url (co_ordered k)) \<and>
     (\<forall>i. map_of (co_by_id k) i = List.find (\<lambda>c. ci_id c = i) (co_ordered k)) \<and>
     (\<forall>u. map_of (co_by_url k) u = List.find (\<lambda>c. ci_url c = u) (co_ordered k))"

lemma collection_ok_add:
  assumes ok: "collection_ok k" and id_new: "map_of (co_by_id k) (ci_id c) = None"
    and url: "\<not> (case map_of (co_by_url k) (ci_url c) of None \<Rightarrow> False | Some d \<Rightarrow> ci_id d \<noteq> ci_id c)"
    and room: "length (co_ordered k) < MAX_TURN_CITATIONS"
  shows "collection_ok \<lparr>co_ordered = co_ordered k @ [c], co_by_id = AList.update (ci_id c) c (co_by_id k),
             co_by_url = AList.update (ci_url c) c (co_by_url k)\<rparr>"
proof -
  have id_none: "List.find (\<lambda>d. ci_id d = ci_id c) (co_ordered k) = None"
    using ok id_new by (simp add: collection_ok_def)
  then have id_fresh: "ci_id c \<notin> ci_id ` set (co_ordered k)" by (auto simp: find_None_iff)
  have url_none: "List.find (\<lambda>d. ci_url d = ci_url c) (co_ordered k) = None"
  proof (rule ccontr)
    assume "List.find (\<lambda>d. ci_url d = ci_url c) (co_ordered k) \<noteq> None"
    then obtain d where d: "List.find (\<lambda>d. ci_url d = ci_url c) (co_ordered k) = Some d" by blast
    then have "d \<in> set (co_ordered k)" by (auto simp: find_Some_iff)
    moreover have "ci_id d = ci_id c" using ok url d by (simp add: collection_ok_def)
    ultimately show False using id_fresh by (metis imageI)
  qed
  then have url_fresh: "ci_url c \<notin> ci_url ` set (co_ordered k)" by (auto simp: find_None_iff)
  have "map_of (AList.update (ci_id c) c (co_by_id k)) i = List.find (\<lambda>d. ci_id d = i) (co_ordered k @ [c])" for i
    using ok id_none by (cases "i = ci_id c") (auto simp: collection_ok_def update_conv find_snoc split: option.split)
  moreover have "map_of (AList.update (ci_url c) c (co_by_url k)) u = List.find (\<lambda>d. ci_url d = u) (co_ordered k @ [c])" for u
    using ok url_none by (cases "u = ci_url c") (auto simp: collection_ok_def update_conv find_snoc split: option.split)
  ultimately show ?thesis
    using ok room id_fresh url_fresh by (simp add: collection_ok_def)
qed

lemma collect_citations_ok:
  "collection_ok k \<Longrightarrow> collect_citations cs k = Inr k' \<Longrightarrow>
     collection_ok k' \<and> set (co_ordered k') = set (co_ordered k) \<union> set cs"
proof (induction cs arbitrary: k)
  case (Cons c cs)
  show ?case
  proof (cases "map_of (co_by_id k) (ci_id c)")
    case None
    let ?k = "\<lparr>co_ordered = co_ordered k @ [c], co_by_id = AList.update (ci_id c) c (co_by_id k),
             co_by_url = AList.update (ci_url c) c (co_by_url k)\<rparr>"
    have url: "\<not> (case map_of (co_by_url k) (ci_url c) of None \<Rightarrow> False | Some d \<Rightarrow> ci_id d \<noteq> ci_id c)"
      and room: "length (co_ordered k) < MAX_TURN_CITATIONS" and run: "collect_citations cs ?k = Inr k'"
      using Cons.prems None by (auto split: if_splits)
    from Cons.IH [OF collection_ok_add [OF Cons.prems(1) None url room] run] show ?thesis by auto
  next
    case (Some d)
    then have "d = c" and run: "collect_citations cs k = Inr k'"
      using Cons.prems by (auto split: if_splits)
    then have "List.find (\<lambda>d. ci_id d = ci_id c) (co_ordered k) = Some c"
      using Cons.prems(1) Some by (simp add: collection_ok_def)
    then have "c \<in> set (co_ordered k)" by (auto simp: find_Some_iff)
    with Cons.IH [OF Cons.prems(1) run] show ?thesis by auto
  qed
qed simp

definition reported :: "tool_result list \<Rightarrow> citation set" where
  "reported rs = (\<Union>r \<in> {r \<in> set rs. tr_status r = SUCCESS}. set (tr_citations r))"

lemma collect_results_ok:
  "collection_ok k \<Longrightarrow> collect_results rs k = Inr k' \<Longrightarrow>
     collection_ok k' \<and> set (co_ordered k') = set (co_ordered k) \<union> reported rs"
proof (induction rs arbitrary: k)
  case (Cons r rs)
  show ?case
  proof (cases "tr_status r = SUCCESS")
    case True
    then obtain k1 where k1: "collect_citations (tr_citations r) k = Inr k1" and run: "collect_results rs k1 = Inr k'"
      using Cons.prems by (auto split: sum.splits)
    from collect_citations_ok [OF Cons.prems(1) k1] Cons.IH [OF _ run] True show ?thesis
      by (auto simp: reported_def)
  qed (use Cons in \<open>auto simp: reported_def\<close>)
qed (simp add: reported_def)

lemma enumerate_numbered:
  "\<not> list_ex (\<lambda>(index, c). ci_id c \<noteq> source_id index) (enumerate n cs) \<longleftrightarrow>
     map ci_id cs = map source_id [n..<n + length cs]"
proof (induction cs arbitrary: n)
  case (Cons c cs)
  have "[n..<n + length (c # cs)] = n # [Suc n..<Suc n + length cs]" by (simp add: upt_rec)
  with Cons [of "Suc n"] show ?case by (simp del: upt_Suc)
qed simp

lemma load_citations_numbered:
  "allocator_ok a \<Longrightarrow> distinct (map ci_url (al_ordered a @ cs)) \<Longrightarrow>
     map ci_id cs = map source_id [length (al_ordered a) + 1..<length (al_ordered a) + 1 + length cs] \<Longrightarrow>
     \<exists>a'. load_citations (length (al_ordered a) + 1) cs a = Inr a' \<and> al_ordered a' = al_ordered a @ cs"
proof (induction cs arbitrary: a)
  case (Cons c cs)
  let ?n = "length (al_ordered a) + 1"
  let ?a = "\<lparr>al_ordered = al_ordered a @ [c], al_by_url = AList.update (ci_url c) c (al_by_url a)\<rparr>"
  have "[?n..<?n + length (c # cs)] = ?n # [Suc ?n..<Suc ?n + length cs]" by (simp add: upt_rec)
  with Cons.prems(3) have ident: "ci_id c = source_id ?n" and rest: "map ci_id cs = map source_id [Suc ?n..<Suc ?n + length cs]"
    by (simp_all del: upt_Suc)
  have "List.find (\<lambda>d. ci_url d = ci_url c) (al_ordered a) = None"
    using Cons.prems(2) by (auto simp: find_None_iff image_iff)
  then have fresh: "map_of (al_by_url a) (ci_url c) = None"
    using Cons.prems(1) by (simp add: allocator_ok_def)
  from Cons.IH [OF allocator_ok_add [OF Cons.prems(1) ident fresh]] Cons.prems(2) rest
  have "\<exists>a'. load_citations (Suc ?n) cs ?a = Inr a' \<and> al_ordered a' = al_ordered a @ c # cs"
    by (simp del: upt_Suc)
  then show ?case using ident fresh by (simp del: upt_Suc)
qed simp

text \<open>C30: the citations of a turn are exactly those its successful tool results
  report, numbered \<open>S1\<close>, \<open>S2\<close>, ... without gaps, with no URL twice and at most 128
  of them, so that the allocator of the next tool call accepts them as its start.\<close>

theorem collected_citations_numbered:
  assumes "collect_tool_citations rs = Inr cs"
  shows "numbered cs \<and> distinct (map ci_url cs) \<and> length cs \<le> MAX_TURN_CITATIONS \<and> set cs = reported rs \<and>
    (\<exists>a. new_allocator cs = Inr a \<and> snapshot a = cs)"
proof -
  let ?k = "\<lparr>co_ordered = [], co_by_id = [], co_by_url = []\<rparr>"
  obtain k where k: "collect_results rs ?k = Inr k" "co_ordered k = cs"
    "\<not> list_ex (\<lambda>(index, c). ci_id c \<noteq> source_id index) (enumerate 1 cs)"
    using assms by (auto simp: collect_tool_citations_def split: sum.splits if_splits)
  have "collection_ok ?k" by (simp add: collection_ok_def)
  from collect_results_ok [OF this k(1)] k(2) have ok: "collection_ok k" "set cs = reported rs" by auto
  have ids: "map ci_id cs = map source_id [1..<1 + length cs]"
    using k(3) enumerate_numbered by blast
  have "\<exists>a. new_allocator cs = Inr a \<and> al_ordered a = cs"
    using load_citations_numbered [OF new_allocator_ok, of cs] ids ok(1) k(2)
    by (simp add: new_allocator_def collection_ok_def del: upt_Suc)
  with ids ok k(2) show ?thesis
    by (simp add: numbered_def collection_ok_def snapshot_def del: upt_Suc)
qed

definition cited_result :: "tool_status \<Rightarrow> citation list \<Rightarrow> tool_result" where
  "cited_result status cs =
     \<lparr>tr_call_id = ''c'', tr_tool_name = ''web_search'', tr_status = status, tr_content = [], tr_metadata = [],
      tr_error = None, tr_presentation = None, tr_citations = cs\<rparr>"

theorem collected_citations_numbered_witness:
  "set [\<lparr>ci_id = ''S1'', ci_title = ''a'', ci_url = ''https://a''\<rparr>, \<lparr>ci_id = ''S2'', ci_title = ''b'', ci_url = ''https://b''\<rparr>] =
   reported [cited_result SUCCESS [\<lparr>ci_id = ''S1'', ci_title = ''a'', ci_url = ''https://a''\<rparr>],
     cited_result SUCCESS [\<lparr>ci_id = ''S1'', ci_title = ''a'', ci_url = ''https://a''\<rparr>, \<lparr>ci_id = ''S2'', ci_title = ''b'', ci_url = ''https://b''\<rparr>]]"
proof -
  have "collect_tool_citations [cited_result SUCCESS [\<lparr>ci_id = ''S1'', ci_title = ''a'', ci_url = ''https://a''\<rparr>],
     cited_result SUCCESS [\<lparr>ci_id = ''S1'', ci_title = ''a'', ci_url = ''https://a''\<rparr>, \<lparr>ci_id = ''S2'', ci_title = ''b'', ci_url = ''https://b''\<rparr>]]
     = Inr [\<lparr>ci_id = ''S1'', ci_title = ''a'', ci_url = ''https://a''\<rparr>, \<lparr>ci_id = ''S2'', ci_title = ''b'', ci_url = ''https://b''\<rparr>]"
    by code_simp
  from collected_citations_numbered [OF this] show ?thesis by blast
qed

section \<open>Markers of a composed text\<close>

lemma find_markers_skip [simp]: "c \<noteq> CHR ''['' \<Longrightarrow> find_markers (c # s) = find_markers s"
  by (simp add: match_marker_def starts_with_def)

declare find_markers.simps(2) [simp del]

lemma starts_with_before:
  "c \<notin> set p \<Longrightarrow> starts_with p (a @ c # r) \<longleftrightarrow> starts_with p a"
proof (cases "length p \<le> length a")
  case False
  assume c: "c \<notin> set p"
  have "\<not> starts_with p (a @ c # r)"
  proof
    assume "starts_with p (a @ c # r)"
    then have "p = take (length p) (a @ c # r)" by (simp add: starts_with_def)
    also have "take (length p) (a @ c # r) = a @ take (length p - length a) (c # r)" using False by simp
    also have "take (length p - length a) (c # r) = c # take (length p - length a - 1) r"
      using False by (cases "length p - length a") auto
    finally have "c \<in> set p" by (metis in_set_conv_decomp)
    with c show False ..
  qed
  moreover have "\<not> starts_with p a" using False by (auto simp: starts_with_def dest: arg_cong [where f = length])
  ultimately show ?thesis by simp
qed (simp add: starts_with_def)

lemma dropWhile_before: "\<not> P c \<Longrightarrow> dropWhile P (a @ c # r) = dropWhile P a @ c # r"
  by (induction a) auto

definition breaks_marker :: "char \<Rightarrow> bool" where
  "breaks_marker c \<longleftrightarrow> \<not> is_digit c \<and> c \<notin> set ''[S]''"

lemma match_marker_before:
  assumes "breaks_marker c"
  shows "match_marker (a @ c # r) = map_option (\<lambda>(m, t). (m, t @ c # r)) (match_marker a)"
proof (cases "starts_with ''[[S'' a")
  case True
  then obtain a' where a: "a = ''[[S'' @ a'" by (auto simp: starts_with_iff)
  have tw: "takeWhile is_digit (a' @ c # r) = takeWhile is_digit a'"
    using assms by (simp add: breaks_marker_def takeWhile_tail)
  have dw: "dropWhile is_digit (a' @ c # r) = dropWhile is_digit a' @ c # r"
    using assms by (simp add: breaks_marker_def dropWhile_before)
  have sw: "starts_with '']]'' (dropWhile is_digit a' @ c # r) \<longleftrightarrow> starts_with '']]'' (dropWhile is_digit a')"
    by (rule starts_with_before) (use assms in \<open>auto simp: breaks_marker_def\<close>)
  have len: "starts_with '']]'' t \<Longrightarrow> drop 2 (t @ c # r) = drop 2 t @ c # r" for t
    by (auto simp: starts_with_iff)
  have "starts_with ''[[S'' (CHR ''['' # CHR ''['' # CHR ''S'' # x)" for x by (simp add: starts_with_def)
  with tw dw sw len show ?thesis by (simp add: match_marker_def a Let_def)
next
  case False
  then have "\<not> starts_with ''[[S'' (a @ c # r)"
    using starts_with_before [of c "''[[S''" a r] assms by (auto simp: breaks_marker_def)
  with False show ?thesis by (simp add: match_marker_def Let_def)
qed

lemma find_markers_before:
  "breaks_marker c \<Longrightarrow> find_markers (a @ c # r) = find_markers a @ find_markers r"
proof (induction a rule: find_markers.induct)
  case 1
  then have "c \<noteq> CHR ''[''" by (auto simp: breaks_marker_def)
  then show ?case by simp
next
  case (2 x xs)
  show ?case
  proof (cases "match_marker (x # xs)")
    case None
    with 2 match_marker_before [of c "x # xs" r] show ?thesis by (simp add: find_markers.simps(2))
  next
    case (Some mt)
    obtain m t where mt: "mt = (m, t)" by fastforce
    with Some 2 match_marker_before [of c "x # xs" r] show ?thesis by (simp add: find_markers.simps(2))
  qed
qed

lemma find_markers_line:
  assumes "valid_citation_id (ci_id c)"
  shows "find_markers (marker_line c @ t) = ci_id c # find_markers t"
proof -
  obtain ds where ds: "ci_id c = CHR ''S'' # ds" "ds \<noteq> []" "\<forall>d \<in> set ds. is_digit d"
    using assms by (auto simp: valid_citation_id_def list_all_iff split: list.splits)
  have nd: "\<not> is_digit (CHR '']'')" by (simp add: is_digit_def)
  have "takeWhile is_digit (ds @ CHR '']'' # CHR '']'' # t) = ds"
    using ds(3) nd by (simp add: takeWhile_append2)
  moreover have "dropWhile is_digit (ds @ CHR '']'' # CHR '']'' # t) = CHR '']'' # CHR '']'' # t"
    using ds(3) nd by (simp add: dropWhile_append2)
  ultimately have "match_marker (''[['' @ ci_id c @ '']]'' @ t) = Some (ci_id c, t)"
    using ds by (simp add: match_marker_def starts_with_def)
  then have "find_markers (''[['' @ ci_id c @ '']]'' @ t) = ci_id c # find_markers t"
    by (simp add: find_markers.simps(2))
  then show ?thesis by (simp add: marker_line_def)
qed

lemma find_markers_header: "find_markers (a @ sources_header @ t) = find_markers a @ find_markers t"
proof -
  have "breaks_marker CHR 0x0A" by (simp add: breaks_marker_def is_digit_def)
  from find_markers_before [OF this, of a] show ?thesis by (simp add: sources_header_def)
qed

lemma match_marker_text: "match_marker s = Some (m, t) \<Longrightarrow> s = ''[['' @ m @ '']]'' @ t"
proof -
  assume m: "match_marker s = Some (m, t)"
  then obtain r where s: "s = ''[[S'' @ r"
    by (auto simp: match_marker_def Let_def starts_with_iff split: if_splits)
  with m obtain q where q: "dropWhile is_digit r = '']]'' @ q" and "m = CHR ''S'' # takeWhile is_digit r" "t = q"
    by (auto simp: match_marker_def Let_def starts_with_iff split: if_splits)
  then show ?thesis using takeWhile_dropWhile_id [of is_digit r] s by simp
qed

lemma find_markers_few: "count_list s CHR '']'' < 2 \<Longrightarrow> find_markers s = []"
proof (induction s rule: find_markers.induct)
  case (2 c cs)
  have "match_marker (c # cs) = None"
  proof (rule ccontr)
    assume "match_marker (c # cs) \<noteq> None"
    then obtain m t where "c # cs = ''[['' @ m @ '']]'' @ t" using match_marker_text by fastforce
    then have "2 \<le> count_list (c # cs) CHR '']''" by simp
    with 2(3) show False by simp
  qed
  moreover have "count_list cs CHR '']'' < 2" using 2(3) by (simp split: if_splits)
  ultimately show ?case using 2(1,2) by (simp add: find_markers.simps(2))
qed simp

lemma find_markers_cut:
  assumes "k < length (marker_line c)" and "valid_citation_id (ci_id c)"
  shows "find_markers (rstrip (take k (marker_line c))) = []"
proof -
  obtain ds where ds: "ci_id c = CHR ''S'' # ds" "\<forall>d \<in> set ds. is_digit d"
    using assms(2) by (auto simp: valid_citation_id_def list_all_iff split: list.splits)
  then have none: "CHR '']'' \<notin> set ds" by (auto simp: is_digit_def)
  define p where "p = ''- [['' @ ci_id c @ '']''"
  have "marker_line c = p @ '']''" by (simp add: marker_line_def p_def)
  with assms(1) have "take k (marker_line c) = take k p" by simp
  moreover have "count_list (take k p) CHR '']'' + count_list (drop k p) CHR '']'' = count_list p CHR '']''"
    by (simp flip: count_list_append)
  moreover have "count_list p CHR '']'' = 1" using none by (simp add: p_def ds(1))
  moreover obtain t where "take k (marker_line c) = rstrip (take k (marker_line c)) @ t" using rstrip_prefix by blast
  then have "count_list (take k (marker_line c)) CHR '']'' =
      count_list (rstrip (take k (marker_line c))) CHR '']'' + count_list t CHR '']''"
    by (metis count_list_append)
  ultimately have "count_list (rstrip (take k (marker_line c))) CHR '']'' < 2" by simp
  then show ?thesis by (rule find_markers_few)
qed

section \<open>The size of the answer\<close>

lemma rstrip_append_solid: "p \<noteq> [] \<Longrightarrow> \<not> is_space (last p) \<Longrightarrow> rstrip (p @ t) = p @ rstrip t"
proof -
  assume p: "p \<noteq> []" "\<not> is_space (last p)"
  then obtain q x where q: "p = q @ [x]" "\<not> is_space x" by (metis append_butlast_last_id)
  have "dropWhile is_space (rev t @ rev p) = dropWhile is_space (rev t) @ rev p"
    using q by (simp add: dropWhile_before)
  then show ?thesis by (simp add: rstrip_def)
qed

lemma marker_line_solid: "marker_line c \<noteq> []" "\<not> is_space (last (marker_line c))"
  by (simp_all add: marker_line_def is_space_def)

lemma rstrip_marker_line [simp]: "rstrip (marker_line c @ t) = marker_line c @ rstrip t" "rstrip (marker_line c) = marker_line c"
  using rstrip_append_solid [OF marker_line_solid, of c t] rstrip_append_solid [OF marker_line_solid, of c "[]"]
  by (simp_all add: rstrip_def)

lemma source_lines_fit:
  "0 \<le> available \<Longrightarrow> source_lines available cs = (lines, rest, truncated) \<Longrightarrow>
     0 \<le> rest \<and> int (length (concat lines)) + rest = available"
proof (induction cs arbitrary: available lines rest truncated)
  case (Cons c cs)
  show ?case
  proof (cases "available < int (length (source_line c))")
    case False
    obtain more rest' tr where more: "source_lines (available - int (length (source_line c))) cs = (more, rest', tr)"
      by (metis surj_pair)
    with Cons.prems False have l: "lines = source_line c # more" "rest = rest'" by (auto simp: Let_def)
    from Cons.IH [OF _ more] False have "0 \<le> rest' \<and> int (length (concat more)) + rest' = available - int (length (source_line c))"
      by simp
    then show ?thesis by (simp add: l)
  qed (use Cons.prems in auto)
qed simp

lemma source_lines_Nil: "cs \<noteq> [] \<Longrightarrow> source_lines available cs = ([], rest, truncated) \<Longrightarrow>
    rest = available \<and> truncated \<and> available < int (length (source_line (hd cs)))"
  by (cases cs) (auto simp: Let_def split: if_splits prod.splits)

lemma source_lines_hd: "source_lines available cs = (lines, rest, truncated) \<Longrightarrow> lines \<noteq> [] \<Longrightarrow>
    \<exists>more. lines = source_line (hd cs) # more"
  by (cases cs) (auto simp: Let_def split: if_splits prod.splits)

lemma marker_line_length: "valid_citation_id (ci_id c) \<Longrightarrow> length (marker_line c) \<le> 13"
  by (auto simp: marker_line_def valid_citation_id_def split: list.splits)

lemma find_markers_rstrip: "find_markers s = [] \<Longrightarrow> find_markers (rstrip s) = []"
proof -
  assume none: "find_markers s = []"
  have "rev (rev s) = rev (dropWhile is_space (rev s)) @ rev (takeWhile is_space (rev s))"
    by (simp flip: rev_append)
  then have s: "s = rstrip s @ rev (takeWhile is_space (rev s))" by (simp add: rstrip_def)
  show ?thesis
  proof (cases "rev (takeWhile is_space (rev s))")
    case Nil
    with s none show ?thesis by simp
  next
    case (Cons c r)
    then have "c \<in> set (takeWhile is_space (rev s))" by (metis list.set_intros(1) set_rev)
    then have "is_space c" by (rule set_takeWhileD [THEN conjunct2])
    then have "breaks_marker c" by (auto simp: is_space_def breaks_marker_def is_digit_def Let_def)
    with s none Cons show ?thesis using find_markers_before [of c "rstrip s" r] by simp
  qed
qed

lemma header_length [simp]: "length sources_header = 11"
  by (simp add: sources_header_def)

lemma append_sources_shape:
  assumes "valid_citation_id (ci_id c)" and "append_sources final_answer (c # cs) = (out, truncated)"
  obtains answer available x where
    "out = answer @ sources_header @ rstrip x"
    "int (length answer) + 11 + available = 200000" "0 < available" "int (length x) \<le> available"
    "x = take (nat available) (marker_line c) \<or> (\<exists>t. x = marker_line c @ t)"
    "if length (rstrip final_answer) < 199989 then answer = rstrip final_answer else int (length (marker_line c)) \<le> available"
    "available < int (length (marker_line c)) \<longrightarrow> x = take (nat available) (marker_line c)"
proof -
  define stripped where "stripped = rstrip final_answer"
  define room where "room = 199989 - int (length stripped)"
  define answer where "answer = (if room \<le> 0
     then rstrip (slice_to (max 1 (199989 - int (length (marker_line c)))) stripped) else stripped)"
  define available where "available = 199989 - int (length answer)"
  have ml: "length (marker_line c) \<le> 13" using marker_line_length assms(1) .
  have "room \<le> 0 \<Longrightarrow> length answer \<le> 199989 - length (marker_line c)"
    using length_rstrip [of "take (199989 - length (marker_line c)) stripped"] ml
    by (simp add: answer_def slice_to_def nat_diff_distrib)
  then have big: "room \<le> 0 \<Longrightarrow> int (length (marker_line c)) \<le> available"
    using ml by (simp add: available_def)
  have "0 < length (marker_line c)" by (simp add: marker_line_def)
  then have "0 < int (length (marker_line c))" by linarith
  moreover have "0 < available" if "\<not> room \<le> 0" using that by (simp add: available_def answer_def room_def)
  ultimately have pos: "0 < available" using big by (cases "room \<le> 0") linarith+
  obtain lines rest tr where l: "source_lines available (c # cs) = (lines, rest, tr)"
    by (metis surj_pair)
  have avail: "(if room \<le> 0 then 199989 - int (length answer) else room) = available"
    by (simp add: available_def answer_def room_def)
  have out: "out = answer @ sources_header @ rstrip (if lines = [] then slice_to rest (marker_line c) else concat lines)"
    using assms(2) l avail
    by (auto simp: append_sources_def MAX_FINAL_ANSWER_def Let_def answer_def stripped_def room_def split: if_splits)
  have fit: "0 \<le> rest" "int (length (concat lines)) + rest = available"
    using source_lines_fit [OF _ l] pos by auto
  define x where "x = (if lines = [] then slice_to rest (marker_line c) else concat lines)"
  have x_take: "x = take (nat available) (marker_line c)" if "lines = []"
    using that fit by (simp add: x_def slice_to_def)
  have x_line: "\<exists>t. x = marker_line c @ t" if "lines \<noteq> []"
    using source_lines_hd [OF l that] by (auto simp: x_def source_line_def)
  have len: "int (length x) \<le> available"
    using fit pos x_take by (cases "lines = []") (auto simp: x_def)
  have short: "available < int (length (marker_line c)) \<longrightarrow> x = take (nat available) (marker_line c)"
    using x_take x_line len by fastforce
  show ?thesis
  proof (rule that)
    show "out = answer @ sources_header @ rstrip x" using out by (simp add: x_def)
    show "int (length answer) + 11 + available = 200000" by (simp add: available_def)
    show "x = take (nat available) (marker_line c) \<or> (\<exists>t. x = marker_line c @ t)" using x_take x_line by blast
    show "if length (rstrip final_answer) < 199989 then answer = rstrip final_answer else int (length (marker_line c)) \<le> available"
      using big by (auto simp: answer_def room_def stripped_def)
  qed (use pos len short in auto)
qed

text \<open>C31: an answer of at most 200000 characters still has at most 200000 after the
  check appended its source list.\<close>

theorem checked_answer_bounded:
  assumes "length final_answer \<le> MAX_FINAL_ANSWER" and "list_all (\<lambda>c. valid_citation_id (ci_id c)) citations"
  shows "length (fst (validate_answer_citations final_answer citations)) \<le> MAX_FINAL_ANSWER"
proof (cases citations)
  case (Cons c cs)
  obtain out truncated where out: "append_sources final_answer (c # cs) = (out, truncated)" by (metis surj_pair)
  have "valid_citation_id (ci_id c)" using assms(2) by (simp add: Cons)
  from append_sources_shape [OF this out] obtain answer available x where
    "out = answer @ sources_header @ rstrip x" "int (length answer) + 11 + available = 200000" "int (length x) \<le> available"
    by metis
  then have "length out \<le> MAX_FINAL_ANSWER" using length_rstrip [of x] by (simp add: MAX_FINAL_ANSWER_def)
  with out assms(1) show ?thesis by (simp add: Cons validate_answer_citations_def Let_def)
qed (use assms in \<open>simp add: validate_answer_citations_def Let_def\<close>)

theorem checked_answer_bounded_witness:
  "length (fst (validate_answer_citations ''see [[S9]]'' [\<lparr>ci_id = ''S1'', ci_title = ''a'', ci_url = ''https://a''\<rparr>])) \<le> 200000"
proof -
  have "list_all (\<lambda>c. valid_citation_id (ci_id c)) [\<lparr>ci_id = ''S1'', ci_title = ''a'', ci_url = ''https://a''\<rparr>]"
    by (simp add: valid_citation_id_def is_digit_def)
  from checked_answer_bounded [OF _ this, of "''see [[S9]]''"] show ?thesis by (simp add: MAX_FINAL_ANSWER_def)
qed

text \<open>C32: a turn with sources ends up citing one, unless the answer without its
  trailing blanks leaves room for the header of the source list and for less than one marker.\<close>

theorem checked_answer_cites:
  assumes "list_all (\<lambda>c. valid_citation_id (ci_id c)) citations" and "citations \<noteq> []"
    and "length (rstrip final_answer) + 11 + length (marker_line (hd citations)) \<le> MAX_FINAL_ANSWER \<or>
         MAX_FINAL_ANSWER \<le> length (rstrip final_answer) + 11"
  shows "set (find_markers (fst (validate_answer_citations final_answer citations))) \<inter> set (map ci_id citations) \<noteq> {}"
proof -
  obtain c cs where cs: "citations = c # cs" using assms(2) by (cases citations) auto
  have valid: "valid_citation_id (ci_id c)" using assms(1) by (simp add: cs)
  obtain out truncated where out: "append_sources final_answer (c # cs) = (out, truncated)" by (metis surj_pair)
  from append_sources_shape [OF valid out] obtain answer available x where
    o: "out = answer @ sources_header @ rstrip x" and len: "int (length answer) + 11 + available = 200000"
    and x: "x = take (nat available) (marker_line c) \<or> (\<exists>t. x = marker_line c @ t)"
    and a: "if length (rstrip final_answer) < 199989 then answer = rstrip final_answer else int (length (marker_line c)) \<le> available"
    by metis
  have "int (length (marker_line c)) \<le> available"
    using a len assms(3) by (auto simp: cs MAX_FINAL_ANSWER_def split: if_splits)
  with x have "\<exists>t. x = marker_line c @ t" by force
  then have "ci_id c \<in> set (find_markers out)"
    using find_markers_line [OF valid] by (auto simp: o find_markers_header)
  then show ?thesis
    using out by (auto simp: cs validate_answer_citations_def Let_def filter_empty_conv)
qed

theorem checked_answer_cites_witness:
  "set (find_markers (fst (validate_answer_citations ''see [[S9]]'' [\<lparr>ci_id = ''S1'', ci_title = ''a'', ci_url = ''https://a''\<rparr>])))
     \<inter> {''S1''} \<noteq> {}"
  using checked_answer_cites [of "[\<lparr>ci_id = ''S1'', ci_title = ''a'', ci_url = ''https://a''\<rparr>]" "''see [[S9]]''"]
    length_rstrip [of "''see [[S9]]''"]
  by (simp add: valid_citation_id_def is_digit_def MAX_FINAL_ANSWER_def marker_line_def)

text \<open>In that gap the marker itself is cut: an answer that cites no source, and
  whose text leaves after the header fewer characters than the first marker has, still
  cites none after its source list was appended.\<close>

theorem cut_marker_cites_nothing:
  assumes "list_all (\<lambda>c. valid_citation_id (ci_id c)) citations" and "citations \<noteq> []"
    and "length (rstrip final_answer) + 11 < MAX_FINAL_ANSWER"
    and "MAX_FINAL_ANSWER < length (rstrip final_answer) + 11 + length (marker_line (hd citations))"
    and "find_markers final_answer = []"
  shows "find_markers (fst (validate_answer_citations final_answer citations)) = [] \<and>
    CITATION_SOURCES_APPENDED \<in> set (snd (validate_answer_citations final_answer citations))"
proof -
  obtain c cs where cs: "citations = c # cs" using assms(2) by (cases citations) auto
  have valid: "valid_citation_id (ci_id c)" using assms(1) by (simp add: cs)
  obtain out truncated where out: "append_sources final_answer (c # cs) = (out, truncated)" by (metis surj_pair)
  from append_sources_shape [OF valid out] obtain answer available x where
    o: "out = answer @ sources_header @ rstrip x" and len: "int (length answer) + 11 + available = 200000"
    and a: "if length (rstrip final_answer) < 199989 then answer = rstrip final_answer else int (length (marker_line c)) \<le> available"
    and x: "available < int (length (marker_line c)) \<longrightarrow> x = take (nat available) (marker_line c)" and pos: "0 < available"
    by metis
  have ans: "answer = rstrip final_answer" using a assms(3) by (simp add: MAX_FINAL_ANSWER_def)
  then have short: "available < int (length (marker_line c))"
    using len assms(4) by (simp add: cs MAX_FINAL_ANSWER_def)
  with x pos have "find_markers (rstrip x) = []" using find_markers_cut [OF _ valid] by simp
  moreover have "find_markers (rstrip final_answer) = []"
    using assms(5) find_markers_rstrip by metis
  ultimately have "find_markers out = []" by (simp add: o ans find_markers_header)
  then show ?thesis using out assms(5) by (simp add: cs validate_answer_citations_def Let_def)
qed

theorem cut_marker_cites_nothing_witness:
  "find_markers (fst (validate_answer_citations (replicate 199985 CHR ''a'')
     [\<lparr>ci_id = ''S1'', ci_title = ''a'', ci_url = ''https://a''\<rparr>])) = []"
proof -
  have "find_markers (replicate n CHR ''a'') = []" for n
    by (induction n) simp_all
  moreover have "rstrip (replicate 199985 CHR ''a'') = replicate 199985 CHR ''a''"
    using rstrip_append_solid [of "replicate 199985 CHR ''a''" "[]"] by (simp add: is_space_def rstrip_def)
  ultimately show ?thesis
    using cut_marker_cites_nothing [of "[\<lparr>ci_id = ''S1'', ci_title = ''a'', ci_url = ''https://a''\<rparr>]"
        "replicate 199985 CHR ''a''"]
    by (simp add: valid_citation_id_def is_digit_def MAX_FINAL_ANSWER_def marker_line_def)
qed

end
