(* ===== verification/AgentLoop.thy ===== *)
theory AgentLoop
  imports Executor AnswerCitations
begin

text \<open>
  \<open>agent/state.py\<close>, \<open>budgets.py\<close>, \<open>nodes.py\<close> and \<open>graph.py\<close>: the state of a turn, its
  budgets, the nodes of the agent graph and the routes between them.  What a turn
  relies on, the context builder, the gateway, the executor, the compressor, the
  post-answer finalizer, the clock and the token estimator, is the record
  \<open>agent_world\<close>; a service that may answer differently each time has the number of the
  graph step as an argument.  The log keeps the calls with an effect outside the state.
  The graph runs with a number of steps it may take, the recursion limit of the source.
\<close>

section \<open>The state of a turn\<close>

record agent_state =
  as_thread_id :: string
  as_turn_id :: string
  as_workspace_key :: string
  as_model :: selected_model
  as_thinking :: bool
  as_manifest :: "json_dict list"
  as_estimated_tokens :: nat
  as_effective_limit :: nat
  as_compression_requested :: bool
  as_compression_reason :: "string option"
  as_messages :: "model_message list"
  as_continuation :: "continuation_state option"
  as_pending :: "tool_call list"
  as_next :: nat
  as_results :: "tool_result list"
  as_citations :: "citation list"
  as_model_calls :: nat
  as_tool_calls :: nat
  as_web_requests :: nat
  as_retries :: nat
  as_compressions :: nat
  as_active_seconds :: rat
  as_usage :: "(string \<times> nat) list"
  as_answer :: "string option"
  as_termination :: "string option"

definition new_agent_state :: "string \<Rightarrow> string \<Rightarrow> string \<Rightarrow> selected_model \<Rightarrow> bool \<Rightarrow> agent_state" where
  "new_agent_state thread_id turn_id workspace_key model thinking =
     \<lparr>as_thread_id = thread_id, as_turn_id = turn_id, as_workspace_key = workspace_key, as_model = model,
      as_thinking = thinking, as_manifest = [], as_estimated_tokens = 0, as_effective_limit = 0,
      as_compression_requested = False, as_compression_reason = None, as_messages = [], as_continuation = None,
      as_pending = [], as_next = 0, as_results = [], as_citations = [], as_model_calls = 0, as_tool_calls = 0,
      as_web_requests = 0, as_retries = 0, as_compressions = 0, as_active_seconds = 0, as_usage = [],
      as_answer = None, as_termination = None\<rparr>"

section \<open>Budgets\<close>

record turn_budget =
  tb_model_calls :: nat
  tb_tool_calls :: nat
  tb_retries :: nat
  tb_compressions :: nat
  tb_active_seconds :: rat
  tb_web_requests :: nat

definition default_budget :: turn_budget where
  "default_budget =
     \<lparr>tb_model_calls = 32, tb_tool_calls = 64, tb_retries = 2, tb_compressions = 2, tb_active_seconds = 1800,
      tb_web_requests = 8\<rparr>"

text \<open>The bounds of the fields of \<open>TurnBudget\<close>.\<close>

definition valid_budget :: "turn_budget \<Rightarrow> bool" where
  "valid_budget b \<longleftrightarrow>
     1 \<le> tb_model_calls b \<and> tb_model_calls b \<le> 256 \<and> 1 \<le> tb_tool_calls b \<and> tb_tool_calls b \<le> 512 \<and>
     tb_retries b \<le> 6 \<and> tb_compressions b \<le> 10 \<and> 0 < tb_active_seconds b \<and> tb_active_seconds b \<le> 21600 \<and>
     tb_web_requests b \<le> 8"

record budget_decision =
  bd_allowed :: bool
  bd_tools_enabled :: bool
  bd_reserved_final :: bool
  bd_reason :: "string option"

definition model_call_decision :: "agent_state \<Rightarrow> turn_budget \<Rightarrow> bool \<Rightarrow> budget_decision" where
  "model_call_decision s b tools_requested =
     (if tb_model_calls b \<le> as_model_calls s
      then \<lparr>bd_allowed = False, bd_tools_enabled = False, bd_reserved_final = False, bd_reason = Some ''model_budget_exhausted''\<rparr>
      else
        let reserved = tb_active_seconds b \<le> as_active_seconds s \<or> as_model_calls s = tb_model_calls b - 1 in
        \<lparr>bd_allowed = True, bd_tools_enabled = tools_requested \<and> \<not> reserved, bd_reserved_final = reserved, bd_reason = None\<rparr>)"

definition loop_exhaustion :: "agent_state \<Rightarrow> turn_budget \<Rightarrow> string option" where
  "loop_exhaustion s b =
     (if tb_model_calls b \<le> as_model_calls s then Some ''model_budget_exhausted''
      else if tb_tool_calls b \<le> as_tool_calls s then Some ''tool_budget_exhausted''
      else if tb_active_seconds b \<le> as_active_seconds s then Some ''active_time_budget_exhausted''
      else None)"

definition charge_model_attempt :: "nat \<Rightarrow> agent_state \<Rightarrow> agent_state" where
  "charge_model_attempt retries s =
     s\<lparr>as_model_calls := as_model_calls s + (1 + retries), as_retries := as_retries s + retries\<rparr>"

definition charge_tool_call :: "agent_state \<Rightarrow> agent_state" where
  "charge_tool_call s = s\<lparr>as_tool_calls := as_tool_calls s + 1\<rparr>"

definition charge_provider_retry :: "agent_state \<Rightarrow> agent_state" where
  "charge_provider_retry s = s\<lparr>as_model_calls := as_model_calls s + 1, as_retries := as_retries s + 1\<rparr>"

definition charge_compression :: "agent_state \<Rightarrow> agent_state" where
  "charge_compression s = s\<lparr>as_compressions := as_compressions s + 1\<rparr>"

section \<open>What a turn relies on\<close>

datatype service_error = ServiceCancelled | ServiceRaises string

datatype agent_error = AgentRaises service_error | RecursionLimit

type_synonym 'a answer = "service_error + 'a"

record prepared_context =
  pc_messages :: "model_message list"
  pc_manifest :: "json_dict list"
  pc_tokens :: nat
  pc_limit :: nat
  pc_compress :: bool

record compression_result =
  cr_completed :: bool
  cr_attempted :: bool
  cr_prepared :: "prepared_context option"
  cr_usage :: model_usage
  cr_error :: "string option"

record tool_definition =
  df_name :: string
  df_description :: string
  df_schema :: json_dict

record model_request =
  mq_messages :: "model_message list"
  mq_tools :: "tool_definition list"
  mq_auto :: bool
  mq_thinking :: bool
  mq_continuation :: "continuation_state option"

record final_request =
  fr_user_text :: string
  fr_answer :: string
  fr_citations :: "citation list"
  fr_model :: selected_model
  fr_model_calls :: nat
  fr_retries :: nat
  fr_workspace_key :: string

record final_result =
  fs_answer :: string
  fs_usage :: model_usage
  fs_model_calls :: nat
  fs_diagnostics :: "(string \<times> string) list"

text \<open>How the finalizer ends; a result of another class is \<open>None\<close>.\<close>

datatype final_outcome = FINAL_CANCELLED | FINAL_RAISES | FINAL_RETURNS "final_result option"

record agent_world =
  aw_budget :: turn_budget
  aw_user_text :: string
  aw_catalog :: "nat \<Rightarrow> tool_spec list"
  aw_clock :: "nat \<Rightarrow> rat \<times> rat"
  aw_estimate :: "model_message \<Rightarrow> nat"
  aw_loads :: "string \<Rightarrow> json option"
  aw_builder :: "agent_state \<Rightarrow> prepared_context answer"
  aw_compressor :: "nat \<Rightarrow> agent_state \<Rightarrow> nat \<Rightarrow> compression_result answer"
  aw_gateway :: "nat \<Rightarrow> selected_model \<Rightarrow> model_request \<Rightarrow> gateway_event list \<times> model_error_info option"
  aw_execute :: "nat \<Rightarrow> agent_state \<Rightarrow> tool_request \<Rightarrow> (tool_result \<times> nat) answer"
  aw_finalizer :: "nat \<Rightarrow> final_request \<Rightarrow> final_outcome"

datatype agent_note =
    SnapshotRecorded "json_dict list"
  | ContextProjected nat nat bool
  | Warned string
  | Requested model_request
  | GatewayProjected gateway_event
  | ToolRan tool_request

type_synonym 'a node_eff = "(agent_note list, agent_error, 'a) eff"

definition log_notes :: "agent_note list \<Rightarrow> unit node_eff" where
  "log_notes notes = modify (\<lambda>l. l @ notes)"

definition ask :: "'a answer \<Rightarrow> 'a node_eff" where
  "ask r = (case r of Inl e \<Rightarrow> raise (AgentRaises e) | Inr x \<Rightarrow> ret x)"

definition add_active_segment :: "rat \<times> rat \<Rightarrow> agent_state \<Rightarrow> agent_state node_eff" where
  "add_active_segment segment s =
     (if snd segment < fst segment then raise (AgentRaises (ServiceRaises ''monotonic segment end cannot precede start''))
      else ret (s\<lparr>as_active_seconds := as_active_seconds s + (snd segment - fst segment)\<rparr>))"

definition usage_fields :: "model_usage \<Rightarrow> (string \<times> nat) list" where
  "usage_fields u =
     [(''input_tokens'', mu_input u), (''output_tokens'', mu_output u), (''reasoning_tokens'', mu_reasoning u),
      (''cache_read_tokens'', mu_cache_read u), (''cache_write_tokens'', mu_cache_write u),
      (''provider_retries'', mu_retries u)]"

definition merge_usage :: "(string \<times> nat) list \<Rightarrow> model_usage \<Rightarrow> (string \<times> nat) list" where
  "merge_usage current u = fold (\<lambda>(k, n) m. AList.update k (count_of m k + n) m) (usage_fields u) current"

section \<open>Preparing and compressing the context\<close>

definition with_prepared :: "prepared_context \<Rightarrow> agent_state \<Rightarrow> agent_state" where
  "with_prepared p s =
     s\<lparr>as_messages := pc_messages p, as_manifest := pc_manifest p, as_estimated_tokens := pc_tokens p,
       as_effective_limit := pc_limit p\<rparr>"

definition prepare_context :: "agent_world \<Rightarrow> agent_state \<Rightarrow> agent_state node_eff" where
  "prepare_context w s =
     (if as_messages s \<noteq> [] then ret s
      else sbind (ask (aw_builder w s)) (\<lambda>p.
        andthen (log_notes [SnapshotRecorded (pc_manifest p), ContextProjected (length (pc_manifest p)) (pc_tokens p) False])
          (ret ((with_prepared p s)\<lparr>as_compression_requested := pc_compress p,
             as_compression_reason := (if pc_compress p then Some ''automatic'' else None)\<rparr>))))"

definition compression_reason :: "agent_state \<Rightarrow> string" where
  "compression_reason s =
     (case as_compression_reason s of Some r \<Rightarrow> if r = [] then ''automatic'' else r | None \<Rightarrow> ''automatic'')"

definition compression_done :: "agent_state \<Rightarrow> agent_state" where
  "compression_done s = s\<lparr>as_compression_requested := False, as_compression_reason := None\<rparr>"

definition skip_compression :: "string \<Rightarrow> string \<Rightarrow> agent_state \<Rightarrow> agent_state node_eff" where
  "skip_compression reason warning s =
     (if reason = ''context_length''
      then ret ((compression_done s)\<lparr>as_termination := Some ''context_unrecoverable''\<rparr>)
      else andthen (log_notes [Warned warning]) (ret (compression_done s)))"

definition compression_retries :: "turn_budget \<Rightarrow> agent_state \<Rightarrow> nat" where
  "compression_retries b s =
     min (tb_retries b - as_retries s) (tb_model_calls b - as_model_calls s - 2)"

definition charge_attempted :: "compression_result \<Rightarrow> agent_state \<Rightarrow> agent_state" where
  "charge_attempted result s =
     (if cr_attempted result
      then (let s' = charge_model_attempt (mu_retries (cr_usage result)) (charge_compression s)
            in s'\<lparr>as_usage := merge_usage (as_usage s') (cr_usage result)\<rparr>)
      else s)"

definition compress_context :: "agent_world \<Rightarrow> nat \<Rightarrow> agent_state \<Rightarrow> agent_state node_eff" where
  "compress_context w i s =
     (let b = aw_budget w; reason = compression_reason s in
      if int (tb_model_calls b) - 1 \<le> int (as_model_calls s) then skip_compression reason ''model_budget_reserved'' s
      else if tb_compressions b \<le> as_compressions s then skip_compression reason ''compression_budget_exhausted'' s
      else sbind (ask (aw_compressor w i s (compression_retries b s))) (\<lambda>result.
        let s' = compression_done (charge_attempted result s) in
        case (if cr_completed result then cr_prepared result else None) of
          Some p \<Rightarrow>
            andthen (log_notes [SnapshotRecorded (pc_manifest p), ContextProjected (length (pc_manifest p)) (pc_tokens p) True])
              (ret (with_prepared p s'))
        | None \<Rightarrow>
            let code = (case cr_error result of Some c \<Rightarrow> if c = [] then ''compression_unavailable'' else c
                        | None \<Rightarrow> ''compression_unavailable'') in
            if code = ''context_unrecoverable'' \<or> reason = ''context_length'' \<or>
               (0 < as_effective_limit s' \<and> as_effective_limit s' < as_estimated_tokens s')
            then ret (s'\<lparr>as_termination := Some ''context_unrecoverable''\<rparr>)
            else andthen (log_notes [Warned code]) (ret s')))"

section \<open>One model request\<close>

text \<open>The variables of the loop over the gateway's events.\<close>

record stream_view =
  sv_state :: agent_state
  sv_completed :: "model_turn list"
  sv_failure :: "model_error_info option"
  sv_text :: "string list"
  sv_retries :: nat
  sv_projected :: "gateway_event list"

fun consume_stream :: "turn_budget \<Rightarrow> gateway_event list \<Rightarrow> stream_view \<Rightarrow> stream_view \<times> string option" where
  "consume_stream b [] v = (v, None)"
| "consume_stream b (e # es) v =
     (case e of
        ProviderRetrying _ _ _ _ \<Rightarrow>
          if tb_model_calls b \<le> as_model_calls (sv_state v) then (v, Some ''model_budget_exhausted'')
          else if tb_retries b \<le> as_retries (sv_state v) then (v, Some ''provider_retry_budget_exhausted'')
          else consume_stream b es (v\<lparr>sv_state := charge_provider_retry (sv_state v), sv_retries := sv_retries v + 1,
                 sv_projected := sv_projected v @ [e]\<rparr>)
      | StreamEvent ev \<Rightarrow>
          (let v' = v\<lparr>sv_projected := sv_projected v @ [e]\<rparr> in
           consume_stream b es
             (case ev of
                TextDelta t \<Rightarrow> v'\<lparr>sv_text := sv_text v' @ [t]\<rparr>
              | TurnCompleted turn \<Rightarrow> v'\<lparr>sv_completed := sv_completed v' @ [turn]\<rparr>
              | TurnFailed info \<Rightarrow> v'\<lparr>sv_failure := Some info\<rparr>
              | _ \<Rightarrow> v')))"

definition visible_text :: "stream_view \<Rightarrow> string" where
  "visible_text v = concat (sv_text v)"

definition or_string :: "string \<Rightarrow> string option \<Rightarrow> string option" where
  "or_string t fallback = (if t = [] then fallback else Some t)"

definition tool_definition_of :: "tool_spec \<Rightarrow> tool_definition" where
  "tool_definition_of spec = \<lparr>df_name = ts_name spec, df_description = ts_description spec, df_schema = ts_input_schema spec\<rparr>"

text \<open>\<open>^[a-z][a-z0-9_.-]{0,199}$\<close>\<close>

definition valid_definition :: "tool_definition \<Rightarrow> bool" where
  "valid_definition d \<longleftrightarrow> grant_name 199 (df_name d) \<and> length (df_description d) \<le> 10000"

definition valid_model_request :: "model_request \<Rightarrow> bool" where
  "valid_model_request q \<longleftrightarrow>
     mq_messages q \<noteq> [] \<and> list_all valid_definition (mq_tools q) \<and> distinct (map df_name (mq_tools q))"

text \<open>\<open>_tool_calls_are_dispatchable_and_fresh\<close>\<close>

definition dispatchable_and_fresh :: "tool_call list \<Rightarrow> tool_result list \<Rightarrow> bool" where
  "dispatchable_and_fresh calls results \<longleftrightarrow>
     list_all (\<lambda>c. valid_request (tc_id c) (tc_name c)) calls \<and> distinct (map tc_id calls) \<and>
     set (map tr_call_id results) \<inter> set (map tc_id calls) = {}"

definition drop_finished_calls :: "agent_state \<Rightarrow> agent_state" where
  "drop_finished_calls s = (if length (as_pending s) \<le> as_next s then s\<lparr>as_pending := [], as_next := 0\<rparr> else s)"

definition call_decision :: "turn_budget \<Rightarrow> bool \<Rightarrow> agent_state \<Rightarrow> budget_decision" where
  "call_decision b tools_requested s =
     (if loop_exhaustion s b \<noteq> None \<and> as_model_calls s < tb_model_calls b
      then \<lparr>bd_allowed = True, bd_tools_enabled = False, bd_reserved_final = True, bd_reason = None\<rparr>
      else model_call_decision s b tools_requested)"

definition request_of :: "agent_state \<Rightarrow> tool_definition list \<Rightarrow> model_request" where
  "request_of s tools =
     \<lparr>mq_messages = as_messages s, mq_tools = tools, mq_auto = (tools \<noteq> []), mq_thinking = as_thinking s,
      mq_continuation = as_continuation s\<rparr>"

definition fail_call :: "string \<Rightarrow> stream_view \<Rightarrow> agent_state \<Rightarrow> agent_state" where
  "fail_call reason v s =
     s\<lparr>as_answer := or_string (visible_text v) (as_answer s), as_termination := Some reason\<rparr>"

definition accept_turn :: "agent_world \<Rightarrow> bool \<Rightarrow> model_turn \<Rightarrow> stream_view \<Rightarrow> agent_state \<Rightarrow> agent_state" where
  "accept_turn w reserved turn v s =
     (let message = AssistantMessage (mt_content turn) (mt_tool_calls turn);
          answer = (if mt_content turn = [] then visible_text v else mt_content turn);
          s' = s\<lparr>as_usage := merge_usage (as_usage s) (mt_usage turn), as_continuation := mt_continuation turn,
                as_messages := as_messages s @ [message],
                as_estimated_tokens := as_estimated_tokens s + aw_estimate w message\<rparr>
      in if reserved then s'\<lparr>as_pending := [], as_next := 0, as_answer := Some answer\<rparr>
         else if mt_tool_calls turn = []
         then s'\<lparr>as_pending := [], as_next := 0, as_answer := Some answer, as_termination := Some (stop_value (mt_stop turn))\<rparr>
         else s'\<lparr>as_pending := mt_tool_calls turn, as_next := 0\<rparr>)"

text \<open>What follows the stream: \<open>blocked\<close> is the retry that a budget refused.\<close>

definition settle_call :: "agent_world \<Rightarrow> bool \<Rightarrow> string option \<Rightarrow> stream_view \<Rightarrow> agent_state \<Rightarrow> agent_state" where
  "settle_call w reserved blocked v s =
     (case blocked of
        Some reason \<Rightarrow> fail_call reason v s
      | None \<Rightarrow>
          (case sv_failure v of
             Some info \<Rightarrow>
               if me_code info = CONTEXT_LENGTH
               then s\<lparr>as_compression_requested := True, as_compression_reason := Some ''context_length'', as_termination := None\<rparr>
               else fail_call (''model_'' @ error_value (me_code info)) v s
           | None \<Rightarrow>
               (case sv_completed v of
                  [turn] \<Rightarrow>
                    if mu_retries (mt_usage turn) \<noteq> sv_retries v \<or> \<not> dispatchable_and_fresh (mt_tool_calls turn) (as_results s)
                    then fail_call ''model_provider_protocol'' v s
                    else accept_turn w reserved turn v s
                | _ \<Rightarrow> fail_call ''model_provider_protocol'' v s)))"

definition stream_call :: "agent_world \<Rightarrow> nat \<Rightarrow> bool \<Rightarrow> model_request \<Rightarrow> agent_state \<Rightarrow> agent_state node_eff" where
  "stream_call w i reserved q s =
     (case aw_gateway w i (as_model s) q of
        (events, raised) \<Rightarrow>
          (case consume_stream (aw_budget w) events
               \<lparr>sv_state = charge_model_attempt 0 s, sv_completed = [], sv_failure = None, sv_text = [], sv_retries = 0,
                sv_projected = []\<rparr> of
             (v0, blocked) \<Rightarrow>
               let v = (if blocked = None \<and> raised \<noteq> None then v0\<lparr>sv_failure := raised\<rparr> else v0) in
               andthen (log_notes (map GatewayProjected (sv_projected v)))
              (sbind (add_active_segment (aw_clock w i) (sv_state v)) (\<lambda>s'.
                 ret (settle_call w reserved blocked v s')))))"

definition call_model :: "agent_world \<Rightarrow> nat \<Rightarrow> agent_state \<Rightarrow> agent_state node_eff" where
  "call_model w i s0 =
     (let b = aw_budget w;
          s = drop_finished_calls s0;
          exhaustion = loop_exhaustion s b;
          decision = call_decision b (aw_catalog w i \<noteq> []) s
      in if \<not> bd_allowed decision
         then ret (s\<lparr>as_termination :=
                (case bd_reason decision of Some r \<Rightarrow> Some r
                 | None \<Rightarrow> (case exhaustion of Some r \<Rightarrow> Some r | None \<Rightarrow> Some ''budget_exhausted''))\<rparr>)
         else
           let s1 = (if bd_reserved_final decision
                     then s\<lparr>as_termination := (case exhaustion of Some r \<Rightarrow> Some r | None \<Rightarrow> Some ''budget_final_response'')\<rparr>
                     else s);
               tools = (if bd_tools_enabled decision then map tool_definition_of (aw_catalog w i) else []);
               q = request_of s1 tools
           in andthen (guard_else (valid_model_request q) (AgentRaises (ServiceRaises ''ValidationError'')))
             (andthen (log_notes [Requested q]) (stream_call w i (bd_reserved_final decision) q s1)))"

section \<open>One tool call\<close>

definition refused_result :: "tool_call \<Rightarrow> tool_error_code \<Rightarrow> json_dict \<Rightarrow> string \<Rightarrow> tool_result" where
  "refused_result call code metadata message =
     \<lparr>tr_call_id = tc_id call, tr_tool_name = tc_name call, tr_status = ERROR, tr_content = message,
      tr_metadata = metadata, tr_error = Some \<lparr>te_code = code, te_message = message, te_retryable = False\<rparr>,
      tr_presentation = None, tr_citations = []\<rparr>"

definition not_executed :: "tool_call \<Rightarrow> string \<Rightarrow> tool_result" where
  "not_executed call reason =
     refused_result call EXECUTION_FAILED [(''executed'', JBool False), (''reason'', JString reason)]
       (''Tool call was not executed: '' @ reason @ ''.'')"

definition run_tool :: "agent_world \<Rightarrow> nat \<Rightarrow> tool_call \<Rightarrow> agent_state \<Rightarrow> (agent_state \<times> tool_result) node_eff" where
  "run_tool w i call s =
     (case aw_loads w (tc_arguments call) of
        Some (JObject arguments) \<Rightarrow>
          andthen (guard_else (valid_request (tc_id call) (tc_name call)) (AgentRaises (ServiceRaises ''ValidationError'')))
         (let q = \<lparr>rq_call_id = tc_id call, rq_tool_name = tc_name call, rq_arguments = arguments\<rparr> in
          andthen (log_notes [ToolRan q])
         (sbind (ask (aw_execute w i s q)) (\<lambda>(result, web).
          sbind (add_active_segment (aw_clock w i) (s\<lparr>as_web_requests := web\<rparr>)) (\<lambda>s'.
            ret (s', result)))))
      | _ \<Rightarrow> ret (s, refused_result call INVALID_ARGUMENTS [] ''Tool arguments must be a JSON object.''))"

definition record_result :: "agent_world \<Rightarrow> tool_result \<Rightarrow> agent_state \<Rightarrow> agent_state node_eff" where
  "record_result w result s =
     (let results = as_results s @ [result];
          message = ToolResultMessage (tr_call_id result) (tr_content result) (tr_status result = ERROR)
      in case collect_tool_citations results of
           Inl _ \<Rightarrow> raise (AgentRaises (ServiceRaises ''CitationAggregationInvariantError''))
         | Inr citations \<Rightarrow>
             ret (s\<lparr>as_results := results, as_citations := citations, as_messages := as_messages s @ [message],
                    as_estimated_tokens := as_estimated_tokens s + aw_estimate w message, as_next := as_next s + 1\<rparr>))"

definition execute_one_tool :: "agent_world \<Rightarrow> nat \<Rightarrow> agent_state \<Rightarrow> agent_state node_eff" where
  "execute_one_tool w i s =
     (if length (as_pending s) \<le> as_next s then ret s
      else
        let call = as_pending s ! as_next s in
        case loop_exhaustion s (aw_budget w) of
          Some reason \<Rightarrow> record_result w (not_executed call reason) (s\<lparr>as_termination := Some reason\<rparr>)
        | None \<Rightarrow>
            sbind (run_tool w i call (charge_tool_call s)) (\<lambda>(s', result). record_result w result s'))"

section \<open>The answer\<close>

definition failed_termination :: "agent_state \<Rightarrow> bool" where
  "failed_termination s \<longleftrightarrow>
     (case as_termination s of None \<Rightarrow> False | Some r \<Rightarrow> starts_with ''model_'' r \<or> r = ''context_unrecoverable'')"

definition final_request_of :: "agent_world \<Rightarrow> agent_state \<Rightarrow> string \<Rightarrow> citation list \<Rightarrow> final_request" where
  "final_request_of w s answer citations =
     (let b = aw_budget w in
      \<lparr>fr_user_text = aw_user_text w, fr_answer = answer, fr_citations = citations, fr_model = as_model s,
       fr_model_calls = (if tb_active_seconds b \<le> as_active_seconds s then 0 else tb_model_calls b - as_model_calls s),
       fr_retries = tb_retries b - as_retries s, fr_workspace_key = as_workspace_key s\<rparr>)"

text \<open>The validators of \<open>PostAnswerFinalizationRequest\<close> and \<open>..Result\<close>, and
  \<open>_validate_finalizer_budget\<close>.\<close>

definition valid_final_request :: "final_request \<Rightarrow> bool" where
  "valid_final_request q \<longleftrightarrow>
     length (fr_user_text q) \<le> 200000 \<and> bounded 1 200000 (fr_answer q) \<and> length (fr_citations q) \<le> 128 \<and>
     fr_model_calls q \<le> 256 \<and> fr_retries q \<le> 6 \<and> bounded 1 128 (fr_workspace_key q)"

definition valid_diagnostic :: "string \<times> string \<Rightarrow> bool" where
  "valid_diagnostic d \<longleftrightarrow>
     length (fst d) \<le> 128 \<and> name_part (\<lambda>c. c = CHR ''_'') (fst d) \<and> bounded 1 2000 (snd d)"

definition valid_final_result :: "final_request \<Rightarrow> final_result \<Rightarrow> bool" where
  "valid_final_result q r \<longleftrightarrow>
     bounded 1 200000 (fs_answer r) \<and> strip (fs_answer r) \<noteq> [] \<and> fs_model_calls r \<le> 1 \<and>
     length (fs_diagnostics r) \<le> 32 \<and> list_all valid_diagnostic (fs_diagnostics r) \<and>
     mu_retries (fs_usage r) \<le> 6 \<and> (fs_model_calls r = 0 \<longrightarrow> fs_usage r = no_usage) \<and>
     mu_retries (fs_usage r) \<le> fr_retries q \<and> fs_model_calls r + mu_retries (fs_usage r) \<le> fr_model_calls q"

definition diagnostic_name :: "diagnostic_code \<Rightarrow> string" where
  "diagnostic_name d =
     (case d of CITATION_INVALID_ID \<Rightarrow> ''citation_invalid_id''
      | CITATION_SOURCES_APPENDED \<Rightarrow> ''citation_sources_appended''
      | CITATION_SOURCES_TRUNCATED \<Rightarrow> ''citation_sources_truncated'')"

definition apply_final_result :: "final_result \<Rightarrow> agent_state \<Rightarrow> agent_state" where
  "apply_final_result r s =
     (let s' = s\<lparr>as_answer := Some (fs_answer r)\<rparr> in
      if fs_model_calls r = 0 then s'
      else (let s2 = charge_model_attempt (mu_retries (fs_usage r)) s' in
            s2\<lparr>as_usage := merge_usage (as_usage s2) (fs_usage r)\<rparr>))"

definition finalize_answer :: "agent_world \<Rightarrow> nat \<Rightarrow> final_request \<Rightarrow> agent_state \<Rightarrow> agent_state node_eff" where
  "finalize_answer w i q s =
     (case aw_finalizer w i q of
        FINAL_CANCELLED \<Rightarrow> raise (AgentRaises ServiceCancelled)
      | FINAL_RETURNS (Some r) \<Rightarrow>
          if valid_final_result q r
          then andthen (log_notes (map (\<lambda>(code, _). Warned code) (fs_diagnostics r))) (ret (apply_final_result r s))
          else andthen (log_notes [Warned ''answer_finalization_failed'']) (ret s)
      | _ \<Rightarrow> andthen (log_notes [Warned ''answer_finalization_failed'']) (ret s))"

definition mark_completed :: "agent_state \<Rightarrow> agent_state" where
  "mark_completed s = (if as_termination s = None then s\<lparr>as_termination := Some ''completed''\<rparr> else s)"

definition cite_answer :: "citation list \<Rightarrow> agent_state \<Rightarrow> agent_state node_eff" where
  "cite_answer citations s =
     (case as_answer s of
        None \<Rightarrow> raise (AgentRaises (ServiceRaises ''Answer finalization removed the final answer.''))
      | Some answer \<Rightarrow>
          (case validate_answer_citations answer citations of
             (validated, codes) \<Rightarrow>
               andthen (log_notes (map (\<lambda>d. Warned (diagnostic_name d)) codes))
                 (ret (s\<lparr>as_answer := Some validated\<rparr>))))"

definition finalize :: "agent_world \<Rightarrow> nat \<Rightarrow> agent_state \<Rightarrow> agent_state node_eff" where
  "finalize w i s =
     (case as_answer s of
        Some (c # cs) \<Rightarrow>
          if failed_termination s then ret (mark_completed s)
          else (case collect_tool_citations (as_results s) of
              Inl _ \<Rightarrow> raise (AgentRaises (ServiceRaises ''CitationAggregationInvariantError''))
            | Inr citations \<Rightarrow>
                let s1 = s\<lparr>as_citations := citations\<rparr>; q = final_request_of w s1 (c # cs) citations in
                andthen (guard_else (valid_final_request q) (AgentRaises (ServiceRaises ''ValidationError'')))
               (sbind (finalize_answer w i q s1) (\<lambda>s2.
                sbind (cite_answer citations s2) (\<lambda>s3. ret (mark_completed s3)))))
      | _ \<Rightarrow> ret (mark_completed s))"

section \<open>The graph\<close>

datatype node = PREPARE | COMPRESS | CALL_MODEL | EXECUTE_TOOL | FINALIZE

definition route_after_model :: "agent_state \<Rightarrow> node" where
  "route_after_model s =
     (if as_compression_requested s then COMPRESS
      else if as_termination s \<noteq> None \<and> as_pending s = [] then FINALIZE
      else if as_pending s \<noteq> [] then EXECUTE_TOOL
      else FINALIZE)"

definition route_after_prepare :: "agent_state \<Rightarrow> node" where
  "route_after_prepare s = (if as_compression_requested s then COMPRESS else CALL_MODEL)"

definition route_after_compression :: "agent_state \<Rightarrow> node" where
  "route_after_compression s = (if as_termination s \<noteq> None then FINALIZE else CALL_MODEL)"

definition route_after_tool :: "agent_state \<Rightarrow> node" where
  "route_after_tool s = (if as_next s < length (as_pending s) then EXECUTE_TOOL else CALL_MODEL)"

definition run_node :: "agent_world \<Rightarrow> nat \<Rightarrow> node \<Rightarrow> agent_state \<Rightarrow> agent_state node_eff" where
  "run_node w i n s =
     (case n of PREPARE \<Rightarrow> prepare_context w s | COMPRESS \<Rightarrow> compress_context w i s
      | CALL_MODEL \<Rightarrow> call_model w i s | EXECUTE_TOOL \<Rightarrow> execute_one_tool w i s | FINALIZE \<Rightarrow> finalize w i s)"

definition next_node :: "node \<Rightarrow> agent_state \<Rightarrow> node option" where
  "next_node n s =
     (case n of PREPARE \<Rightarrow> Some (route_after_prepare s) | COMPRESS \<Rightarrow> Some (route_after_compression s)
      | CALL_MODEL \<Rightarrow> Some (route_after_model s) | EXECUTE_TOOL \<Rightarrow> Some (route_after_tool s) | FINALIZE \<Rightarrow> None)"

text \<open>The graph from a node, with \<open>fuel\<close> steps left; \<open>i\<close> counts the steps taken.\<close>

fun run_graph :: "agent_world \<Rightarrow> nat \<Rightarrow> nat \<Rightarrow> node \<Rightarrow> agent_state \<Rightarrow> agent_state node_eff" where
  "run_graph w 0 i n s = raise RecursionLimit"
| "run_graph w (Suc fuel) i n s =
     sbind (run_node w i n s) (\<lambda>s'.
       case next_node n s' of None \<Rightarrow> ret s' | Some n' \<Rightarrow> run_graph w fuel (i + 1) n' s')"

definition RECURSION_LIMIT :: nat where
  "RECURSION_LIMIT = 2048"

definition run_turn :: "agent_world \<Rightarrow> agent_state \<Rightarrow> agent_state node_eff" where
  "run_turn w s = run_graph w RECURSION_LIMIT 0 PREPARE s"

end
