(* ===== verification/ContextBuilder.thy ===== *)
theory ContextBuilder
  imports Modeling Registry "HOL-Library.Product_Lexorder"
begin

text \<open>
  \<open>context/models.py\<close>, \<open>context/tokens.py\<close> and \<open>ContextBuilder.prepare\<close> of
  \<open>context/builder.py\<close>: the sources of a request, their order and deduplication, the
  budgets of the memory sources, truncation and the token limit.  The JSON that
  \<open>pydantic\<close> writes for a message and the SHA-256 digest are parameters.  The fractions
  0.10, 0.25, 0.50 and 0.80 are exact rationals, as the products of the source are below 2^50.
\<close>

section \<open>Sources\<close>

datatype source_kind =
    PRODUCT_INSTRUCTIONS | WORKSPACE_INSTRUCTIONS | SKILL | SKILL_CATALOG | USER_MEMORY | WORKSPACE_MEMORY | MEM0
  | THREAD_SUMMARY | RECENT_TURNS | DIRECT_COMMAND | EXPLICIT_PATH | CURRENT_INPUT | OPEN_TOOL_CHAIN

definition kind_value :: "source_kind \<Rightarrow> string" where
  "kind_value k =
     (case k of PRODUCT_INSTRUCTIONS \<Rightarrow> ''product_instructions'' | WORKSPACE_INSTRUCTIONS \<Rightarrow> ''workspace_instructions''
      | SKILL \<Rightarrow> ''skill'' | SKILL_CATALOG \<Rightarrow> ''skill_catalog'' | USER_MEMORY \<Rightarrow> ''user_memory''
      | WORKSPACE_MEMORY \<Rightarrow> ''workspace_memory'' | MEM0 \<Rightarrow> ''mem0'' | THREAD_SUMMARY \<Rightarrow> ''thread_summary''
      | RECENT_TURNS \<Rightarrow> ''recent_turns'' | DIRECT_COMMAND \<Rightarrow> ''direct_command'' | EXPLICIT_PATH \<Rightarrow> ''explicit_path''
      | CURRENT_INPUT \<Rightarrow> ''current_input'' | OPEN_TOOL_CHAIN \<Rightarrow> ''open_tool_chain'')"

text \<open>\<open>_SOURCE_ORDER\<close>\<close>

definition source_order :: "source_kind \<Rightarrow> nat" where
  "source_order k =
     (case k of PRODUCT_INSTRUCTIONS \<Rightarrow> 0 | WORKSPACE_INSTRUCTIONS \<Rightarrow> 1 | SKILL \<Rightarrow> 2 | SKILL_CATALOG \<Rightarrow> 3
      | USER_MEMORY \<Rightarrow> 4 | WORKSPACE_MEMORY \<Rightarrow> 5 | MEM0 \<Rightarrow> 6 | THREAD_SUMMARY \<Rightarrow> 7 | RECENT_TURNS \<Rightarrow> 8
      | DIRECT_COMMAND \<Rightarrow> 9 | EXPLICIT_PATH \<Rightarrow> 10 | CURRENT_INPUT \<Rightarrow> 11 | OPEN_TOOL_CHAIN \<Rightarrow> 12)"

definition timeline_kinds :: "source_kind list" where
  "timeline_kinds = [RECENT_TURNS, DIRECT_COMMAND]"

definition memory_kinds :: "source_kind list" where
  "memory_kinds = [USER_MEMORY, WORKSPACE_MEMORY, MEM0]"

definition always_mandatory :: "source_kind list" where
  "always_mandatory =
     [PRODUCT_INSTRUCTIONS, WORKSPACE_INSTRUCTIONS, SKILL, SKILL_CATALOG, EXPLICIT_PATH, CURRENT_INPUT, OPEN_TOOL_CHAIN]"

datatype source_role = SYSTEM_ROLE | USER_ROLE | ASSISTANT_ROLE

record skill_identity =
  sk_name :: string
  sk_source :: string
  sk_identity :: string
  sk_allowed_tools :: "string list"

record context_source =
  cs_kind :: source_kind
  cs_id :: string
  cs_content :: string
  cs_role :: source_role
  cs_mandatory :: bool
  cs_budget :: "nat option"
  cs_start :: "nat option"
  cs_end :: "nat option"
  cs_skills :: "skill_identity list"
  cs_legacy :: bool

definition new_source :: "source_kind \<Rightarrow> string \<Rightarrow> string \<Rightarrow> source_role \<Rightarrow> bool \<Rightarrow> context_source" where
  "new_source kind i content role mandatory =
     \<lparr>cs_kind = kind, cs_id = i, cs_content = content, cs_role = role, cs_mandatory = mandatory, cs_budget = None,
      cs_start = None, cs_end = None, cs_skills = [], cs_legacy = False\<rparr>"

record manifest_item =
  mf_kind :: source_kind
  mf_id :: string
  mf_order :: nat
  mf_tokens :: nat
  mf_truncated :: bool
  mf_hash :: string
  mf_start :: "nat option"
  mf_end :: "nat option"
  mf_skills :: "skill_identity list"

record context_request =
  cq_sources :: "context_source list"
  cq_configured :: nat
  cq_model_limit :: nat
  cq_reserved :: nat

record built_context =
  bc_messages :: "model_message list"
  bc_manifest :: "manifest_item list"
  bc_tokens :: nat
  bc_limit :: nat
  bc_compress :: bool

section \<open>Tokens\<close>

datatype context_error = BudgetInvalid | ContextOverflow

definition OUTPUT_RESERVE :: nat where
  "OUTPUT_RESERVE = 32768"

record context_budget =
  cb_total :: nat
  cb_output :: nat
  cb_safety :: nat
  cb_limit :: nat
  cb_threshold :: nat

text \<open>A threshold of zero is refused by the model of \<open>ContextBudget\<close>.\<close>

definition calculate_context_budget :: "nat \<Rightarrow> nat \<Rightarrow> context_error + context_budget" where
  "calculate_context_budget configured model_limit =
     (if configured = 0 \<or> model_limit = 0 then Inl BudgetInvalid
      else
        let effective = min configured model_limit;
            reserve = min OUTPUT_RESERVE effective;
            safety = effective div 10
        in if effective \<le> reserve + safety then Inl BudgetInvalid
           else
             let limit = effective - reserve - safety; threshold = limit * 4 div 5 in
             if threshold = 0 then Inl BudgetInvalid
             else Inr \<lparr>cb_total = effective, cb_output = reserve, cb_safety = safety, cb_limit = limit, cb_threshold = threshold\<rparr>)"

definition structural_char :: "char \<Rightarrow> bool" where
  "structural_char c \<longleftrightarrow> c \<in> set ''{}[]():,;'' \<or> (of_char c :: nat) = 10 \<or> (of_char c :: nat) = 9"

definition estimate_text :: "string \<Rightarrow> nat" where
  "estimate_text s =
     (if s = [] then 0
      else
        let divisor = (if length s \<le> length (filter structural_char s) * 5 then 2 else 3) in
        max 1 ((utf8_bytes s + divisor - 1) div divisor))"

record context_lib =
  cl_dump :: "model_message \<Rightarrow> string"
  cl_sha :: "string \<Rightarrow> string"

definition message_tokens :: "context_lib \<Rightarrow> model_message \<Rightarrow> nat" where
  "message_tokens lib m = estimate_text (cl_dump lib m) + 8"

definition estimate_messages :: "context_lib \<Rightarrow> model_message list \<Rightarrow> nat" where
  "estimate_messages lib ms = sum_list (map (message_tokens lib) ms)"

section \<open>Order and deduplication\<close>

definition mandatory_source :: "context_source \<Rightarrow> bool" where
  "mandatory_source s \<longleftrightarrow> cs_mandatory s \<or> cs_kind s \<in> set always_mandatory"

definition place_of :: "source_kind \<Rightarrow> nat option \<Rightarrow> nat \<times> nat" where
  "place_of kind start =
     (case start of
        Some n \<Rightarrow> if kind \<in> set timeline_kinds then (source_order RECENT_TURNS, n) else (source_order kind, 0)
      | None \<Rightarrow> (source_order kind, 0))"

definition source_order_key :: "nat \<times> context_source \<Rightarrow> nat \<times> nat \<times> nat" where
  "source_order_key item =
     (let place = place_of (cs_kind (snd item)) (cs_start (snd item)) in (fst place, snd place, fst item))"

datatype dedupe_key = MemoryKey string | SourceKey source_kind source_role string

definition dedupe_key_of :: "context_lib \<Rightarrow> context_source \<Rightarrow> dedupe_key" where
  "dedupe_key_of lib s =
     (let digest = cl_sha lib (normalized (cs_content s)) in
      if cs_kind s \<in> set memory_kinds then MemoryKey digest else SourceKey (cs_kind s) (cs_role s) digest)"

definition kept_always :: "context_source \<Rightarrow> bool" where
  "kept_always s \<longleftrightarrow> mandatory_source s \<or> cs_kind s \<in> set timeline_kinds"

fun keep_unique :: "context_lib \<Rightarrow> dedupe_key list \<Rightarrow> context_source list \<Rightarrow> context_source list" where
  "keep_unique lib seen [] = []"
| "keep_unique lib seen (s # ss) =
     (if kept_always s then s # keep_unique lib seen ss
      else
        let key = dedupe_key_of lib s in
        if key \<in> set seen then keep_unique lib seen ss else s # keep_unique lib (key # seen) ss)"

definition sorted_sources :: "context_source list \<Rightarrow> context_source list" where
  "sorted_sources ss = map snd (sort_key source_order_key (enumerate 0 ss))"

definition ordered_unique :: "context_lib \<Rightarrow> context_source list \<Rightarrow> context_source list" where
  "ordered_unique lib ss = keep_unique lib [] (sorted_sources ss)"

section \<open>Memory budgets\<close>

definition MAX_MEMORY_TOKENS :: nat where
  "MAX_MEMORY_TOKENS = 16384"

definition memory_total :: "nat \<Rightarrow> nat" where
  "memory_total limit = min MAX_MEMORY_TOKENS (limit div 10)"

definition memory_caps :: "nat \<Rightarrow> source_kind \<Rightarrow> nat option" where
  "memory_caps limit =
     (let total = memory_total limit in
      [USER_MEMORY \<mapsto> min 4096 (total div 4), WORKSPACE_MEMORY \<mapsto> min 8192 (total div 2), MEM0 \<mapsto> min 4096 (total div 4)])"

fun budget_memory :: "(source_kind \<Rightarrow> nat option) \<Rightarrow> context_source list \<Rightarrow> context_source list" where
  "budget_memory room [] = []"
| "budget_memory room (s # ss) =
     (case room (cs_kind s) of
        None \<Rightarrow> s # budget_memory room ss
      | Some left \<Rightarrow>
          if left < 1 then budget_memory room ss
          else
            let allocation = (case cs_budget s of None \<Rightarrow> left | Some t \<Rightarrow> min left t) in
            s\<lparr>cs_budget := Some allocation\<rparr> # budget_memory (room(cs_kind s \<mapsto> left - allocation)) ss)"

definition apply_memory_budgets :: "nat \<Rightarrow> context_source list \<Rightarrow> context_source list" where
  "apply_memory_budgets limit ss = budget_memory (memory_caps limit) ss"

section \<open>Messages and truncation\<close>

definition source_message :: "context_source \<Rightarrow> string \<Rightarrow> model_message" where
  "source_message s content =
     (let rendered = ''['' @ kind_value (cs_kind s) @ '':'' @ cs_id s @ '']'' @ CHR 0x0A # content in
      if cs_role s = SYSTEM_ROLE \<or> cs_kind s \<in> {PRODUCT_INSTRUCTIONS, WORKSPACE_INSTRUCTIONS, SKILL_CATALOG}
      then SystemMessage rendered
      else if cs_role s = ASSISTANT_ROLE then AssistantMessage rendered []
      else UserMessage rendered)"

definition message_estimate :: "context_lib \<Rightarrow> context_source \<Rightarrow> string \<Rightarrow> nat" where
  "message_estimate lib s content = estimate_messages lib [source_message s content]"

text \<open>\<open>str.splitlines()\<close> on the characters below 256.\<close>

definition line_break :: "char \<Rightarrow> bool" where
  "line_break c \<longleftrightarrow> (let n = (of_char c :: nat) in (10 \<le> n \<and> n \<le> 13) \<or> (28 \<le> n \<and> n \<le> 30) \<or> n = 133)"

fun lines_from :: "string \<Rightarrow> string \<Rightarrow> string list" where
  "lines_from cur [] = (if cur = [] then [] else [cur])"
| "lines_from cur [c] = (if line_break c then [cur] else [cur @ [c]])"
| "lines_from cur (c # d # cs) =
     (if c = CHR 0x0D \<and> d = CHR 0x0A then cur # lines_from [] cs
      else if line_break c then cur # lines_from [] (d # cs)
      else lines_from (cur @ [c]) (d # cs))"

definition splitlines :: "string \<Rightarrow> string list" where
  "splitlines s = lines_from [] s"

definition newline :: string where
  "newline = [CHR 0x0A]"

fun retain_lines :: "(string \<Rightarrow> nat) \<Rightarrow> nat \<Rightarrow> string list \<Rightarrow> string list \<Rightarrow> string list" where
  "retain_lines estimate limit retained [] = retained"
| "retain_lines estimate limit retained (line # rest) =
     (if limit < estimate (join_with newline (retained @ [line])) then retained
      else retain_lines estimate limit (retained @ [line]) rest)"

text \<open>The binary search for the longest prefix of a line that fits.\<close>

function longest_prefix :: "(string \<Rightarrow> nat) \<Rightarrow> nat \<Rightarrow> string \<Rightarrow> nat \<Rightarrow> nat \<Rightarrow> nat" where
  "longest_prefix estimate limit line low high =
     (if low < high
      then
        let midpoint = (low + high + 1) div 2 in
        if estimate (take midpoint line) \<le> limit then longest_prefix estimate limit line midpoint high
        else longest_prefix estimate limit line low (midpoint - 1)
      else low)"
  by pat_completeness auto
termination
  by (relation "measure (\<lambda>(_, _, _, low, high). high - low)") auto

declare longest_prefix.simps [simp del]

definition truncate_content :: "context_lib \<Rightarrow> context_source \<Rightarrow> nat \<Rightarrow> string \<times> bool" where
  "truncate_content lib s limit =
     (if limit = 0 then ([], cs_content s \<noteq> [])
      else if message_estimate lib s (cs_content s) \<le> limit then (cs_content s, False)
      else
        let lines = splitlines (cs_content s);
            retained = retain_lines (message_estimate lib s) limit [] lines;
            low = (if retained = [] \<and> lines \<noteq> []
                   then longest_prefix (message_estimate lib s) limit (hd lines) 0 (length (hd lines)) else 0);
            content = join_with newline (if 0 < low then [take low (hd lines)] else retained)
        in (content, content \<noteq> cs_content s))"

section \<open>Preparing a request\<close>

text \<open>The content, whether it was cut, and the estimate of an optional source; \<open>None\<close> is a
  source that is left out.\<close>

definition fit_source :: "context_lib \<Rightarrow> context_source \<Rightarrow> nat \<Rightarrow> (string \<times> bool \<times> nat) option" where
  "fit_source lib s room =
     (case truncate_content lib s (min room (case cs_budget s of None \<Rightarrow> room | Some t \<Rightarrow> if t = 0 then room else t)) of
        (content, truncated) \<Rightarrow>
          if content = [] then None
          else if room < message_estimate lib s content
          then (case truncate_content lib s room of
                  (content', again) \<Rightarrow>
                    if content' = [] then None
                    else Some (content', truncated \<or> again, message_estimate lib s content'))
          else Some (content, truncated, message_estimate lib s content))"

definition manifest_of :: "context_lib \<Rightarrow> context_source \<Rightarrow> nat \<Rightarrow> string \<Rightarrow> bool \<Rightarrow> nat \<Rightarrow> manifest_item" where
  "manifest_of lib s order content truncated tokens =
     \<lparr>mf_kind = cs_kind s, mf_id = cs_id s, mf_order = order, mf_tokens = tokens, mf_truncated = truncated,
      mf_hash = cl_sha lib content, mf_start = cs_start s, mf_end = cs_end s, mf_skills = cs_skills s\<rparr>"

fun place_sources :: "context_lib \<Rightarrow> context_source list \<Rightarrow> nat \<Rightarrow> nat \<Rightarrow> (model_message \<times> manifest_item) list" where
  "place_sources lib [] room order = []"
| "place_sources lib (s # ss) room order =
     (if mandatory_source s
      then (source_message s (cs_content s),
            manifest_of lib s order (cs_content s) False (message_estimate lib s (cs_content s))) #
           place_sources lib ss room (order + 1)
      else
        (case fit_source lib s room of
           None \<Rightarrow> place_sources lib ss room order
         | Some (content, truncated, tokens) \<Rightarrow>
             (source_message s content, manifest_of lib s order content truncated tokens) #
             place_sources lib ss (room - tokens) (order + 1)))"

definition mandatory_tokens :: "context_lib \<Rightarrow> context_source list \<Rightarrow> nat" where
  "mandatory_tokens lib ss = sum_list (map (\<lambda>s. message_estimate lib s (cs_content s)) (filter mandatory_source ss))"

definition request_sources :: "context_lib \<Rightarrow> context_request \<Rightarrow> nat \<Rightarrow> context_source list" where
  "request_sources lib q available = apply_memory_budgets available (ordered_unique lib (cq_sources q))"

definition prepare_request :: "context_lib \<Rightarrow> context_request \<Rightarrow> context_error + built_context" where
  "prepare_request lib q =
     (case calculate_context_budget (cq_configured q) (cq_model_limit q) of
        Inl e \<Rightarrow> Inl e
      | Inr budget \<Rightarrow>
          if cb_limit budget < cq_reserved q then Inl ContextOverflow
          else
            let available = cb_limit budget - cq_reserved q;
                sources = request_sources lib q available;
                mandatory = mandatory_tokens lib sources
            in if available < mandatory then Inl ContextOverflow
               else
                 let placed = place_sources lib sources (available - mandatory) 0;
                     estimated = estimate_messages lib (map fst placed)
                 in if cb_limit budget < estimated + cq_reserved q then Inl ContextOverflow
                    else Inr \<lparr>bc_messages = map fst placed, bc_manifest = map snd placed, bc_tokens = estimated,
                              bc_limit = cb_limit budget,
                              bc_compress = (cb_threshold budget \<le> estimated + cq_reserved q)\<rparr>)"

section \<open>What is kept fits\<close>

lemma retain_lines_fits:
  assumes "retained = [] \<or> estimate (join_with newline retained) \<le> limit"
  shows "retain_lines estimate limit retained rest = [] \<or>
    estimate (join_with newline (retain_lines estimate limit retained rest)) \<le> limit"
  using assms by (induction rest arbitrary: retained) auto

lemma longest_prefix_fits:
  "low = 0 \<or> estimate (take low line) \<le> limit \<Longrightarrow>
    longest_prefix estimate limit line low high = 0 \<or>
    estimate (take (longest_prefix estimate limit line low high) line) \<le> (limit :: nat)"
proof (induction estimate limit line low high rule: longest_prefix.induct)
  case (1 estimate limit line low high)
  then show ?case
    by (subst (1 2) longest_prefix.simps) (auto simp: Let_def)
qed

lemma truncate_fits:
  assumes "truncate_content lib s limit = (content, truncated)" and "content \<noteq> []"
  shows "message_estimate lib s content \<le> limit"
proof -
  define estimate where "estimate = message_estimate lib s"
  define lines where "lines = splitlines (cs_content s)"
  define retained where "retained = retain_lines estimate limit [] lines"
  define low where "low = (if retained = [] \<and> lines \<noteq> [] then longest_prefix estimate limit (hd lines) 0 (length (hd lines)) else 0)"
  show ?thesis
  proof (cases "limit = 0 \<or> message_estimate lib s (cs_content s) \<le> limit")
    case True
    with assms show ?thesis by (auto simp: truncate_content_def split: if_splits)
  next
    case False
    then have content: "content = join_with newline (if 0 < low then [take low (hd lines)] else retained)"
      using assms(1)
      unfolding truncate_content_def Let_def estimate_def [symmetric] lines_def [symmetric] retained_def [symmetric] low_def [symmetric]
      by simp
    show ?thesis
    proof (cases "0 < low")
      case True
      then have "estimate (take low (hd lines)) \<le> limit"
        using longest_prefix_fits [of 0 estimate "hd lines" limit "length (hd lines)"] by (auto simp: low_def split: if_splits)
      with True content show ?thesis by (simp add: estimate_def)
    next
      case False
      with content assms(2) have "retained \<noteq> []" by auto
      then have "estimate (join_with newline retained) \<le> limit"
        using retain_lines_fits [of "[]" estimate limit lines] by (auto simp: retained_def)
      with False content show ?thesis by (simp add: estimate_def)
    qed
  qed
qed

definition source_limit :: "nat \<Rightarrow> context_source \<Rightarrow> nat" where
  "source_limit room s = min room (case cs_budget s of None \<Rightarrow> room | Some t \<Rightarrow> if t = 0 then room else t)"

lemma source_limit_le: "source_limit room s \<le> room" "cs_budget s = Some t \<Longrightarrow> t \<noteq> 0 \<Longrightarrow> source_limit room s \<le> t"
  by (simp_all add: source_limit_def)

lemma fit_source_fits:
  assumes "fit_source lib s room = Some (content, truncated, tokens)"
  shows "tokens = message_estimate lib s content" and "tokens \<le> source_limit room s" and "content \<noteq> []"
    and "truncate_content lib s (source_limit room s) = (content, truncated)"
proof -
  obtain c t where c: "truncate_content lib s (source_limit room s) = (c, t)" by fastforce
  have "c \<noteq> []" using assms c by (auto simp: fit_source_def source_limit_def [symmetric] split: if_splits)
  with truncate_fits [OF c] have fits: "message_estimate lib s c \<le> source_limit room s" by blast
  then have "\<not> room < message_estimate lib s c" using source_limit_le(1) [of room s] by simp
  then show "tokens = message_estimate lib s content" "tokens \<le> source_limit room s" "content \<noteq> []"
    "truncate_content lib s (source_limit room s) = (content, truncated)"
    using assms c fits \<open>c \<noteq> []\<close> by (auto simp: fit_source_def source_limit_def [symmetric] split: if_splits)
qed

section \<open>The token limit\<close>

lemma estimate_messages_simps [simp]:
  "estimate_messages lib [] = 0" "estimate_messages lib (m # ms) = message_tokens lib m + estimate_messages lib ms"
  "estimate_messages lib (xs @ ys) = estimate_messages lib xs + estimate_messages lib ys"
  by (simp_all add: estimate_messages_def)

lemma mandatory_tokens_simps [simp]:
  "mandatory_tokens lib [] = 0"
  "mandatory_tokens lib (s # ss) = (if mandatory_source s then message_estimate lib s (cs_content s) else 0) + mandatory_tokens lib ss"
  by (simp_all add: mandatory_tokens_def)

lemma place_sources_within:
  "estimate_messages lib (map fst (place_sources lib ss room order)) \<le> mandatory_tokens lib ss + room"
proof (induction ss arbitrary: room order)
  case (Cons s ss)
  show ?case
  proof (cases "mandatory_source s")
    case True
    with Cons [of room "order + 1"] show ?thesis by (simp add: message_estimate_def)
  next
    case False
    show ?thesis
    proof (cases "fit_source lib s room")
      case None
      with False Cons [of room order] show ?thesis by simp
    next
      case (Some r)
      then obtain content truncated tokens where r: "fit_source lib s room = Some (content, truncated, tokens)" by (cases r) auto
      have "tokens = message_tokens lib (source_message s content)" "tokens \<le> room"
        using fit_source_fits [OF r] source_limit_le(1) [of room s] by (simp_all add: message_estimate_def)
      with False r Cons [of "room - tokens" "order + 1"] show ?thesis by simp
    qed
  qed
qed simp

lemma place_sources_manifest:
  "list_all2 (\<lambda>m i. mf_tokens i = message_tokens lib m) (map fst (place_sources lib ss room order)) (map snd (place_sources lib ss room order))"
  "map mf_order (map snd (place_sources lib ss room order)) = [order..<order + length (place_sources lib ss room order)]"
proof (induction ss arbitrary: room order)
  case (Cons s ss)
  { case 1 then show ?case
      using Cons(1) by (auto simp: manifest_of_def message_estimate_def dest: fit_source_fits split: option.split) }
  { case 2 then show ?case
      using Cons(2) by (auto simp: manifest_of_def upt_conv_Cons simp del: upt_Suc split: option.split) }
qed simp_all

text \<open>The room that the sources of a request share, and when a request has an answer.\<close>

definition request_room :: "context_request \<Rightarrow> nat option" where
  "request_room q =
     (case calculate_context_budget (cq_configured q) (cq_model_limit q) of
        Inl _ \<Rightarrow> None
      | Inr budget \<Rightarrow> if cb_limit budget < cq_reserved q then None else Some (cb_limit budget - cq_reserved q))"

definition placed_sources :: "context_lib \<Rightarrow> context_request \<Rightarrow> nat \<Rightarrow> (model_message \<times> manifest_item) list" where
  "placed_sources lib q room =
     place_sources lib (request_sources lib q room) (room - mandatory_tokens lib (request_sources lib q room)) 0"

lemma prepare_request_cases:
  "prepare_request lib q = Inr p \<longleftrightarrow>
     (\<exists>budget. calculate_context_budget (cq_configured q) (cq_model_limit q) = Inr budget \<and> cq_reserved q \<le> cb_limit budget \<and>
        mandatory_tokens lib (request_sources lib q (cb_limit budget - cq_reserved q)) \<le> cb_limit budget - cq_reserved q \<and>
        p = (let placed = placed_sources lib q (cb_limit budget - cq_reserved q); tokens = estimate_messages lib (map fst placed) in
             \<lparr>bc_messages = map fst placed, bc_manifest = map snd placed, bc_tokens = tokens, bc_limit = cb_limit budget,
              bc_compress = (cb_threshold budget \<le> tokens + cq_reserved q)\<rparr>))"
    (is "?l \<longleftrightarrow> ?r")
proof (cases "calculate_context_budget (cq_configured q) (cq_model_limit q)")
  case (Inl e)
  then show ?thesis by (simp add: prepare_request_def)
next
  case (Inr budget)
  define room where "room = cb_limit budget - cq_reserved q"
  define mandatory where "mandatory = mandatory_tokens lib (request_sources lib q room)"
  define tokens where "tokens = estimate_messages lib (map fst (placed_sources lib q room))"
  show ?thesis
  proof (cases "cq_reserved q \<le> cb_limit budget \<and> mandatory \<le> room")
    case False
    with Inr show ?thesis by (auto simp: prepare_request_def room_def [symmetric] mandatory_def [symmetric])
  next
    case True
    have "tokens \<le> mandatory + (room - mandatory)"
      unfolding tokens_def mandatory_def placed_sources_def by (rule place_sources_within)
    with True have "\<not> cb_limit budget < tokens + cq_reserved q" unfolding room_def by linarith
    moreover have "place_sources lib (request_sources lib q room) (room - mandatory) 0 = placed_sources lib q room"
      by (simp add: placed_sources_def mandatory_def)
    ultimately show ?thesis
      using Inr True
      by (auto simp: prepare_request_def Let_def room_def [symmetric] mandatory_def [symmetric] tokens_def [symmetric])
  qed
qed

lemma budget_bounds:
  assumes "calculate_context_budget configured model_limit = Inr budget"
  shows "cb_limit budget + cb_output budget + cb_safety budget = min configured model_limit"
    and "0 < cb_limit budget" and "0 < cb_threshold budget" and "cb_threshold budget \<le> cb_limit budget"
    and "cb_output budget = min OUTPUT_RESERVE (min configured model_limit)" and "cb_safety budget = min configured model_limit div 10"
proof -
  define total where "total = min configured model_limit"
  define reserve where "reserve = min OUTPUT_RESERVE total"
  define safety where "safety = total div 10"
  define limit where "limit = total - reserve - safety"
  define threshold where "threshold = limit * 4 div 5"
  have ok: "\<not> total \<le> reserve + safety" "threshold \<noteq> 0"
    and budget: "budget = \<lparr>cb_total = total, cb_output = reserve, cb_safety = safety, cb_limit = limit, cb_threshold = threshold\<rparr>"
    using assms
    unfolding calculate_context_budget_def Let_def total_def [symmetric] reserve_def [symmetric] safety_def [symmetric]
      limit_def [symmetric] threshold_def [symmetric]
    by (simp_all split: if_splits)
  have "limit + reserve + safety = total" "0 < limit" using ok(1) by (simp_all add: limit_def)
  moreover have "threshold \<le> limit" by (simp add: threshold_def)
  ultimately show "cb_limit budget + cb_output budget + cb_safety budget = min configured model_limit"
    "0 < cb_limit budget" "0 < cb_threshold budget" "cb_threshold budget \<le> cb_limit budget"
    "cb_output budget = min OUTPUT_RESERVE (min configured model_limit)" "cb_safety budget = min configured model_limit div 10"
    using ok(2) by (simp_all add: budget total_def reserve_def safety_def)
qed

lemma budget_error: "calculate_context_budget configured model_limit \<noteq> Inl ContextOverflow"
proof -
  have "(if c1 then Inl BudgetInvalid else if c2 then Inl BudgetInvalid else if c3 then Inl BudgetInvalid else Inr r) \<noteq> Inl ContextOverflow"
    for c1 c2 c3 and r :: context_budget by simp
  then show ?thesis unfolding calculate_context_budget_def Let_def .
qed

lemma manifest_tokens_sum:
  "list_all2 (\<lambda>m i. mf_tokens i = message_tokens lib m) ms items \<Longrightarrow> estimate_messages lib ms = sum_list (map mf_tokens items)"
  by (induction rule: list_all2_induct) auto

section \<open>The memory budgets\<close>

definition memory_source :: "context_source \<Rightarrow> bool" where
  "memory_source s \<longleftrightarrow> cs_kind s \<in> set memory_kinds"

definition memory_granted :: "source_kind \<Rightarrow> context_source list \<Rightarrow> nat" where
  "memory_granted k ss = sum_list (map (\<lambda>s. case cs_budget s of None \<Rightarrow> 0 | Some t \<Rightarrow> t) (filter (\<lambda>s. cs_kind s = k) ss))"

lemma granted_simps [simp]:
  "memory_granted k [] = 0"
  "memory_granted k (s # ss) = (if cs_kind s = k then (case cs_budget s of None \<Rightarrow> 0 | Some t \<Rightarrow> t) else 0) + memory_granted k ss"
  by (simp_all add: memory_granted_def)





section \<open>Order and completeness\<close>

lemma sorted_sources_set [simp]: "set (sorted_sources ss) = set ss"
  by (simp add: sorted_sources_def) (metis map_snd_enumerate set_map)

definition source_place :: "context_source \<Rightarrow> nat \<times> nat" where
  "source_place s = place_of (cs_kind s) (cs_start s)"

lemma sorted_sources_sorted: "sorted_wrt (\<lambda>a b. source_place a \<le> source_place b) (sorted_sources ss)"
proof -
  have "sorted (map source_order_key (sort_key source_order_key (enumerate 0 ss)))" by (rule sorted_sort_key)
  then have "sorted_wrt (\<lambda>a b. source_order_key a \<le> source_order_key b) (sort_key source_order_key (enumerate 0 ss))"
    by (simp add: sorted_map)
  then have "sorted_wrt (\<lambda>a b. source_place (snd a) \<le> source_place (snd b)) (sort_key source_order_key (enumerate 0 ss))"
    by (rule sorted_wrt_mono_rel [rotated]) (auto simp: source_order_key_def source_place_def less_eq_prod_def Let_def)
  then show ?thesis by (simp add: sorted_sources_def sorted_wrt_map)
qed

lemma keep_unique_subset: "set (keep_unique lib seen ss) \<subseteq> set ss"
  by (induction lib seen ss rule: keep_unique.induct) (auto simp: Let_def)

lemma keep_unique_sorted: "sorted_wrt R ss \<Longrightarrow> sorted_wrt R (keep_unique lib seen ss)"
  by (induction lib seen ss rule: keep_unique.induct) (use keep_unique_subset in \<open>fastforce simp: Let_def\<close>)+

lemma keep_unique_always: "s \<in> set ss \<Longrightarrow> kept_always s \<Longrightarrow> s \<in> set (keep_unique lib seen ss)"
  by (induction lib seen ss rule: keep_unique.induct) (auto simp: Let_def)

lemma keep_unique_unseen:
  "t \<in> set (keep_unique lib seen ss) \<Longrightarrow> \<not> kept_always t \<Longrightarrow> dedupe_key_of lib t \<notin> set seen"
  by (induction lib seen ss rule: keep_unique.induct) (auto simp: Let_def split: if_splits)

lemma keep_unique_distinct:
  "distinct (map (dedupe_key_of lib) (filter (\<lambda>s. \<not> kept_always s) (keep_unique lib seen ss)))"
proof (induction ss arbitrary: seen)
  case (Cons s ss)
  have "dedupe_key_of lib s \<notin> dedupe_key_of lib ` {t \<in> set (keep_unique lib (dedupe_key_of lib s # seen) ss). \<not> kept_always t}"
    using keep_unique_unseen by fastforce
  with Cons show ?case by (simp add: Let_def)
qed simp

lemma keep_unique_represented:
  "s \<in> set ss \<Longrightarrow> \<not> kept_always s \<Longrightarrow> dedupe_key_of lib s \<notin> set seen \<Longrightarrow>
     \<exists>t \<in> set (keep_unique lib seen ss). \<not> kept_always t \<and> dedupe_key_of lib t = dedupe_key_of lib s"
  by (induction lib seen ss rule: keep_unique.induct) (fastforce simp: Let_def)+

text \<open>The budgets leave the rest of a source as it is.\<close>

lemma budget_memory_Cons:
  obtains (kept) s' caps' where "budget_memory caps (s # ss) = s' # budget_memory caps' ss"
      "source_place s' = source_place s" "\<And>k. caps k = None \<Longrightarrow> caps' k = None" "caps (cs_kind s) = None \<Longrightarrow> s' = s"
  | (dropped) "budget_memory caps (s # ss) = budget_memory caps ss" "caps (cs_kind s) = Some 0"
proof (cases "caps (cs_kind s)")
  case None
  then show ?thesis by (intro kept [of s caps]) auto
next
  case (Some left)
  show ?thesis
  proof (cases "left < 1")
    case True
    with Some show ?thesis by (intro dropped) auto
  next
    case False
    define a where "a = (case cs_budget s of None \<Rightarrow> left | Some t \<Rightarrow> min left t)"
    define caps' where "caps' = caps(cs_kind s \<mapsto> left - a)"
    have "budget_memory caps (s # ss) = s\<lparr>cs_budget := Some a\<rparr> # budget_memory caps' ss"
      using Some False by (simp add: a_def Let_def caps'_def)
    moreover have "caps' k = None" if "caps k = None" for k using that Some by (auto simp: caps'_def)
    ultimately show ?thesis
      by (intro kept [of "s\<lparr>cs_budget := Some a\<rparr>" caps']) (auto simp: source_place_def Some)
  qed
qed

lemma budget_memory_place:
  "sorted_wrt (\<lambda>a b. source_place a \<le> source_place b) ss \<Longrightarrow>
     sorted_wrt (\<lambda>a b. source_place a \<le> source_place b) (budget_memory caps ss) \<and>
     source_place ` set (budget_memory caps ss) \<subseteq> source_place ` set ss"
proof (induction ss arbitrary: caps)
  case (Cons s ss)
  show ?case
  proof (cases rule: budget_memory_Cons [of caps s ss])
    case (kept s' caps')
    have below: "source_place s \<le> p" if "p \<in> source_place ` set (budget_memory caps' ss)" for p
      using Cons.IH [of caps'] Cons.prems that by auto
    show ?thesis unfolding kept(1) using Cons.IH [of caps'] Cons.prems below by (auto simp: kept(2) simp del: budget_memory.simps)
  next
    case dropped
    show ?thesis unfolding dropped(1) using Cons.IH [of caps] Cons.prems by (auto simp del: budget_memory.simps)
  qed
qed simp

lemma budget_memory_keeps: "s \<in> set ss \<Longrightarrow> caps (cs_kind s) = None \<Longrightarrow> s \<in> set (budget_memory caps ss)"
proof (induction ss arbitrary: caps)
  case (Cons t ss)
  show ?case
  proof (cases rule: budget_memory_Cons [of caps t ss])
    case (kept t' caps')
    show ?thesis unfolding kept(1)
      using Cons.IH [of caps'] kept(3) [of "cs_kind s"] Cons.prems kept(4) by (cases "s = t") (auto simp del: budget_memory.simps)
  next
    case dropped
    have "s \<noteq> t" using dropped(2) Cons.prems(2) by auto
    then show ?thesis unfolding dropped(1) using Cons.IH [of caps] Cons.prems by (simp del: budget_memory.simps)
  qed
qed simp

lemma memory_caps_kinds: "memory_caps limit k \<noteq> None \<longleftrightarrow> k \<in> set memory_kinds"
  by (auto simp: memory_caps_def memory_kinds_def Let_def)

lemma place_sources_mandatory:
  "s \<in> set ss \<Longrightarrow> mandatory_source s \<Longrightarrow>
     \<exists>order. (source_message s (cs_content s), manifest_of lib s order (cs_content s) False (message_estimate lib s (cs_content s)))
       \<in> set (place_sources lib ss room n)"
proof (induction ss arbitrary: room n)
  case (Cons t ss)
  show ?case
  proof (cases "s = t")
    case True
    with Cons.prems(2) show ?thesis by auto
  next
    case False
    with Cons.prems have "s \<in> set ss" by simp
    then show ?thesis using Cons.IH Cons.prems(2) by (fastforce split: option.split)
  qed
qed simp

lemma place_sources_item:
  "(m, i) \<in> set (place_sources lib ss room n) \<Longrightarrow>
     \<exists>s \<in> set ss. \<exists>content order truncated.
       m = source_message s content \<and> i = manifest_of lib s order content truncated (message_estimate lib s content)"
proof (induction ss arbitrary: room n)
  case (Cons s ss)
  show ?case
  proof (cases "mandatory_source s")
    case True
    with Cons.prems Cons.IH [of room "n + 1"] show ?thesis by auto
  next
    case False
    show ?thesis
    proof (cases "fit_source lib s room")
      case None
      with False Cons.prems Cons.IH [of room n] show ?thesis by auto
    next
      case (Some r)
      then obtain content truncated tokens where r: "fit_source lib s room = Some (content, truncated, tokens)" by (cases r) auto
      note tokens = fit_source_fits(1) [OF r]
      show ?thesis using Cons.prems Cons.IH [of "room - tokens" "n + 1"] False by (auto simp: r tokens)
    qed
  qed
qed simp

lemma place_sources_places:
  assumes "(m, i) \<in> set (place_sources lib ss room n)"
  shows "place_of (mf_kind i) (mf_start i) \<in> source_place ` set ss"
  using place_sources_item [OF assms] by (auto simp: manifest_of_def source_place_def)

lemma place_sources_sorted:
  "sorted_wrt (\<lambda>a b. source_place a \<le> source_place b) ss \<Longrightarrow>
     sorted (map (\<lambda>(_, i). place_of (mf_kind i) (mf_start i)) (place_sources lib ss room n))"
proof (induction ss arbitrary: room n)
  case (Cons s ss)
  have first: "place_of (mf_kind (manifest_of lib s o' c t e)) (mf_start (manifest_of lib s o' c t e)) = source_place s" for o' c t e
    by (simp add: manifest_of_def source_place_def)
  have "source_place s \<le> p" if "p \<in> set (map (\<lambda>(_, i). place_of (mf_kind i) (mf_start i)) (place_sources lib ss room' n'))" for p room' n'
    using that place_sources_places [of _ _ lib ss room' n'] Cons.prems by fastforce
  with Cons show ?case by (auto simp: first split: option.split)
qed simp

section \<open>The properties of a prepared context\<close>

lemma placed_within:
  assumes "mandatory_tokens lib (request_sources lib q room) \<le> room"
  shows "estimate_messages lib (map fst (placed_sources lib q room)) \<le> room"
proof -
  define mandatory where "mandatory = mandatory_tokens lib (request_sources lib q room)"
  have "estimate_messages lib (map fst (placed_sources lib q room)) \<le> mandatory + (room - mandatory)"
    unfolding placed_sources_def mandatory_def by (rule place_sources_within)
  with assms show ?thesis by (simp add: mandatory_def)
qed

lemma prepare_error:
  assumes "prepare_request lib q = Inl e"
  shows "calculate_context_budget (cq_configured q) (cq_model_limit q) = Inl e \<or>
    (e = ContextOverflow \<and> (\<exists>budget. calculate_context_budget (cq_configured q) (cq_model_limit q) = Inr budget \<and>
       cb_limit budget < cq_reserved q + mandatory_tokens lib (request_sources lib q (cb_limit budget - cq_reserved q))))"
proof (cases "calculate_context_budget (cq_configured q) (cq_model_limit q)")
  case (Inl e')
  with assms show ?thesis by (simp add: prepare_request_def)
next
  case (Inr budget)
  have "e = ContextOverflow"
    using assms Inr unfolding prepare_request_def sum.case Let_def by (auto split: if_splits)
  moreover have "\<not> (cq_reserved q \<le> cb_limit budget \<and>
      mandatory_tokens lib (request_sources lib q (cb_limit budget - cq_reserved q)) \<le> cb_limit budget - cq_reserved q)"
    using assms Inr prepare_request_cases [of lib q] by fastforce
  ultimately show ?thesis using Inr by auto
qed

text \<open>C19: preparing a request has an answer exactly when the mandatory sources and the reserved tokens fit
  in the effective limit.  The answer with the reserved tokens then stays within that limit, which leaves
  out the output and safety reserves; its estimate is the sum of the estimates of the manifest, whose
  entries are numbered from zero, one for each message.\<close>

theorem prepared_context_fits:
  "case prepare_request lib q of
     Inr p \<Rightarrow>
       bc_tokens p + cq_reserved q \<le> bc_limit p \<and>
       bc_limit p + min OUTPUT_RESERVE (min (cq_configured q) (cq_model_limit q)) + min (cq_configured q) (cq_model_limit q) div 10
         = min (cq_configured q) (cq_model_limit q) \<and>
       bc_tokens p = sum_list (map mf_tokens (bc_manifest p)) \<and>
       map mf_tokens (bc_manifest p) = map (message_tokens lib) (bc_messages p) \<and>
       map mf_order (bc_manifest p) = [0..<length (bc_messages p)]
   | Inl BudgetInvalid \<Rightarrow> calculate_context_budget (cq_configured q) (cq_model_limit q) = Inl BudgetInvalid
   | Inl ContextOverflow \<Rightarrow>
       (\<exists>budget. calculate_context_budget (cq_configured q) (cq_model_limit q) = Inr budget \<and>
          cb_limit budget < cq_reserved q + mandatory_tokens lib (request_sources lib q (cb_limit budget - cq_reserved q)))"
proof (cases "prepare_request lib q")
  case (Inr p)
  then obtain budget where b: "calculate_context_budget (cq_configured q) (cq_model_limit q) = Inr budget"
    "cq_reserved q \<le> cb_limit budget"
    "mandatory_tokens lib (request_sources lib q (cb_limit budget - cq_reserved q)) \<le> cb_limit budget - cq_reserved q"
    and p: "p = (let placed = placed_sources lib q (cb_limit budget - cq_reserved q); tokens = estimate_messages lib (map fst placed) in
             \<lparr>bc_messages = map fst placed, bc_manifest = map snd placed, bc_tokens = tokens, bc_limit = cb_limit budget,
              bc_compress = (cb_threshold budget \<le> tokens + cq_reserved q)\<rparr>)"
    unfolding prepare_request_cases by blast
  define placed where "placed = placed_sources lib q (cb_limit budget - cq_reserved q)"
  have "estimate_messages lib (map fst placed) + cq_reserved q \<le> cb_limit budget"
    using placed_within [OF b(3)] b(2) unfolding placed_def by linarith
  moreover have "list_all2 (\<lambda>m i. mf_tokens i = message_tokens lib m) (map fst placed) (map snd placed)"
    unfolding placed_def placed_sources_def by (rule place_sources_manifest(1))
  moreover from this have "map mf_tokens (map snd placed) = map (message_tokens lib) (map fst placed)"
    by (induction placed) auto
  moreover from \<open>list_all2 _ _ _\<close> have "estimate_messages lib (map fst placed) = sum_list (map mf_tokens (map snd placed))"
    by (rule manifest_tokens_sum)
  moreover have "map mf_order (map snd placed) = [0..<length placed]"
    unfolding placed_def placed_sources_def by (simp only: place_sources_manifest(2) add_0)
  ultimately show ?thesis
    using Inr budget_bounds(1,5,6) [OF b(1)]
    by (simp add: p Let_def placed_def [symmetric])
next
  case (Inl e)
  from prepare_error [OF Inl] show ?thesis
    using Inl budget_error [of "cq_configured q" "cq_model_limit q"] by (cases e) auto
qed

lemma keep_unique_filter: "filter kept_always (keep_unique lib seen ss) = filter kept_always ss"
  by (induction lib seen ss rule: keep_unique.induct) (auto simp: Let_def)

lemma placed_sorted: "sorted (map (\<lambda>i. place_of (mf_kind i) (mf_start i)) (map snd (placed_sources lib q room)))"
proof -
  have "sorted_wrt (\<lambda>a b. source_place a \<le> source_place b) (request_sources lib q room)"
    unfolding request_sources_def apply_memory_budgets_def ordered_unique_def
    using budget_memory_place [OF keep_unique_sorted [OF sorted_sources_sorted]] by blast
  from place_sources_sorted [OF this] show ?thesis
    by (simp add: placed_sources_def comp_def case_prod_unfold)
qed

text \<open>C22: the sources of a request are sorted by their place: the kinds in their order, the entries of the
  conversation by their sequence.  Sources that are mandatory or belong to the timeline are all kept, as often
  as they occur; of the others exactly one of each content (of each kind and role, or of all memories) is kept.
  The manifest of a prepared context keeps the order.\<close>

theorem context_sources_ordered_unique:
  "sorted_wrt (\<lambda>a b. source_place a \<le> source_place b) (ordered_unique lib ss) \<and>
   filter kept_always (ordered_unique lib ss) = filter kept_always (sorted_sources ss) \<and>
   mset (sorted_sources ss) = mset ss \<and>
   distinct (map (dedupe_key_of lib) (filter (\<lambda>s. \<not> kept_always s) (ordered_unique lib ss))) \<and>
   dedupe_key_of lib ` {s \<in> set (ordered_unique lib ss). \<not> kept_always s} = dedupe_key_of lib ` {s \<in> set ss. \<not> kept_always s} \<and>
   (case prepare_request lib q of Inl _ \<Rightarrow> True
    | Inr p \<Rightarrow> sorted (map (\<lambda>i. place_of (mf_kind i) (mf_start i)) (bc_manifest p)))"
proof (intro conjI)
  show "sorted_wrt (\<lambda>a b. source_place a \<le> source_place b) (ordered_unique lib ss)"
    unfolding ordered_unique_def by (rule keep_unique_sorted [OF sorted_sources_sorted])
  show "filter kept_always (ordered_unique lib ss) = filter kept_always (sorted_sources ss)"
    unfolding ordered_unique_def by (rule keep_unique_filter)
  have "mset (sorted_sources ss) = image_mset snd (mset (enumerate 0 ss))" by (simp add: sorted_sources_def)
  also have "\<dots> = mset ss" by (simp flip: mset_map)
  finally show "mset (sorted_sources ss) = mset ss" .
  show "distinct (map (dedupe_key_of lib) (filter (\<lambda>s. \<not> kept_always s) (ordered_unique lib ss)))"
    unfolding ordered_unique_def by (rule keep_unique_distinct)
  show "dedupe_key_of lib ` {s \<in> set (ordered_unique lib ss). \<not> kept_always s} = dedupe_key_of lib ` {s \<in> set ss. \<not> kept_always s}"
  proof (intro subset_antisym image_subsetI)
    fix s assume "s \<in> {s \<in> set (ordered_unique lib ss). \<not> kept_always s}"
    then show "dedupe_key_of lib s \<in> dedupe_key_of lib ` {s \<in> set ss. \<not> kept_always s}"
      using keep_unique_subset [of lib "[]" "sorted_sources ss"] by (auto simp: ordered_unique_def)
  next
    fix s assume "s \<in> {s \<in> set ss. \<not> kept_always s}"
    then obtain t where "t \<in> set (ordered_unique lib ss)" "\<not> kept_always t" "dedupe_key_of lib t = dedupe_key_of lib s"
      using keep_unique_represented [of s "sorted_sources ss" lib "[]"] by (auto simp: ordered_unique_def)
    then show "dedupe_key_of lib s \<in> dedupe_key_of lib ` {s \<in> set (ordered_unique lib ss). \<not> kept_always s}"
      by (auto intro!: image_eqI [of _ _ t])
  qed
  show "case prepare_request lib q of Inl _ \<Rightarrow> True | Inr p \<Rightarrow> sorted (map (\<lambda>i. place_of (mf_kind i) (mf_start i)) (bc_manifest p))"
  proof (cases "prepare_request lib q")
    case (Inr p)
    then obtain room where "bc_manifest p = map snd (placed_sources lib q room)"
      unfolding prepare_request_cases by (auto simp: Let_def)
    with Inr placed_sorted [of lib q room] show ?thesis by simp
  qed simp
qed








text \<open>C20: every mandatory source of a request that is no memory is in the prepared context, whole: its
  message holds its full content, and its manifest entry has its kind, its identity and the digest of that
  content and is not marked as cut.\<close>

theorem mandatory_sources_complete:
  assumes "prepare_request lib q = Inr p" and "s \<in> set (cq_sources q)" and "mandatory_source s" and "\<not> memory_source s"
  shows "\<exists>(m, i) \<in> set (zip (bc_messages p) (bc_manifest p)).
    m = source_message s (cs_content s) \<and> mf_kind i = cs_kind s \<and> mf_id i = cs_id s \<and> \<not> mf_truncated i \<and>
    mf_hash i = cl_sha lib (cs_content s) \<and> mf_tokens i = message_tokens lib m"
proof -
  define room where "room = bc_limit p - cq_reserved q"
  have p: "bc_messages p = map fst (placed_sources lib q room)" "bc_manifest p = map snd (placed_sources lib q room)"
    using assms(1) unfolding prepare_request_cases by (auto simp: Let_def room_def)
  have "s \<in> set (ordered_unique lib (cq_sources q))"
    unfolding ordered_unique_def by (rule keep_unique_always) (use assms in \<open>simp_all add: kept_always_def\<close>)
  moreover have "memory_caps room (cs_kind s) = None" using assms(4) memory_caps_kinds [of room "cs_kind s"] by (auto simp: memory_source_def)
  ultimately have "s \<in> set (request_sources lib q room)"
    unfolding request_sources_def apply_memory_budgets_def by (rule budget_memory_keeps)
  from place_sources_mandatory [OF this assms(3)] obtain order where
    "(source_message s (cs_content s), manifest_of lib s order (cs_content s) False (message_estimate lib s (cs_content s)))
       \<in> set (placed_sources lib q room)"
    unfolding placed_sources_def by blast
  then show ?thesis
    unfolding p zip_map_fst_snd by (rule bexI [rotated]) (simp add: manifest_of_def message_estimate_def)
qed

section \<open>A sample request\<close>

definition sample_lib :: context_lib where
  "sample_lib = \<lparr>cl_dump = (\<lambda>m. case m of SystemMessage t \<Rightarrow> t | UserMessage t \<Rightarrow> t | AssistantMessage t _ \<Rightarrow> t | ToolResultMessage _ t _ \<Rightarrow> t),
    cl_sha = (\<lambda>s. s)\<rparr>"

definition sample_request :: context_request where
  "sample_request = \<lparr>cq_sources = [new_source CURRENT_INPUT ''u'' ''hi'' USER_ROLE True, new_source USER_MEMORY ''m'' ''tea'' USER_ROLE False],
    cq_configured = 100000, cq_model_limit = 200000, cq_reserved = 32\<rparr>"

lemmas evaluate_request = prepare_request_def calculate_context_budget_def OUTPUT_RESERVE_def sample_request_def request_sources_def
  apply_memory_budgets_def memory_caps_def memory_total_def MAX_MEMORY_TOKENS_def ordered_unique_def sorted_sources_def
  enumerate_eq_zip source_order_key_def place_of_def source_order_def new_source_def timeline_kinds_def less_eq_prod_def
  kept_always_def mandatory_source_def always_mandatory_def dedupe_key_of_def memory_kinds_def sample_lib_def

lemma sample_sources:
  "request_sources sample_lib sample_request 57200 =
     [(new_source USER_MEMORY ''m'' ''tea'' USER_ROLE False)\<lparr>cs_budget := Some 1430\<rparr>, new_source CURRENT_INPUT ''u'' ''hi'' USER_ROLE True]"
  by (simp add: evaluate_request Let_def)

lemma sample_budget:
  "calculate_context_budget (cq_configured sample_request) (cq_model_limit sample_request) =
     Inr \<lparr>cb_total = 100000, cb_output = 32768, cb_safety = 10000, cb_limit = 57232, cb_threshold = 45785\<rparr>"
  by (simp add: evaluate_request)

lemma sample_prepared: "\<exists>p. prepare_request sample_lib sample_request = Inr p"
proof -
  have "mandatory_tokens sample_lib (request_sources sample_lib sample_request 57200) \<le> 57200"
    unfolding sample_sources
    by (simp add: mandatory_source_def always_mandatory_def new_source_def message_estimate_def message_tokens_def
        source_message_def kind_value_def sample_lib_def estimate_text_def structural_char_def utf8_bytes_def)
  moreover have "cq_reserved sample_request = 32" by (simp add: sample_request_def)
  ultimately show ?thesis
    unfolding prepare_request_cases sample_budget by simp
qed


theorem mandatory_sources_complete_witness:
  "\<exists>p. prepare_request sample_lib sample_request = Inr p \<and>
     source_message (new_source CURRENT_INPUT ''u'' ''hi'' USER_ROLE True) ''hi'' \<in> set (bc_messages p)"
proof -
  let ?s = "new_source CURRENT_INPUT ''u'' ''hi'' USER_ROLE True"
  obtain p where p: "prepare_request sample_lib sample_request = Inr p" using sample_prepared by blast
  have "?s \<in> set (cq_sources sample_request)" "mandatory_source ?s" "\<not> memory_source ?s"
    by (simp_all add: sample_request_def new_source_def mandatory_source_def memory_source_def memory_kinds_def)
  from mandatory_sources_complete [OF p this] show ?thesis
    using p by (auto simp: new_source_def dest: set_zip_leftD)
qed

end
