(* ===== verification/ConversationModels.thy ===== *)
theory ConversationModels
  imports Tools
begin

text \<open>
  \<open>conversation/models.py\<close> and \<open>BudgetConfig\<close> of \<open>config/models.py\<close>: threads, their
  entries and turns, summaries and tool activities, with the checks of their validators.  A
  timestamp is the number of microseconds since a fixed instant; the ISO strings that the
  database compares have the order of these numbers.
\<close>

section \<open>Usage and budgets\<close>

definition MAX_JSON_SAFE_INTEGER :: nat where
  "MAX_JSON_SAFE_INTEGER = 9007199254740991"

record usage_summary =
  us_input :: nat
  us_output :: nat
  us_reasoning :: nat
  us_cache_read :: nat
  us_cache_write :: nat
  us_model_calls :: nat
  us_tool_calls :: nat
  us_retries :: nat
  us_compressions :: nat
  us_web_requests :: nat
  us_active_seconds :: rat

definition empty_usage :: usage_summary where
  "empty_usage =
     \<lparr>us_input = 0, us_output = 0, us_reasoning = 0, us_cache_read = 0, us_cache_write = 0, us_model_calls = 0,
      us_tool_calls = 0, us_retries = 0, us_compressions = 0, us_web_requests = 0, us_active_seconds = 0\<rparr>"

definition valid_usage :: "usage_summary \<Rightarrow> bool" where
  "valid_usage u \<longleftrightarrow>
     list_all (\<lambda>n. n \<le> MAX_JSON_SAFE_INTEGER)
       [us_input u, us_output u, us_reasoning u, us_cache_read u, us_cache_write u, us_model_calls u, us_tool_calls u,
        us_retries u, us_compressions u, us_web_requests u] \<and>
     0 \<le> us_active_seconds u"

definition add_usage :: "usage_summary \<Rightarrow> usage_summary \<Rightarrow> usage_summary" where
  "add_usage u v =
     \<lparr>us_input = us_input u + us_input v, us_output = us_output u + us_output v, us_reasoning = us_reasoning u + us_reasoning v,
      us_cache_read = us_cache_read u + us_cache_read v, us_cache_write = us_cache_write u + us_cache_write v,
      us_model_calls = us_model_calls u + us_model_calls v, us_tool_calls = us_tool_calls u + us_tool_calls v,
      us_retries = us_retries u + us_retries v, us_compressions = us_compressions u + us_compressions v,
      us_web_requests = us_web_requests u + us_web_requests v, us_active_seconds = us_active_seconds u + us_active_seconds v\<rparr>"

record budget_config =
  bg_model_calls :: nat
  bg_tool_calls :: nat
  bg_retries :: nat
  bg_compressions :: nat
  bg_active_seconds :: nat
  bg_context_tokens :: nat
  bg_web_requests :: nat

definition valid_budget_config :: "budget_config \<Rightarrow> bool" where
  "valid_budget_config b \<longleftrightarrow>
     1 \<le> bg_model_calls b \<and> bg_model_calls b \<le> 256 \<and> 1 \<le> bg_tool_calls b \<and> bg_tool_calls b \<le> 512 \<and>
     bg_retries b \<le> 6 \<and> bg_compressions b \<le> 10 \<and> 1 \<le> bg_active_seconds b \<and> bg_active_seconds b \<le> 21600 \<and>
     1 \<le> bg_context_tokens b \<and> bg_web_requests b \<le> 8"

section \<open>Threads\<close>

type_synonym time = nat

datatype title_source = AUTOMATIC | MANUAL

datatype lineage_kind = FORK | RETRY

record thread_lineage =
  li_kind :: lineage_kind
  li_thread :: string
  li_turn :: string

record thread =
  th_id :: string
  th_workspace :: string
  th_title :: string
  th_title_source :: title_source
  th_model :: "string option"
  th_thinking :: bool
  th_skill_mode :: string
  th_lineage :: "thread_lineage option"
  th_created :: time
  th_updated :: time

definition valid_thread :: "thread \<Rightarrow> bool" where
  "valid_thread t \<longleftrightarrow>
     bounded 1 128 (th_id t) \<and> bounded 1 128 (th_workspace t) \<and> bounded 1 500 (th_title t) \<and>
     bounded_option 0 200 (th_model t) \<and> bounded 1 64 (th_skill_mode t) \<and>
     (case th_lineage t of None \<Rightarrow> True | Some l \<Rightarrow> bounded 1 128 (li_thread l) \<and> bounded 1 128 (li_turn l))"

section \<open>Entries\<close>

datatype entry_kind = USER_MESSAGE | ASSISTANT_MESSAGE | DIRECT_COMMAND_ENTRY

record thread_entry =
  en_id :: string
  en_thread :: string
  en_sequence :: nat
  en_kind :: entry_kind
  en_content :: string
  en_client :: "string option"
  en_metadata :: json_dict
  en_created :: time

text \<open>\<open>^client_[A-Za-z0-9_-]+$\<close>\<close>

definition valid_client_id :: "string \<Rightarrow> bool" where
  "valid_client_id s \<longleftrightarrow>
     starts_with ''client_'' s \<and> drop 7 s \<noteq> [] \<and> length s \<le> 128 \<and>
     list_all (\<lambda>c. is_lower (fold_char c) \<or> is_digit c \<or> c \<in> set ''_-'') (drop 7 s)"

definition valid_entry :: "thread_entry \<Rightarrow> bool" where
  "valid_entry e \<longleftrightarrow>
     bounded 1 128 (en_id e) \<and> bounded 1 128 (en_thread e) \<and> 1 \<le> en_sequence e \<and> en_sequence e \<le> MAX_JSON_SAFE_INTEGER \<and>
     length (en_content e) \<le> 200000 \<and>
     (case en_client e of
        Some c \<Rightarrow> en_kind e = USER_MESSAGE \<and> valid_client_id c
      | None \<Rightarrow> en_kind e \<noteq> USER_MESSAGE) \<and>
     (en_kind e = DIRECT_COMMAND_ENTRY \<longrightarrow> length (en_content e) \<le> 30000)"

definition citation_json :: "citation \<Rightarrow> json" where
  "citation_json c = JObject [(''id'', JString (ci_id c)), (''title'', JString (ci_title c)), (''url'', JString (ci_url c))]"

text \<open>\<open>AssistantEntryMetadata(citations=..).model_dump()\<close>: \<open>None\<close> when the allocator refuses them.\<close>

definition assistant_metadata :: "citation list \<Rightarrow> json_dict option" where
  "assistant_metadata citations =
     (if length citations \<le> 128
      then (case new_allocator citations of
              Inl _ \<Rightarrow> None
            | Inr _ \<Rightarrow> Some [(''citations'', JList (map citation_json citations))])
      else None)"

section \<open>Turns\<close>

datatype turn_status = TURN_IN_PROGRESS | TURN_COMPLETED | TURN_FAILED | TURN_CANCELLED

record turn =
  tn_id :: string
  tn_thread :: string
  tn_checkpoint :: string
  tn_status :: turn_status
  tn_provider :: string
  tn_model :: string
  tn_thinking :: bool
  tn_skill_mode :: string
  tn_budgets :: budget_config
  tn_user_entry :: string
  tn_assistant_entry :: "string option"
  tn_usage :: usage_summary
  tn_termination :: "string option"
  tn_error :: "string option"
  tn_manifest :: "json_dict list"
  tn_created :: time
  tn_updated :: time
  tn_completed :: "time option"

text \<open>\<open>validate_identity_and_terminal_shape\<close>\<close>

definition turn_shape :: "turn \<Rightarrow> bool" where
  "turn_shape t \<longleftrightarrow>
     tn_checkpoint t = tn_id t \<and>
     (if tn_status t = TURN_IN_PROGRESS
      then tn_completed t = None \<and> tn_assistant_entry t = None \<and> tn_error t = None
      else tn_completed t \<noteq> None \<and>
        (tn_status t = TURN_COMPLETED \<longrightarrow> tn_assistant_entry t \<noteq> None \<and> tn_error t = None) \<and>
        (tn_status t = TURN_FAILED \<longrightarrow> tn_error t \<noteq> None))"

definition valid_turn :: "turn \<Rightarrow> bool" where
  "valid_turn t \<longleftrightarrow>
     bounded 1 128 (tn_id t) \<and> bounded 1 128 (tn_thread t) \<and> bounded 1 128 (tn_checkpoint t) \<and>
     bounded 1 64 (tn_provider t) \<and> bounded 1 200 (tn_model t) \<and> bounded 1 64 (tn_skill_mode t) \<and>
     valid_budget_config (tn_budgets t) \<and> bounded 1 128 (tn_user_entry t) \<and> bounded_option 0 128 (tn_assistant_entry t) \<and>
     valid_usage (tn_usage t) \<and> bounded_option 0 128 (tn_termination t) \<and> bounded_option 0 128 (tn_error t) \<and> turn_shape t"

section \<open>Summaries, activities and views\<close>

record thread_summary =
  su_thread :: string
  su_content :: string
  su_hash :: string
  su_covered_sequence :: nat
  su_covered_turns :: nat
  su_tokens :: nat
  su_provider :: string
  su_model :: string
  su_updated :: time

definition valid_summary :: "thread_summary \<Rightarrow> bool" where
  "valid_summary s \<longleftrightarrow>
     bounded 1 128 (su_thread s) \<and> length (su_content s) \<le> 200000 \<and> length (su_hash s) = 64 \<and>
     su_covered_sequence s \<le> MAX_JSON_SAFE_INTEGER \<and> su_covered_turns s \<le> MAX_JSON_SAFE_INTEGER \<and>
     su_tokens s \<le> MAX_JSON_SAFE_INTEGER \<and> bounded 1 64 (su_provider s) \<and> bounded 1 200 (su_model s)"

record activity_row =
  av_id :: string
  av_thread :: string
  av_turn :: "string option"
  av_operation :: string
  av_call :: string
  av_sequence :: nat
  av_origin :: tool_origin
  av_tool :: string
  av_outcome :: string
  av_input :: string
  av_result :: string
  av_error :: "string option"
  av_duration :: nat
  av_change_set :: "string option"
  av_created :: time

record thread_view =
  vw_thread :: thread
  vw_entries :: "thread_entry list"
  vw_turns :: "turn list"
  vw_summary :: "thread_summary option"
  vw_activities :: "activity_row list"

section \<open>Errors and transitions\<close>

datatype conversation_error =
    ThreadNotFound string
  | TurnNotFound string
  | TurnBusy string
  | InvalidTurnTransition
  | ConversationConflict
  | ConversationValueError
  | DatabaseIntegrityError

text \<open>\<open>require_turn_transition\<close>\<close>

definition turn_transition :: "turn_status \<Rightarrow> turn_status \<Rightarrow> bool" where
  "turn_transition current target \<longleftrightarrow>
     current = TURN_IN_PROGRESS \<and> target \<in> {TURN_COMPLETED, TURN_FAILED, TURN_CANCELLED}"

text \<open>\<open>_monotonic_thread_update\<close>: the time of the last update never goes back.\<close>

definition monotonic_thread_update :: "thread \<Rightarrow> thread \<Rightarrow> conversation_error + thread" where
  "monotonic_thread_update current updated =
     (let t = updated\<lparr>th_updated := max (th_updated current) (th_updated updated)\<rparr> in
      if valid_thread t then Inr t else Inl ConversationValueError)"

end
