(* ===== verification/ConversationStore.thy ===== *)
theory ConversationStore
  imports ConversationModels "HOL-Library.Product_Lexorder"
begin

text \<open>
  \<open>storage/conversations.py\<close> over the tables of \<open>storage/database.py\<close>: the rows of the
  five tables, the statements on them with the constraints of the schema, and the operations of
  the repository.  Every write runs in one transaction: when it raises, nothing is kept.
\<close>

section \<open>Rows and transactions\<close>

record conv_db =
  db_threads :: "thread list"
  db_entries :: "thread_entry list"
  db_turns :: "turn list"
  db_summaries :: "thread_summary list"
  db_activities :: "activity_row list"

type_synonym 'a conv = "(conv_db, conversation_error, 'a) eff"

definition empty_db :: conv_db where
  "empty_db = \<lparr>db_threads = [], db_entries = [], db_turns = [], db_summaries = [], db_activities = []\<rparr>"

definition transaction :: "'a conv \<Rightarrow> 'a conv" where
  "transaction m = (\<lambda>db. case m db of (Inl e, _) \<Rightarrow> (Inl e, db) | (Inr x, db') \<Rightarrow> (Inr x, db'))"

definition find_thread :: "string \<Rightarrow> conv_db \<Rightarrow> thread option" where
  "find_thread i db = lookup_row th_id i (db_threads db)"

definition find_turn :: "string \<Rightarrow> conv_db \<Rightarrow> turn option" where
  "find_turn i db = lookup_row tn_id i (db_turns db)"

definition entries_of :: "string \<Rightarrow> conv_db \<Rightarrow> thread_entry list" where
  "entries_of i db = filter (\<lambda>e. en_thread e = i) (db_entries db)"

definition require_thread :: "string \<Rightarrow> thread conv" where
  "require_thread i = reads (\<lambda>db. case find_thread i db of None \<Rightarrow> Inl (ThreadNotFound i) | Some t \<Rightarrow> Inr t)"

definition require_turn :: "string \<Rightarrow> turn conv" where
  "require_turn i = reads (\<lambda>db. case find_turn i db of None \<Rightarrow> Inl (TurnNotFound i) | Some t \<Rightarrow> Inr t)"

section \<open>Threads\<close>

definition insert_thread :: "thread \<Rightarrow> thread conv" where
  "insert_thread t =
     sbind (gets db_threads) (\<lambda>rows.
     andthen (guard_else (lookup_row th_id (th_id t) rows = None) ConversationConflict)
    (andthen (modify (\<lambda>db. db\<lparr>db_threads := rows @ [t]\<rparr>)) (ret t)))"

text \<open>The statement sets every column but the identity and the creation time.\<close>

definition update_thread :: "thread \<Rightarrow> thread conv" where
  "update_thread t =
     andthen (require_thread (th_id t))
    (andthen (modify (\<lambda>db. db\<lparr>db_threads := map (\<lambda>r. if th_id r = th_id t then t\<lparr>th_created := th_created r\<rparr> else r) (db_threads db)\<rparr>))
     (ret t))"

text \<open>\<open>ORDER BY updated_at DESC, thread_id\<close>\<close>

definition thread_order :: "thread \<Rightarrow> int \<times> string" where
  "thread_order t = (- int (th_updated t), th_id t)"

definition list_threads :: "string \<Rightarrow> conv_db \<Rightarrow> thread list" where
  "list_threads workspace db = sort_key thread_order (filter (\<lambda>t. th_workspace t = workspace) (db_threads db))"

definition after_cursor :: "(time \<times> string) option \<Rightarrow> thread \<Rightarrow> bool" where
  "after_cursor cursor t \<longleftrightarrow>
     (case cursor of None \<Rightarrow> True
      | Some (updated, i) \<Rightarrow> th_updated t < updated \<or> (th_updated t = updated \<and> i < th_id t))"

definition list_threads_page :: "string \<Rightarrow> (time \<times> string) option \<Rightarrow> nat \<Rightarrow> conv_db \<Rightarrow> thread list \<times> bool" where
  "list_threads_page workspace cursor limit db =
     (let rows = take (limit + 1) (filter (after_cursor cursor) (list_threads workspace db))
      in (take limit rows, limit < length rows))"

text \<open>\<open>LIKE\<close>: \<open>%\<close> is any text, \<open>_\<close> any character; ASCII letters match in either case.\<close>

fun sql_like :: "string \<Rightarrow> string \<Rightarrow> bool" where
  "sql_like [] s = (s = [])"
| "sql_like (p # ps) s =
     (if p = CHR ''%'' then sql_like ps s \<or> (case s of [] \<Rightarrow> False | c # cs \<Rightarrow> sql_like (p # ps) cs)
      else (case s of [] \<Rightarrow> False | c # cs \<Rightarrow> (p = CHR ''_'' \<or> fold_char p = fold_char c) \<and> sql_like ps cs))"

definition match_threads :: "string \<Rightarrow> string \<Rightarrow> nat \<Rightarrow> conv_db \<Rightarrow> thread list" where
  "match_threads workspace prefix limit db =
     take limit (filter (\<lambda>t. sql_like (prefix @ ''%'') (th_id t)) (list_threads workspace db))"

definition matches_query :: "string \<Rightarrow> conv_db \<Rightarrow> thread \<Rightarrow> bool" where
  "matches_query query db t \<longleftrightarrow>
     contains_sub (casefold query) (casefold (th_title t)) \<or>
     list_ex (\<lambda>e. contains_sub (casefold query) (casefold (en_content e))) (entries_of (th_id t) db)"

text \<open>\<open>ORDER BY updated_at DESC, thread_id DESC\<close>\<close>

definition search_threads :: "string \<Rightarrow> string \<Rightarrow> conv_db \<Rightarrow> thread list" where
  "search_threads workspace query db =
     rev (sort_key (\<lambda>t. (th_updated t, th_id t))
       (filter (\<lambda>t. th_workspace t = workspace \<and> matches_query query db t) (db_threads db)))"

definition before_cursor :: "(time \<times> string) option \<Rightarrow> thread \<Rightarrow> bool" where
  "before_cursor cursor t \<longleftrightarrow>
     (case cursor of None \<Rightarrow> True
      | Some (updated, i) \<Rightarrow> th_updated t < updated \<or> (th_updated t = updated \<and> th_id t < i))"

definition search_threads_page :: "string \<Rightarrow> string \<Rightarrow> (time \<times> string) option \<Rightarrow> nat \<Rightarrow> conv_db \<Rightarrow> thread list \<times> bool" where
  "search_threads_page workspace query cursor limit db =
     (let rows = take (limit + 1) (filter (before_cursor cursor) (search_threads workspace query db))
      in (take limit rows, limit < length rows))"

definition thread_matches_search :: "string \<Rightarrow> string \<Rightarrow> string \<Rightarrow> conv_db \<Rightarrow> bool" where
  "thread_matches_search workspace query i db =
     list_ex (\<lambda>t. th_id t = i \<and> th_workspace t = workspace \<and> matches_query query db t) (db_threads db)"

section \<open>Entries and turns\<close>

definition entry_conflicts :: "thread_entry \<Rightarrow> conv_db \<Rightarrow> bool" where
  "entry_conflicts e db \<longleftrightarrow>
     list_ex (\<lambda>r. en_id r = en_id e) (db_entries db) \<or> find_thread (en_thread e) db = None \<or> en_sequence e < 1 \<or>
     (en_kind e = USER_MESSAGE) \<noteq> (en_client e \<noteq> None) \<or>
     list_ex (\<lambda>r. en_sequence r = en_sequence e \<or> (en_client e \<noteq> None \<and> en_client r = en_client e)) (entries_of (en_thread e) db)"

definition append_entry :: "thread_entry \<Rightarrow> thread_entry conv" where
  "append_entry e =
     andthen (reads (\<lambda>db. if entry_conflicts e db then Inl ConversationConflict else Inr ()))
    (andthen (modify (\<lambda>db. db\<lparr>db_entries := db_entries db @ [e]\<rparr>)) (ret e))"

definition list_entries :: "string \<Rightarrow> conv_db \<Rightarrow> thread_entry list" where
  "list_entries i db = sort_key en_sequence (entries_of i db)"

definition entries_page :: "string \<Rightarrow> nat option \<Rightarrow> nat \<Rightarrow> conv_db \<Rightarrow> thread_entry list \<times> bool" where
  "entries_page i before limit db =
     (let rows = take (limit + 1) (rev (filter (\<lambda>e. case before of None \<Rightarrow> True | Some n \<Rightarrow> en_sequence e < n) (list_entries i db)))
      in (rev (take limit rows), limit < length rows))"

definition has_entry :: "string \<Rightarrow> string \<Rightarrow> conv_db \<Rightarrow> bool" where
  "has_entry thread_id i db \<longleftrightarrow> list_ex (\<lambda>e. en_id e = i) (entries_of thread_id db)"

definition in_progress_turn :: "string \<Rightarrow> conv_db \<Rightarrow> turn option" where
  "in_progress_turn i db = find (\<lambda>t. tn_thread t = i \<and> tn_status t = TURN_IN_PROGRESS) (db_turns db)"

definition turn_references :: "turn \<Rightarrow> conv_db \<Rightarrow> bool" where
  "turn_references t db \<longleftrightarrow>
     has_entry (tn_thread t) (tn_user_entry t) db \<and>
     (case tn_assistant_entry t of None \<Rightarrow> True | Some a \<Rightarrow> has_entry (tn_thread t) a db)"

definition turn_conflicts :: "turn \<Rightarrow> conv_db \<Rightarrow> bool" where
  "turn_conflicts t db \<longleftrightarrow>
     find_turn (tn_id t) db \<noteq> None \<or> find_thread (tn_thread t) db = None \<or> tn_checkpoint t \<noteq> tn_id t \<or>
     list_ex (\<lambda>r. tn_checkpoint r = tn_checkpoint t) (db_turns db) \<or> \<not> turn_references t db \<or>
     (tn_status t = TURN_IN_PROGRESS \<and> in_progress_turn (tn_thread t) db \<noteq> None)"

definition insert_turn :: "turn \<Rightarrow> turn conv" where
  "insert_turn t =
     andthen (reads (\<lambda>db.
       if turn_conflicts t db
       then Inl (if in_progress_turn (tn_thread t) db \<noteq> None then TurnBusy (tn_thread t) else ConversationConflict)
       else Inr ()))
    (andthen (modify (\<lambda>db. db\<lparr>db_turns := db_turns db @ [t]\<rparr>)) (ret t))"

text \<open>The statement sets the columns that change; a reference or an index it breaks is an
  \<open>IntegrityError\<close> that is not caught.\<close>

definition updated_turn :: "turn \<Rightarrow> turn \<Rightarrow> turn" where
  "updated_turn t r =
     r\<lparr>tn_status := tn_status t, tn_assistant_entry := tn_assistant_entry t, tn_usage := tn_usage t,
       tn_termination := tn_termination t, tn_error := tn_error t, tn_manifest := tn_manifest t,
       tn_updated := tn_updated t, tn_completed := tn_completed t\<rparr>"

definition update_turn :: "turn \<Rightarrow> turn conv" where
  "update_turn t =
     sbind (require_turn (tn_id t)) (\<lambda>current.
     andthen (reads (\<lambda>db.
       if turn_references (updated_turn t current) db \<and>
          (tn_status t = TURN_IN_PROGRESS \<longrightarrow>
             list_all (\<lambda>r. tn_thread r = tn_thread current \<and> tn_status r = TURN_IN_PROGRESS \<longrightarrow> tn_id r = tn_id t) (db_turns db))
       then Inr () else Inl DatabaseIntegrityError))
    (andthen (modify (\<lambda>db. db\<lparr>db_turns := map (\<lambda>r. if tn_id r = tn_id t then updated_turn t r else r) (db_turns db)\<rparr>))
     (ret t)))"

text \<open>The join of a turn with its user entry, \<open>ORDER BY user_entries.sequence, turn_id\<close>.\<close>

definition keyed_turns :: "string \<Rightarrow> conv_db \<Rightarrow> ((nat \<times> string) \<times> turn) list" where
  "keyed_turns i db =
     concat (map (\<lambda>t. map (\<lambda>e. ((en_sequence e, tn_id t), t)) (filter (\<lambda>e. en_id e = tn_user_entry t) (entries_of i db)))
       (filter (\<lambda>t. tn_thread t = i) (db_turns db)))"

definition list_turns :: "string \<Rightarrow> conv_db \<Rightarrow> turn list" where
  "list_turns i db = map snd (sort_key fst (keyed_turns i db))"

definition turns_for_entries :: "string \<Rightarrow> string list \<Rightarrow> conv_db \<Rightarrow> turn list" where
  "turns_for_entries i entry_ids db =
     filter (\<lambda>t. tn_user_entry t \<in> set entry_ids \<or> (case tn_assistant_entry t of None \<Rightarrow> False | Some a \<Rightarrow> a \<in> set entry_ids))
       (list_turns i db)"

section \<open>Summaries and activities\<close>

definition find_summary :: "string \<Rightarrow> conv_db \<Rightarrow> thread_summary option" where
  "find_summary i db = lookup_row su_thread i (db_summaries db)"

definition compare_and_swap_summary :: "thread_summary \<Rightarrow> thread_summary option \<Rightarrow> thread_summary conv" where
  "compare_and_swap_summary summary expected =
     transaction
    (andthen (reads (\<lambda>db. if find_summary (su_thread summary) db \<noteq> expected then Inl ConversationConflict else Inr ()))
    (andthen (reads (\<lambda>db. if find_thread (su_thread summary) db = None then Inl ConversationConflict else Inr ()))
    (andthen (modify (\<lambda>db. db\<lparr>db_summaries := upsert su_thread summary (db_summaries db)\<rparr>)) (ret summary))))"

definition activity_order :: "activity_row \<Rightarrow> time \<times> nat \<times> string" where
  "activity_order a = (av_created a, av_sequence a, av_id a)"

definition list_activities :: "string \<Rightarrow> conv_db \<Rightarrow> activity_row list" where
  "list_activities i db = sort_key activity_order (filter (\<lambda>a. av_thread a = i) (db_activities db))"

definition associated_activities :: "string \<Rightarrow> string list \<Rightarrow> string list \<Rightarrow> conv_db \<Rightarrow> activity_row list" where
  "associated_activities i turn_ids operation_ids db =
     filter (\<lambda>a. (case av_turn a of None \<Rightarrow> False | Some t \<Rightarrow> t \<in> set turn_ids) \<or> av_operation a \<in> set operation_ids)
       (list_activities i db)"

text \<open>Change sets live in another table of the same file; \<open>set_exists\<close> is that table.\<close>

definition activity_conflicts :: "(string \<Rightarrow> bool) \<Rightarrow> activity_row \<Rightarrow> conv_db \<Rightarrow> bool" where
  "activity_conflicts set_exists a db \<longleftrightarrow>
     list_ex (\<lambda>r. av_id r = av_id a) (db_activities db) \<or> find_thread (av_thread a) db = None \<or>
     (av_origin a = AGENT) \<noteq> (av_turn a \<noteq> None) \<or>
     (case av_turn a of None \<Rightarrow> False | Some t \<Rightarrow> \<not> list_ex (\<lambda>r. tn_id r = t \<and> tn_thread r = av_thread a) (db_turns db)) \<or>
     (case av_change_set a of None \<Rightarrow> False | Some c \<Rightarrow> \<not> set_exists c)"

definition next_activity_sequence :: "string \<Rightarrow> conv_db \<Rightarrow> nat" where
  "next_activity_sequence i db = fold max (map av_sequence (filter (\<lambda>a. av_thread a = i) (db_activities db))) 0 + 1"

definition activity_of_draft :: "string \<Rightarrow> time \<Rightarrow> tool_activity \<Rightarrow> nat \<Rightarrow> activity_row" where
  "activity_of_draft fresh now draft n =
     \<lparr>av_id = fresh, av_thread = ta_thread_id draft, av_turn = ta_turn_id draft, av_operation = ta_operation_id draft,
      av_call = ta_call_id draft, av_sequence = n, av_origin = ta_origin draft, av_tool = ta_tool_name draft,
      av_outcome = ta_outcome draft, av_input = ta_input_summary draft, av_result = ta_result_summary draft,
      av_error = ta_error_code draft, av_duration = ta_duration_ms draft, av_change_set = ta_change_set_id draft,
      av_created = now\<rparr>"

definition finalize_activity :: "(string \<Rightarrow> bool) \<Rightarrow> string \<Rightarrow> time \<Rightarrow> tool_activity \<Rightarrow> unit conv" where
  "finalize_activity set_exists fresh now draft =
     transaction
    (sbind (gets (\<lambda>db. list_ex (\<lambda>a. av_operation a = ta_operation_id draft \<and> av_call a = ta_call_id draft) (db_activities db))) (\<lambda>existing.
       if existing then ret ()
       else sbind (gets (\<lambda>db. activity_of_draft fresh now draft (next_activity_sequence (ta_thread_id draft) db))) (\<lambda>a.
         andthen (reads (\<lambda>db. if activity_conflicts set_exists a db then Inl ConversationConflict else Inr ()))
           (modify (\<lambda>db. db\<lparr>db_activities := db_activities db @ [a]\<rparr>)))))"

section \<open>Reading a thread\<close>

definition read_thread :: "string \<Rightarrow> conv_db \<Rightarrow> conversation_error + thread_view" where
  "read_thread i db =
     (case find_thread i db of
        None \<Rightarrow> Inl (ThreadNotFound i)
      | Some t \<Rightarrow>
          Inr \<lparr>vw_thread = t, vw_entries = list_entries i db, vw_turns = list_turns i db, vw_summary = find_summary i db,
               vw_activities = list_activities i db\<rparr>)"

record thread_page =
  pg_view :: thread_view
  pg_more :: bool
  pg_before :: "nat option"

definition operation_id_of :: "thread_entry \<Rightarrow> string list" where
  "operation_id_of e =
     (if en_kind e = DIRECT_COMMAND_ENTRY
      then (case map_of (en_metadata e) ''operation_id'' of Some (JString s) \<Rightarrow> [s] | _ \<Rightarrow> []) else [])"

definition read_thread_page :: "string \<Rightarrow> nat option \<Rightarrow> nat \<Rightarrow> conv_db \<Rightarrow> conversation_error + thread_page" where
  "read_thread_page i before limit db =
     (case find_thread i db of
        None \<Rightarrow> Inl (ThreadNotFound i)
      | Some t \<Rightarrow>
          (case entries_page i before limit db of
             (entries, has_more) \<Rightarrow>
               let turns = turns_for_entries i (map en_id entries) db in
               Inr \<lparr>pg_view =
                      \<lparr>vw_thread = t, vw_entries = entries, vw_turns = turns, vw_summary = find_summary i db,
                       vw_activities = associated_activities i (map tn_id turns) (concat (map operation_id_of entries)) db\<rparr>,
                    pg_more = has_more,
                    pg_before = (if has_more \<and> entries \<noteq> [] then Some (en_sequence (hd entries)) else None)\<rparr>))"

section \<open>Writing a thread\<close>

definition patch_thread :: "string \<Rightarrow> (thread \<Rightarrow> thread) \<Rightarrow> thread conv" where
  "patch_thread i f =
     transaction
    (sbind (require_thread i) (\<lambda>current.
     sbind (lift_result (monotonic_thread_update current (f current))) (\<lambda>updated.
     andthen (update_thread updated) (ret updated))))"

definition set_thread_model :: "string \<Rightarrow> string option \<Rightarrow> time \<Rightarrow> thread conv" where
  "set_thread_model i model now = patch_thread i (\<lambda>t. t\<lparr>th_model := model, th_updated := now\<rparr>)"

definition rename_thread_row :: "string \<Rightarrow> string \<Rightarrow> time \<Rightarrow> thread conv" where
  "rename_thread_row i title now = patch_thread i (\<lambda>t. t\<lparr>th_title := title, th_title_source := MANUAL, th_updated := now\<rparr>)"

definition set_thread_thinking :: "string \<Rightarrow> bool \<Rightarrow> time \<Rightarrow> thread conv" where
  "set_thread_thinking i enabled now = patch_thread i (\<lambda>t. t\<lparr>th_thinking := enabled, th_updated := now\<rparr>)"

definition set_thread_skill_mode :: "string \<Rightarrow> string \<Rightarrow> time \<Rightarrow> thread conv" where
  "set_thread_skill_mode i mode now = patch_thread i (\<lambda>t. t\<lparr>th_skill_mode := mode, th_updated := now\<rparr>)"

definition touch_thread :: "string \<Rightarrow> time \<Rightarrow> unit conv" where
  "touch_thread i now =
     sbind (require_thread i) (\<lambda>t.
     sbind (lift_result (monotonic_thread_update t (t\<lparr>th_updated := now\<rparr>))) (\<lambda>t'.
     andthen (update_thread t') (ret ())))"

definition expected_sequence :: "string \<Rightarrow> conv_db \<Rightarrow> nat" where
  "expected_sequence i db = fold max (map en_sequence (entries_of i db)) 0 + 1"

definition require_next_sequence :: "thread_entry \<Rightarrow> nat conv" where
  "require_next_sequence e =
     sbind (gets (expected_sequence (en_thread e))) (\<lambda>n.
     andthen (guard_else (en_sequence e = n) ConversationConflict) (ret n))"

definition begin_turn_row :: "thread_entry \<Rightarrow> turn \<Rightarrow> string option \<Rightarrow> time \<Rightarrow> turn conv" where
  "begin_turn_row e t title now =
     transaction
    (sbind (require_thread (tn_thread t)) (\<lambda>thread.
     andthen (reads (\<lambda>db. if in_progress_turn (tn_thread t) db \<noteq> None then Inl (TurnBusy (tn_thread t)) else Inr ()))
    (sbind (require_next_sequence e) (\<lambda>n.
     andthen (append_entry e)
    (andthen (insert_turn t)
    (sbind (lift_result (monotonic_thread_update thread
        (case title of
           Some new \<Rightarrow>
             if th_title_source thread = AUTOMATIC \<and> n = 1 then thread\<lparr>th_title := new, th_updated := now\<rparr>
             else thread\<lparr>th_updated := now\<rparr>
         | None \<Rightarrow> thread\<lparr>th_updated := now\<rparr>))) (\<lambda>thread'.
     andthen (update_thread thread') (ret t))))))))"

definition manifest_unchanged :: "turn \<Rightarrow> turn \<Rightarrow> bool" where
  "manifest_unchanged current t \<longleftrightarrow> tn_manifest current = [] \<or> tn_manifest current = tn_manifest t"

definition complete_turn_row :: "thread_entry \<Rightarrow> turn \<Rightarrow> turn conv" where
  "complete_turn_row e t =
     transaction
    (sbind (require_turn (tn_id t)) (\<lambda>current.
     andthen (guard_else (turn_transition (tn_status current) TURN_COMPLETED) InvalidTurnTransition)
    (andthen (guard_else (manifest_unchanged current t) ConversationConflict)
    (andthen (guard_else (tn_thread current = en_thread e) ConversationConflict)
    (andthen (require_next_sequence e)
    (andthen (append_entry e)
    (andthen (update_turn t)
    (andthen (touch_thread (tn_thread t) (tn_updated t)) (ret t)))))))))"

definition update_in_progress_turn :: "turn \<Rightarrow> json_dict list \<Rightarrow> turn conv" where
  "update_in_progress_turn t expected =
     transaction
    (sbind (require_turn (tn_id t)) (\<lambda>current.
     andthen (guard_else
       (tn_status current = TURN_IN_PROGRESS \<and> tn_status t = TURN_IN_PROGRESS \<and> tn_manifest current = expected \<and>
        t = current\<lparr>tn_manifest := tn_manifest t, tn_updated := tn_updated t\<rparr>) ConversationConflict)
    (andthen (update_turn t) (ret t))))"

definition update_terminal_turn :: "turn \<Rightarrow> turn conv" where
  "update_terminal_turn t =
     transaction
    (sbind (require_turn (tn_id t)) (\<lambda>current.
     andthen (guard_else (turn_transition (tn_status current) (tn_status t)) InvalidTurnTransition)
    (andthen (guard_else (manifest_unchanged current t) ConversationConflict)
    (andthen (update_turn t)
    (andthen (touch_thread (tn_thread t) (tn_updated t)) (ret t))))))"

definition append_direct_command_row :: "thread_entry \<Rightarrow> thread_entry conv" where
  "append_direct_command_row e =
     transaction
    (sbind (require_thread (en_thread e)) (\<lambda>thread.
     andthen (require_next_sequence e)
    (andthen (append_entry e)
    (sbind (lift_result (monotonic_thread_update thread (thread\<lparr>th_updated := en_created e\<rparr>))) (\<lambda>thread'.
     andthen (update_thread thread') (ret e))))))"

end
