(* ===== verification/ConversationService.thy ===== *)
theory ConversationService
  imports ConversationStore
begin

text \<open>
  \<open>ConversationService\<close> of \<open>conversation/service.py\<close> and the titles of
  \<open>conversation/titles.py\<close>.  An operation reads a view in one transaction and writes in
  another, so a write is a function of a view that may be old: \<open>begin_turn_from\<close> and its
  siblings.  The identifiers of the factory and the time of the clock are arguments.  The
  ellipsis of a cut title lies beyond the characters of the model and is a parameter; every
  character of the model is a grapheme of its own.
\<close>

section \<open>Titles\<close>

definition normalize_title :: "string \<Rightarrow> string" where
  "normalize_title s = normalized s"

definition visible_graphemes :: "string \<Rightarrow> string list" where
  "visible_graphemes s = map (\<lambda>c. [c]) s"

definition automatic_title :: "string \<Rightarrow> string \<Rightarrow> string" where
  "automatic_title ellipsis s =
     (let title = normalize_title s; clusters = visible_graphemes title in
      if length clusters \<le> 48 then title else concat (take 47 clusters) @ ellipsis)"

section \<open>Threads\<close>

definition create_thread :: "string \<Rightarrow> time \<Rightarrow> string \<Rightarrow> string option \<Rightarrow> string option \<Rightarrow> thread conv" where
  "create_thread fresh now workspace title model =
     (let chosen = (case title of None \<Rightarrow> ''New conversation'' | Some t \<Rightarrow> strip t);
          t = \<lparr>th_id = fresh, th_workspace = workspace, th_title = chosen,
               th_title_source = (if title = None then AUTOMATIC else MANUAL), th_model = model, th_thinking = True,
               th_skill_mode = ''auto'', th_lineage = None, th_created = now, th_updated = now\<rparr>
      in andthen (guard_else (chosen \<noteq> [] \<and> valid_thread t) ConversationValueError) (transaction (insert_thread t)))"

text \<open>\<open>(?:auto|off|[a-z][a-z0-9-]{0,63})\<close>\<close>

definition valid_skill_choice :: "string \<Rightarrow> bool" where
  "valid_skill_choice s \<longleftrightarrow>
     (case s of [] \<Rightarrow> False
      | c # cs \<Rightarrow> is_lower c \<and> length cs \<le> 63 \<and> list_all (\<lambda>x. is_lower x \<or> is_digit x \<or> x = CHR ''-'') cs)"

definition set_skill_mode :: "time \<Rightarrow> string \<Rightarrow> string \<Rightarrow> thread conv" where
  "set_skill_mode now i mode =
     andthen (guard_else (valid_skill_choice mode) ConversationValueError) (set_thread_skill_mode i mode now)"

definition rename_thread :: "time \<Rightarrow> string \<Rightarrow> string \<Rightarrow> thread conv" where
  "rename_thread now i title =
     (let new = normalize_title title in
      andthen (guard_else (new \<noteq> [] \<and> length (visible_graphemes new) \<le> 100) ConversationValueError) (rename_thread_row i new now))"

definition set_model :: "time \<Rightarrow> string \<Rightarrow> string option \<Rightarrow> thread conv" where
  "set_model now i model = set_thread_model i model now"

definition set_thinking :: "time \<Rightarrow> string \<Rightarrow> bool \<Rightarrow> thread conv" where
  "set_thinking now i enabled = set_thread_thinking i enabled now"

definition search_thread_page :: "string \<Rightarrow> string \<Rightarrow> (time \<times> string) option \<Rightarrow> nat \<Rightarrow> conv_db \<Rightarrow> conversation_error + thread list \<times> bool" where
  "search_thread_page workspace query cursor limit db =
     (let q = strip query in
      if bounded 1 200 q \<and> 1 \<le> limit \<and> limit \<le> 50 then Inr (search_threads_page workspace q cursor limit db)
      else Inl ConversationValueError)"

section \<open>Turns\<close>

record turn_config =
  tf_provider :: string
  tf_model :: string
  tf_thinking :: bool
  tf_skill_mode :: string
  tf_budgets :: budget_config

definition next_sequence :: "thread_view \<Rightarrow> nat" where
  "next_sequence view = (if vw_entries view = [] then 1 else en_sequence (last (vw_entries view)) + 1)"

definition new_turn :: "string \<Rightarrow> string \<Rightarrow> time \<Rightarrow> turn_config \<Rightarrow> string \<Rightarrow> turn" where
  "new_turn turn_id thread_id now config user_entry =
     \<lparr>tn_id = turn_id, tn_thread = thread_id, tn_checkpoint = turn_id, tn_status = TURN_IN_PROGRESS,
      tn_provider = tf_provider config, tn_model = tf_model config, tn_thinking = tf_thinking config,
      tn_skill_mode = tf_skill_mode config, tn_budgets = tf_budgets config, tn_user_entry = user_entry,
      tn_assistant_entry = None, tn_usage = empty_usage, tn_termination = None, tn_error = None, tn_manifest = [],
      tn_created = now, tn_updated = now, tn_completed = None\<rparr>"

definition begin_turn_from ::
  "string \<Rightarrow> string \<Rightarrow> string \<Rightarrow> time \<Rightarrow> string \<Rightarrow> string \<Rightarrow> turn_config \<Rightarrow> string \<Rightarrow> thread_view \<Rightarrow> turn conv"
where
  "begin_turn_from ellipsis entry_id turn_id now thread_id content config client view =
     (let e = \<lparr>en_id = entry_id, en_thread = thread_id, en_sequence = next_sequence view, en_kind = USER_MESSAGE,
               en_content = content, en_client = Some client, en_metadata = [], en_created = now\<rparr>;
          t = new_turn turn_id thread_id now config entry_id;
          title = (if th_title_source (vw_thread view) = AUTOMATIC \<and> vw_entries view = []
                   then Some (automatic_title ellipsis content) else None)
      in andthen (guard_else (valid_entry e \<and> valid_turn t) ConversationValueError) (begin_turn_row e t title now))"

definition begin_turn ::
  "string \<Rightarrow> string \<Rightarrow> string \<Rightarrow> time \<Rightarrow> string \<Rightarrow> string \<Rightarrow> turn_config \<Rightarrow> string \<Rightarrow> turn conv"
where
  "begin_turn ellipsis entry_id turn_id now thread_id content config client =
     andthen (guard_else (strip content \<noteq> []) ConversationValueError)
    (sbind (reads (read_thread thread_id)) (begin_turn_from ellipsis entry_id turn_id now thread_id content config client))"

definition turn_view :: "string \<Rightarrow> conv_db \<Rightarrow> conversation_error + (thread_view \<times> turn)" where
  "turn_view i db =
     (case find_turn i db of
        None \<Rightarrow> Inl (TurnNotFound i)
      | Some t \<Rightarrow>
          (case read_thread (tn_thread t) db of
             Inl e \<Rightarrow> Inl e
           | Inr view \<Rightarrow> (case find (\<lambda>t. tn_id t = i) (vw_turns view) of None \<Rightarrow> Inl (TurnNotFound i) | Some t \<Rightarrow> Inr (view, t))))"

definition recorded_manifest :: "json_dict list \<Rightarrow> turn \<Rightarrow> json_dict list" where
  "recorded_manifest manifest current = (if manifest = [] then tn_manifest current else manifest)"

text \<open>The entry of a completed turn that already has this content.\<close>

definition completed_entry :: "string \<Rightarrow> thread_view \<Rightarrow> turn \<Rightarrow> thread_entry option" where
  "completed_entry content view current =
     (case tn_assistant_entry current of
        None \<Rightarrow> None
      | Some i \<Rightarrow>
          (case find (\<lambda>e. en_id e = i) (vw_entries view) of
             None \<Rightarrow> None | Some e \<Rightarrow> if en_content e = content then Some e else None))"

definition assistant_entry :: "string \<Rightarrow> time \<Rightarrow> string \<Rightarrow> json_dict \<Rightarrow> thread_view \<Rightarrow> turn \<Rightarrow> thread_entry" where
  "assistant_entry entry_id now content metadata view current =
     \<lparr>en_id = entry_id, en_thread = tn_thread current, en_sequence = next_sequence view, en_kind = ASSISTANT_MESSAGE,
      en_content = content, en_client = None, en_metadata = metadata, en_created = now\<rparr>"

definition finished_turn :: "string \<Rightarrow> time \<Rightarrow> usage_summary \<Rightarrow> string \<Rightarrow> json_dict list \<Rightarrow> turn \<Rightarrow> turn" where
  "finished_turn entry_id now usage termination manifest current =
     current\<lparr>tn_status := TURN_COMPLETED, tn_assistant_entry := Some entry_id, tn_usage := usage,
             tn_termination := Some termination, tn_manifest := recorded_manifest manifest current,
             tn_updated := now, tn_completed := Some now\<rparr>"

definition complete_turn_from ::
  "string \<Rightarrow> time \<Rightarrow> string \<Rightarrow> usage_summary \<Rightarrow> string \<Rightarrow> json_dict list \<Rightarrow> citation list \<Rightarrow> thread_view \<times> turn \<Rightarrow> turn conv"
where
  "complete_turn_from entry_id now content usage termination manifest citations vc =
     (case vc of (view, current) \<Rightarrow>
        if tn_status current = TURN_COMPLETED
        then (case completed_entry content view current of
                None \<Rightarrow> raise ConversationConflict
              | Some e \<Rightarrow>
                  (case assistant_metadata citations of
                     None \<Rightarrow> raise ConversationValueError
                   | Some metadata \<Rightarrow>
                       if en_metadata e = metadata \<and> tn_usage current = usage \<and> tn_termination current = Some termination \<and>
                          tn_manifest current = recorded_manifest manifest current
                       then ret current else raise ConversationConflict))
        else
          andthen (guard_else (turn_transition (tn_status current) TURN_COMPLETED) InvalidTurnTransition)
         (case assistant_metadata citations of
            None \<Rightarrow> raise ConversationValueError
          | Some metadata \<Rightarrow>
              let e = assistant_entry entry_id now content metadata view current;
                  t = finished_turn entry_id now usage termination manifest current
              in andthen (guard_else (valid_entry e \<and> valid_turn t) ConversationValueError) (complete_turn_row e t)))"

definition complete_turn ::
  "string \<Rightarrow> time \<Rightarrow> string \<Rightarrow> string \<Rightarrow> usage_summary \<Rightarrow> string \<Rightarrow> json_dict list \<Rightarrow> citation list \<Rightarrow> turn conv"
where
  "complete_turn entry_id now i content usage termination manifest citations =
     sbind (reads (turn_view i)) (complete_turn_from entry_id now content usage termination manifest citations)"

definition store_manifest_from :: "time \<Rightarrow> json_dict list \<Rightarrow> thread_view \<times> turn \<Rightarrow> turn conv" where
  "store_manifest_from now manifest vc =
     (case vc of (_, current) \<Rightarrow>
        andthen (guard_else (tn_status current = TURN_IN_PROGRESS) ConversationConflict)
       (if tn_manifest current = manifest then ret current
        else update_in_progress_turn (current\<lparr>tn_manifest := manifest, tn_updated := now\<rparr>) (tn_manifest current)))"

definition store_context_manifest :: "time \<Rightarrow> string \<Rightarrow> json_dict list \<Rightarrow> turn conv" where
  "store_context_manifest now i manifest = sbind (reads (turn_view i)) (store_manifest_from now manifest)"

definition swap_manifest_from :: "time \<Rightarrow> json_dict list \<Rightarrow> json_dict list \<Rightarrow> thread_view \<times> turn \<Rightarrow> turn conv" where
  "swap_manifest_from now manifest expected vc =
     (case vc of (_, current) \<Rightarrow>
        andthen (guard_else (tn_status current = TURN_IN_PROGRESS \<and> tn_manifest current = expected) ConversationConflict)
       (if tn_manifest current = manifest then ret current
        else
          let t = current\<lparr>tn_manifest := manifest, tn_updated := now\<rparr> in
          andthen (guard_else (valid_turn t) ConversationValueError) (update_in_progress_turn t expected)))"

definition compare_and_swap_context_manifest :: "time \<Rightarrow> string \<Rightarrow> json_dict list \<Rightarrow> json_dict list \<Rightarrow> turn conv" where
  "compare_and_swap_context_manifest now i manifest expected =
     sbind (reads (turn_view i)) (swap_manifest_from now manifest expected)"

text \<open>\<open>fail_turn\<close> and \<open>cancel_turn\<close>: the same result twice is accepted, another one is a conflict.\<close>

definition fail_turn_from :: "time \<Rightarrow> string \<Rightarrow> usage_summary option \<Rightarrow> json_dict list \<Rightarrow> thread_view \<times> turn \<Rightarrow> turn conv" where
  "fail_turn_from now error usage manifest vc =
     (case vc of (_, current) \<Rightarrow>
        let observed = (case usage of None \<Rightarrow> empty_usage | Some u \<Rightarrow> u); recorded = recorded_manifest manifest current in
        if tn_status current = TURN_FAILED
        then (if tn_error current = Some error \<and> tn_usage current = observed \<and> tn_manifest current = recorded
              then ret current else raise ConversationConflict)
        else
          let t = current\<lparr>tn_status := TURN_FAILED, tn_error := Some error, tn_usage := observed, tn_manifest := recorded,
                          tn_updated := now, tn_completed := Some now\<rparr> in
          andthen (guard_else (turn_transition (tn_status current) TURN_FAILED) InvalidTurnTransition)
         (andthen (guard_else (valid_turn t) ConversationValueError) (update_terminal_turn t)))"

definition fail_turn :: "time \<Rightarrow> string \<Rightarrow> string \<Rightarrow> usage_summary option \<Rightarrow> json_dict list \<Rightarrow> turn conv" where
  "fail_turn now i error usage manifest =
     andthen (guard_else (strip error \<noteq> []) ConversationValueError)
    (sbind (reads (turn_view i)) (fail_turn_from now error usage manifest))"

definition cancel_turn_from :: "time \<Rightarrow> usage_summary option \<Rightarrow> json_dict list \<Rightarrow> thread_view \<times> turn \<Rightarrow> turn conv" where
  "cancel_turn_from now usage manifest vc =
     (case vc of (_, current) \<Rightarrow>
        let observed = (case usage of None \<Rightarrow> empty_usage | Some u \<Rightarrow> u); recorded = recorded_manifest manifest current in
        if tn_status current = TURN_CANCELLED
        then (if tn_usage current = observed \<and> tn_manifest current = recorded then ret current else raise ConversationConflict)
        else
          let t = current\<lparr>tn_status := TURN_CANCELLED, tn_termination := Some ''cancelled'', tn_usage := observed,
                          tn_manifest := recorded, tn_updated := now, tn_completed := Some now\<rparr> in
          andthen (guard_else (turn_transition (tn_status current) TURN_CANCELLED) InvalidTurnTransition)
         (andthen (guard_else (valid_turn t) ConversationValueError) (update_terminal_turn t)))"

definition cancel_turn :: "time \<Rightarrow> string \<Rightarrow> usage_summary option \<Rightarrow> json_dict list \<Rightarrow> turn conv" where
  "cancel_turn now i usage manifest = sbind (reads (turn_view i)) (cancel_turn_from now usage manifest)"

section \<open>Usage, manifests, direct commands and summaries\<close>

fun sum_usage :: "usage_summary \<Rightarrow> turn list \<Rightarrow> conversation_error + usage_summary" where
  "sum_usage total_usage [] = Inr total_usage"
| "sum_usage total_usage (t # ts) =
     (let u = add_usage total_usage (tn_usage t) in
      if valid_usage u then sum_usage u ts else Inl ConversationValueError)"

definition thread_usage :: "string \<Rightarrow> conv_db \<Rightarrow> conversation_error + usage_summary" where
  "thread_usage i db = (case read_thread i db of Inl e \<Rightarrow> Inl e | Inr view \<Rightarrow> sum_usage empty_usage (vw_turns view))"

definition latest_context_manifest :: "string \<Rightarrow> conv_db \<Rightarrow> conversation_error + json_dict list" where
  "latest_context_manifest i db =
     (case read_thread i db of
        Inl e \<Rightarrow> Inl e
      | Inr view \<Rightarrow>
          Inr (case find (\<lambda>t. tn_manifest t \<noteq> []) (rev (vw_turns view)) of None \<Rightarrow> [] | Some t \<Rightarrow> tn_manifest t))"

definition append_direct_command_from :: "string \<Rightarrow> time \<Rightarrow> string \<Rightarrow> string \<Rightarrow> json_dict \<Rightarrow> thread_view \<Rightarrow> thread_entry conv" where
  "append_direct_command_from entry_id now thread_id content metadata view =
     (let e = \<lparr>en_id = entry_id, en_thread = thread_id, en_sequence = next_sequence view, en_kind = DIRECT_COMMAND_ENTRY,
               en_content = content, en_client = None, en_metadata = metadata, en_created = now\<rparr>
      in andthen (guard_else (valid_entry e) ConversationValueError) (append_direct_command_row e))"

definition append_direct_command :: "string \<Rightarrow> time \<Rightarrow> string \<Rightarrow> string \<Rightarrow> json_dict \<Rightarrow> thread_entry conv" where
  "append_direct_command entry_id now thread_id content metadata =
     sbind (reads (read_thread thread_id)) (append_direct_command_from entry_id now thread_id content metadata)"

definition store_summary :: "thread_summary \<Rightarrow> thread_summary option \<Rightarrow> thread_summary conv" where
  "store_summary summary expected = compare_and_swap_summary summary expected"

end
