(* ===== verification/ConversationFork.thy ===== *)
theory ConversationFork
  imports ConversationService
begin

text \<open>
  \<open>conversation/materialization.py\<close> with the operations of the service and of the
  store that use it: a new thread that copies the transcript of another one up to a terminal
  turn, for a fork, or up to its user message, for a retry.  An identifier is drawn from
  the factory by its kind and the number of identifiers drawn before it.  The JSON text of a view
  and its SHA-256 digest are one function \<open>digest\<close> of the sorted view.
\<close>

section \<open>Plans\<close>

record materialization_plan =
  mp_kind :: lineage_kind
  mp_workspace :: string
  mp_thread :: string
  mp_turn :: string
  mp_fingerprint :: string
  mp_view :: thread_view

record retry_preparation =
  rp_view :: thread_view
  rp_turn :: turn
  rp_content :: string
  rp_client :: string

text \<open>A dictionary over the entries: the last entry of an identifier counts.\<close>

definition entry_by_id :: "thread_entry list \<Rightarrow> string \<Rightarrow> thread_entry option" where
  "entry_by_id es i = find (\<lambda>e. en_id e = i) (rev es)"

text \<open>The checks of one turn of a destination.\<close>

definition planned_turn :: "thread \<Rightarrow> thread_entry list \<Rightarrow> turn \<Rightarrow> bool" where
  "planned_turn thread es t \<longleftrightarrow>
     tn_thread t = th_id thread \<and> tn_checkpoint t = tn_id t \<and>
     (tn_status t \<noteq> TURN_IN_PROGRESS \<longrightarrow> tn_manifest t = []) \<and>
     (case entry_by_id es (tn_user_entry t) of
        None \<Rightarrow> False
      | Some user \<Rightarrow>
          en_kind user = USER_MESSAGE \<and>
          (case tn_assistant_entry t of
             None \<Rightarrow> True
           | Some a \<Rightarrow>
               (case entry_by_id es a of
                  None \<Rightarrow> False
                | Some e \<Rightarrow> en_kind e = ASSISTANT_MESSAGE \<and> en_sequence user < en_sequence e)))"

definition planned_sequences :: "thread_entry list \<Rightarrow> turn list \<Rightarrow> nat list" where
  "planned_sequences es ts =
     map (\<lambda>t. case entry_by_id es (tn_user_entry t) of None \<Rightarrow> 0 | Some user \<Rightarrow> en_sequence user) ts"

definition blank_turn :: "turn \<Rightarrow> bool" where
  "blank_turn t \<longleftrightarrow>
     tn_manifest t = [] \<and> tn_usage t = empty_usage \<and> tn_assistant_entry t = None \<and> tn_termination t = None \<and>
     tn_error t = None \<and> tn_completed t = None"

text \<open>\<open>validate_destination\<close>, over a view whose entries and turns are valid\<close>

definition valid_plan :: "materialization_plan \<Rightarrow> bool" where
  "valid_plan p \<longleftrightarrow>
     (let view = mp_view p; thread = vw_thread view; es = vw_entries view; ts = vw_turns view;
          running = filter (\<lambda>t. tn_status t = TURN_IN_PROGRESS) ts
      in bounded 1 128 (mp_workspace p) \<and> bounded 1 128 (mp_thread p) \<and> bounded 1 128 (mp_turn p) \<and>
         length (mp_fingerprint p) = 64 \<and>
         valid_thread thread \<and> list_all valid_entry es \<and> list_all valid_turn ts \<and>
         th_workspace thread = mp_workspace p \<and> th_id thread \<noteq> mp_thread p \<and>
         th_lineage thread = Some \<lparr>li_kind = mp_kind p, li_thread = mp_thread p, li_turn = mp_turn p\<rparr> \<and>
         vw_summary view = None \<and> vw_activities view = [] \<and>
         map en_sequence es = [1..<length es + 1] \<and> list_all (\<lambda>e. en_thread e = th_id thread) es \<and>
         distinct (map en_id es) \<and> distinct (map tn_id ts) \<and>
         list_all (planned_turn thread es) ts \<and> sorted (planned_sequences es ts) \<and>
         (case mp_kind p of FORK \<Rightarrow> running = [] | RETRY \<Rightarrow> ts \<noteq> [] \<and> running = [last ts]) \<and>
         list_all blank_turn running)"

text \<open>\<open>validate_preparation\<close>\<close>

definition valid_preparation :: "retry_preparation \<Rightarrow> bool" where
  "valid_preparation r \<longleftrightarrow>
     (let view = rp_view r; t = rp_turn r in
      bounded 1 200000 (rp_content r) \<and> valid_client_id (rp_client r) \<and>
      (case th_lineage (vw_thread view) of None \<Rightarrow> False | Some l \<Rightarrow> li_kind l = RETRY) \<and>
      tn_status t = TURN_IN_PROGRESS \<and> tn_thread t = th_id (vw_thread view) \<and> vw_turns view \<noteq> [] \<and>
      last (vw_turns view) = t \<and> vw_entries view \<noteq> [] \<and>
      (let user = last (vw_entries view) in
       en_kind user = USER_MESSAGE \<and> en_id user = tn_user_entry t \<and> en_content user = rp_content r \<and>
       en_client user = Some (rp_client r)))"

section \<open>The source\<close>

type_synonym digest = "thread_entry list \<times> thread \<times> turn list \<Rightarrow> string"

definition materialization_source_fingerprint :: "digest \<Rightarrow> thread_view \<Rightarrow> string" where
  "materialization_source_fingerprint digest view =
     digest (sort_key (\<lambda>e. (en_sequence e, en_id e)) (vw_entries view), vw_thread view,
             sort_key (\<lambda>t. (tn_created t, tn_id t)) (vw_turns view))"

definition turn_user_sequence :: "thread_entry list \<Rightarrow> turn \<Rightarrow> conversation_error + nat" where
  "turn_user_sequence es t =
     (case entry_by_id es (tn_user_entry t) of
        None \<Rightarrow> Inl ConversationConflict
      | Some user \<Rightarrow> if en_kind user = USER_MESSAGE then Inr (en_sequence user) else Inl ConversationConflict)"

definition turn_boundary_sequence :: "thread_entry list \<Rightarrow> turn \<Rightarrow> conversation_error + nat" where
  "turn_boundary_sequence es t =
     (case turn_user_sequence es t of
        Inl e \<Rightarrow> Inl e
      | Inr n \<Rightarrow>
          if tn_status t \<noteq> TURN_COMPLETED then Inr n
          else (case tn_assistant_entry t of
                  None \<Rightarrow> Inl ConversationConflict
                | Some a \<Rightarrow>
                    (case entry_by_id es a of
                       None \<Rightarrow> Inl ConversationConflict
                     | Some e \<Rightarrow>
                         if en_kind e = ASSISTANT_MESSAGE \<and> n < en_sequence e then Inr (en_sequence e)
                         else Inl ConversationConflict)))"

text \<open>Every element with its key, or the error of the first key that cannot be computed.\<close>

fun with_keys :: "('a \<Rightarrow> 'e + 'k) \<Rightarrow> 'a list \<Rightarrow> 'e + ('k \<times> 'a) list" where
  "with_keys f [] = Inr []"
| "with_keys f (x # xs) =
     (case f x of
        Inl e \<Rightarrow> Inl e
      | Inr k \<Rightarrow> (case with_keys f xs of Inl e \<Rightarrow> Inl e | Inr ys \<Rightarrow> Inr ((k, x) # ys)))"

definition terminal_turns :: "thread_view \<Rightarrow> turn list" where
  "terminal_turns view = filter (\<lambda>t. tn_status t \<noteq> TURN_IN_PROGRESS) (vw_turns view)"

definition terminal_materialization_target :: "thread_view \<Rightarrow> string option \<Rightarrow> conversation_error + turn" where
  "terminal_materialization_target view turn_id =
     (case turn_id of
        Some i \<Rightarrow>
          (case find (\<lambda>t. tn_id t = i) (vw_turns view) of
             None \<Rightarrow> Inl (TurnNotFound i)
           | Some t \<Rightarrow>
               if tn_status t = TURN_IN_PROGRESS then Inl InvalidTurnTransition
               else (case turn_user_sequence (vw_entries view) t of Inl e \<Rightarrow> Inl e | Inr _ \<Rightarrow> Inr t))
      | None \<Rightarrow>
          if terminal_turns view = [] then Inl (TurnNotFound ''latest_terminal'')
          else (case with_keys (turn_user_sequence (vw_entries view)) (terminal_turns view) of
                  Inl e \<Rightarrow> Inl e
                | Inr ts \<Rightarrow> Inr (snd (last (sort_key (\<lambda>(n, t). (n, tn_id t)) ts)))))"

section \<open>The copy\<close>

type_synonym factory = "string \<Rightarrow> nat \<Rightarrow> string"

type_synonym 'a drawing = "(nat, conversation_error, 'a) eff"

definition draw :: "factory \<Rightarrow> string \<Rightarrow> string drawing" where
  "draw ids kind = (\<lambda>n. (Inr (ids kind n), n + 1))"

definition materialized_title :: "string \<Rightarrow> string \<Rightarrow> string \<Rightarrow> string" where
  "materialized_title ellipsis prefix source_title =
     (let title = normalize_title (prefix @ source_title); clusters = visible_graphemes title in
      if length clusters \<le> 100 then title else concat (take 99 clusters) @ ellipsis)"

text \<open>The terminal turns of the copied prefix in transcript order, \<open>source_turns\<close>.\<close>

definition prefix_turns :: "lineage_kind \<Rightarrow> nat \<Rightarrow> (nat \<times> turn) list \<Rightarrow> turn list" where
  "prefix_turns kind limit ts =
     map snd (sort_key (\<lambda>(n, t). (n, tn_id t))
       (filter (\<lambda>(n, t). if kind = FORK then n \<le> limit else n < limit) ts))"

definition crosses_boundary :: "lineage_kind \<Rightarrow> nat \<Rightarrow> nat \<Rightarrow> nat \<Rightarrow> bool" where
  "crosses_boundary kind target_sequence target_boundary boundary \<longleftrightarrow>
     (if kind = FORK then target_boundary < boundary else target_sequence \<le> boundary)"

definition included_ids :: "turn list \<Rightarrow> string list" where
  "included_ids ts =
     concat (map (\<lambda>t. tn_user_entry t #
       (case tn_assistant_entry t of Some a \<Rightarrow> if tn_status t = TURN_COMPLETED then [a] else [] | None \<Rightarrow> [])) ts)"

definition prefix_entries :: "thread_entry list \<Rightarrow> turn list \<Rightarrow> nat \<Rightarrow> thread_entry list" where
  "prefix_entries es ts direct_boundary =
     filter (\<lambda>e. en_id e \<in> set (included_ids ts) \<or> (en_kind e = DIRECT_COMMAND_ENTRY \<and> en_sequence e \<le> direct_boundary))
       (sort_key (\<lambda>e. (en_sequence e, en_id e)) es)"

definition cloned_metadata :: "thread_entry \<Rightarrow> json_dict" where
  "cloned_metadata e =
     (if en_kind e = DIRECT_COMMAND_ENTRY then filter (\<lambda>kv. fst kv \<noteq> ''operation_id'') (en_metadata e) else en_metadata e)"

fun clone_entries :: "factory \<Rightarrow> string \<Rightarrow> time \<Rightarrow> nat \<Rightarrow> thread_entry list \<Rightarrow> (string \<times> thread_entry) list drawing" where
  "clone_entries ids thread_id now n [] = ret []"
| "clone_entries ids thread_id now n (e # es) =
     sbind (draw ids ''entry'') (\<lambda>i.
     sbind (if en_kind e = USER_MESSAGE then sbind (draw ids ''client'') (\<lambda>c. ret (Some c)) else ret None) (\<lambda>client.
     let clone = e\<lparr>en_id := i, en_thread := thread_id, en_sequence := n, en_client := client,
                   en_metadata := cloned_metadata e, en_created := now + n * 4\<rparr> in
     andthen (guard_else (valid_entry clone) ConversationValueError)
    (sbind (clone_entries ids thread_id now (n + 1) es) (\<lambda>rest. ret ((en_id e, clone) # rest)))))"

text \<open>\<open>entry_id_map\<close>: the copy of a source entry.\<close>

definition clone_of :: "(string \<times> thread_entry) list \<Rightarrow> string \<Rightarrow> thread_entry option" where
  "clone_of clones i = map_of (rev clones) i"

definition cloned_turn :: "string \<Rightarrow> string \<Rightarrow> time \<Rightarrow> thread_entry \<Rightarrow> thread_entry option \<Rightarrow> turn \<Rightarrow> turn" where
  "cloned_turn i thread_id now user assistant t =
     (let finished = now + (case assistant of Some a \<Rightarrow> en_sequence a | None \<Rightarrow> en_sequence user) * 4 + 2 in
      t\<lparr>tn_id := i, tn_thread := thread_id, tn_checkpoint := i, tn_user_entry := en_id user,
        tn_assistant_entry := map_option en_id assistant, tn_manifest := [],
        tn_created := now + en_sequence user * 4 + 1, tn_updated := finished, tn_completed := Some finished\<rparr>)"

fun clone_turns :: "factory \<Rightarrow> string \<Rightarrow> time \<Rightarrow> (string \<times> thread_entry) list \<Rightarrow> turn list \<Rightarrow> turn list drawing" where
  "clone_turns ids thread_id now clones [] = ret []"
| "clone_turns ids thread_id now clones (t # ts) =
     sbind (draw ids ''turn'') (\<lambda>i.
     (case clone_of clones (tn_user_entry t) of
        None \<Rightarrow> raise ConversationConflict
      | Some user \<Rightarrow>
          let wanted = (if tn_status t = TURN_COMPLETED then tn_assistant_entry t else None);
              assistant = (case wanted of None \<Rightarrow> None | Some a \<Rightarrow> clone_of clones a);
              clone = cloned_turn i thread_id now user assistant t
          in andthen (guard_else (wanted = None \<or> assistant \<noteq> None) ConversationConflict)
            (andthen (guard_else (valid_turn clone) ConversationValueError)
            (sbind (clone_turns ids thread_id now clones ts) (\<lambda>rest. ret (clone # rest))))))"

definition retry_entry :: "string \<Rightarrow> string \<Rightarrow> string \<Rightarrow> time \<Rightarrow> nat \<Rightarrow> thread_entry \<Rightarrow> thread_entry" where
  "retry_entry i client thread_id now n user =
     \<lparr>en_id = i, en_thread = thread_id, en_sequence = n, en_kind = USER_MESSAGE, en_content = en_content user,
      en_client = Some client, en_metadata = en_metadata user, en_created = now + n * 4\<rparr>"

definition retry_turn :: "string \<Rightarrow> string \<Rightarrow> time \<Rightarrow> thread_entry \<Rightarrow> turn \<Rightarrow> turn" where
  "retry_turn i thread_id now user target =
     \<lparr>tn_id = i, tn_thread = thread_id, tn_checkpoint = i, tn_status = TURN_IN_PROGRESS, tn_provider = tn_provider target,
      tn_model = tn_model target, tn_thinking = tn_thinking target, tn_skill_mode = tn_skill_mode target,
      tn_budgets = tn_budgets target, tn_user_entry = en_id user, tn_assistant_entry = None, tn_usage = empty_usage,
      tn_termination = None, tn_error = None, tn_manifest = [], tn_created = now + en_sequence user * 4 + 1,
      tn_updated = now + en_sequence user * 4 + 1, tn_completed = None\<rparr>"

text \<open>The last instant of the copy, at which the new thread is updated.\<close>

definition latest_time :: "time \<Rightarrow> thread_entry list \<Rightarrow> turn list \<Rightarrow> time" where
  "latest_time now es ts = fold max (map en_created es @ map tn_updated ts) now"

definition materialized_thread :: "string \<Rightarrow> lineage_kind \<Rightarrow> string \<Rightarrow> time \<Rightarrow> time \<Rightarrow> thread \<Rightarrow> turn \<Rightarrow> thread" where
  "materialized_thread ellipsis kind thread_id now latest source target =
     source\<lparr>th_id := thread_id,
            th_title := materialized_title ellipsis (if kind = FORK then ''Fork of '' else ''Retry of '') (th_title source),
            th_title_source := MANUAL,
            th_lineage := Some \<lparr>li_kind = kind, li_thread = th_id source, li_turn = tn_id target\<rparr>,
            th_created := now, th_updated := latest\<rparr>"

text \<open>The user message and the turn of a retry, with what the preparation repeats of them.\<close>

definition clone_retry ::
  "factory \<Rightarrow> string \<Rightarrow> time \<Rightarrow> nat \<Rightarrow> thread_entry \<Rightarrow> turn \<Rightarrow> (thread_entry \<times> turn) drawing"
where
  "clone_retry ids thread_id now n user target =
     sbind (draw ids ''client'') (\<lambda>client.
     sbind (draw ids ''entry'') (\<lambda>i.
     let e = retry_entry i client thread_id now n user in
     andthen (guard_else (valid_entry e) ConversationValueError)
    (sbind (draw ids ''turn'') (\<lambda>j.
     let t = retry_turn j thread_id now e target in
     andthen (guard_else (valid_turn t) ConversationValueError) (ret (e, t))))))"

definition preparation_of :: "thread_view \<Rightarrow> turn \<Rightarrow> thread_entry \<Rightarrow> retry_preparation" where
  "preparation_of view t user =
     \<lparr>rp_view = view, rp_turn = t, rp_content = en_content user, rp_client = (case en_client user of None \<Rightarrow> [] | Some c \<Rightarrow> c)\<rparr>"

text \<open>The prefix that is copied: its entries and its turns.\<close>

definition materialized_prefix ::
  "thread_view \<Rightarrow> turn \<Rightarrow> lineage_kind \<Rightarrow> conversation_error + thread_entry \<times> thread_entry list \<times> turn list"
where
  "materialized_prefix source target kind =
     (let es = vw_entries source in
      case entry_by_id es (tn_user_entry target) of
        None \<Rightarrow> Inl ConversationConflict
      | Some user \<Rightarrow>
          if en_kind user \<noteq> USER_MESSAGE then Inl ConversationConflict
          else (case with_keys (turn_user_sequence es) (terminal_turns source) of
                  Inl e \<Rightarrow> Inl e
                | Inr keyed \<Rightarrow>
                    let ts = prefix_turns kind (en_sequence user) keyed in
                    if kind = FORK \<and> target \<notin> set ts then Inl ConversationConflict
                    else (case turn_boundary_sequence es target of
                            Inl e \<Rightarrow> Inl e
                          | Inr boundary \<Rightarrow>
                              (case with_keys (turn_boundary_sequence es) ts of
                                 Inl e \<Rightarrow> Inl e
                               | Inr bounds \<Rightarrow>
                                   if list_ex (crosses_boundary kind (en_sequence user) boundary) (map fst bounds)
                                   then Inl ConversationConflict
                                   else Inr (user,
                                     prefix_entries es ts (if kind = FORK then boundary else en_sequence user - 1), ts)))))"

definition build_thread_materialization ::
  "string \<Rightarrow> factory \<Rightarrow> time \<Rightarrow> thread_view \<Rightarrow> turn \<Rightarrow> lineage_kind \<Rightarrow> (thread_view \<times> retry_preparation option) drawing"
where
  "build_thread_materialization ellipsis ids now source target kind =
     sbind (lift_result (materialized_prefix source target kind)) (\<lambda>(user, prefix, ts).
     sbind (draw ids ''thread'') (\<lambda>thread_id.
     sbind (clone_entries ids thread_id now 1 prefix) (\<lambda>clones.
     sbind (clone_turns ids thread_id now clones ts) (\<lambda>turns.
     sbind (if kind = RETRY
            then sbind (clone_retry ids thread_id now (length clones + 1) user target) (\<lambda>et. ret (Some et))
            else ret None) (\<lambda>extra.
     let es = map snd clones @ (case extra of None \<Rightarrow> [] | Some (e, _) \<Rightarrow> [e]);
         ts' = turns @ (case extra of None \<Rightarrow> [] | Some (_, t) \<Rightarrow> [t]);
         thread = materialized_thread ellipsis kind thread_id now (latest_time now es ts') (vw_thread source) target;
         view = \<lparr>vw_thread = thread, vw_entries = es, vw_turns = ts', vw_summary = None, vw_activities = []\<rparr>;
         preparation = map_option (\<lambda>(e, t). preparation_of view t e) extra
     in andthen (guard_else
          (valid_thread thread \<and> (case preparation of None \<Rightarrow> True | Some r \<Rightarrow> valid_preparation r)) ConversationValueError)
        (ret (view, preparation)))))))"

section \<open>The store\<close>

definition materialization_source :: "digest \<Rightarrow> materialization_plan \<Rightarrow> conv_db \<Rightarrow> conversation_error + thread_view" where
  "materialization_source digest p db =
     (case read_thread (mp_thread p) db of
        Inl e \<Rightarrow> Inl e
      | Inr source \<Rightarrow>
          if th_workspace (vw_thread source) \<noteq> mp_workspace p then Inl (ThreadNotFound (mp_thread p))
          else (case find (\<lambda>t. tn_id t = mp_turn p) (vw_turns source) of
                  None \<Rightarrow> Inl (TurnNotFound (mp_turn p))
                | Some target \<Rightarrow>
                    if tn_status target = TURN_IN_PROGRESS then Inl InvalidTurnTransition
                    else if materialization_source_fingerprint digest source \<noteq> mp_fingerprint p then Inl ConversationConflict
                    else Inr source))"

definition client_ids :: "thread_entry list \<Rightarrow> string list" where
  "client_ids es = List.map_filter en_client es"

definition new_materialization_ids :: "thread_view \<Rightarrow> thread_view \<Rightarrow> bool" where
  "new_materialization_ids source view \<longleftrightarrow>
     list_all (\<lambda>e. en_id e \<notin> set (map en_id (vw_entries source))) (vw_entries view) \<and>
     list_all (\<lambda>t. tn_id t \<notin> set (map tn_id (vw_turns source))) (vw_turns view) \<and>
     list_all (\<lambda>c. c \<notin> set (client_ids (vw_entries source))) (client_ids (vw_entries view))"

definition insert_materialized_view :: "thread_view \<Rightarrow> unit conv" where
  "insert_materialized_view view =
     andthen (insert_thread (vw_thread view))
    (andthen (for_each (\<lambda>e. andthen (append_entry e) (ret ())) (vw_entries view))
     (for_each (\<lambda>t. andthen (insert_turn t) (ret ())) (vw_turns view)))"

definition materialize :: "digest \<Rightarrow> materialization_plan \<Rightarrow> thread_view conv" where
  "materialize digest p =
     sbind (reads (materialization_source digest p)) (\<lambda>source.
     andthen (guard_else (new_materialization_ids source (mp_view p)) ConversationConflict)
    (andthen (insert_materialized_view (mp_view p))
     (reads (read_thread (th_id (vw_thread (mp_view p)))))))"

definition materialize_fork :: "digest \<Rightarrow> materialization_plan \<Rightarrow> thread_view conv" where
  "materialize_fork digest p = transaction (materialize digest p)"

definition materialize_retry :: "digest \<Rightarrow> materialization_plan \<Rightarrow> retry_preparation \<Rightarrow> retry_preparation conv" where
  "materialize_retry digest p preparation =
     transaction
    (sbind (materialize digest p) (\<lambda>persisted.
     (case find (\<lambda>t. tn_id t = tn_id (rp_turn preparation)) (vw_turns persisted) of
        None \<Rightarrow> raise ConversationConflict
      | Some t \<Rightarrow>
          let r = preparation\<lparr>rp_view := persisted, rp_turn := t\<rparr> in
          andthen (guard_else (valid_preparation r) ConversationValueError) (ret r))))"

section \<open>The service\<close>

definition materialization_target ::
  "string \<Rightarrow> string \<Rightarrow> string option \<Rightarrow> conv_db \<Rightarrow> conversation_error + thread_view \<times> turn"
where
  "materialization_target workspace thread_id turn_id db =
     (if \<not> (bounded 1 128 workspace \<and> bounded 1 128 thread_id \<and> (case turn_id of None \<Rightarrow> True | Some i \<Rightarrow> bounded 1 128 i))
      then Inl ConversationValueError
      else (case read_thread thread_id db of
              Inl e \<Rightarrow> Inl e
            | Inr source \<Rightarrow>
                if th_workspace (vw_thread source) \<noteq> workspace then Inl (ThreadNotFound thread_id)
                else (case terminal_materialization_target source turn_id of Inl e \<Rightarrow> Inl e | Inr t \<Rightarrow> Inr (source, t))))"

definition plan_of :: "digest \<Rightarrow> lineage_kind \<Rightarrow> string \<Rightarrow> thread_view \<Rightarrow> turn \<Rightarrow> thread_view \<Rightarrow> materialization_plan" where
  "plan_of digest kind workspace source target view =
     \<lparr>mp_kind = kind, mp_workspace = workspace, mp_thread = th_id (vw_thread source), mp_turn = tn_id target,
      mp_fingerprint = materialization_source_fingerprint digest source, mp_view = view\<rparr>"

definition prepared_plan ::
  "string \<Rightarrow> factory \<Rightarrow> time \<Rightarrow> digest \<Rightarrow> lineage_kind \<Rightarrow> string \<Rightarrow> thread_view \<times> turn
   \<Rightarrow> conversation_error + materialization_plan \<times> retry_preparation option"
where
  "prepared_plan ellipsis ids now digest kind workspace st =
     (case st of (source, target) \<Rightarrow>
        (case fst (build_thread_materialization ellipsis ids now source target kind 0) of
           Inl e \<Rightarrow> Inl e
         | Inr (view, preparation) \<Rightarrow>
             let p = plan_of digest kind workspace source target view in
             if valid_plan p then Inr (p, preparation) else Inl ConversationValueError))"

text \<open>A write with a source read before, \<open>fork_thread\<close> and \<open>prepare_retry\<close> with their own.\<close>

definition fork_thread_from ::
  "string \<Rightarrow> factory \<Rightarrow> time \<Rightarrow> digest \<Rightarrow> string \<Rightarrow> thread_view \<times> turn \<Rightarrow> thread_view conv"
where
  "fork_thread_from ellipsis ids now digest workspace st =
     sbind (lift_result (prepared_plan ellipsis ids now digest FORK workspace st)) (\<lambda>(p, _). materialize_fork digest p)"

definition fork_thread ::
  "string \<Rightarrow> factory \<Rightarrow> time \<Rightarrow> digest \<Rightarrow> string \<Rightarrow> string \<Rightarrow> string option \<Rightarrow> thread_view conv"
where
  "fork_thread ellipsis ids now digest workspace thread_id turn_id =
     sbind (reads (materialization_target workspace thread_id turn_id)) (fork_thread_from ellipsis ids now digest workspace)"

definition prepare_retry_from ::
  "string \<Rightarrow> factory \<Rightarrow> time \<Rightarrow> digest \<Rightarrow> string \<Rightarrow> thread_view \<times> turn \<Rightarrow> retry_preparation conv"
where
  "prepare_retry_from ellipsis ids now digest workspace st =
     sbind (lift_result (prepared_plan ellipsis ids now digest RETRY workspace st)) (\<lambda>(p, preparation).
     (case preparation of None \<Rightarrow> raise ConversationValueError | Some r \<Rightarrow> materialize_retry digest p r))"

definition prepare_retry ::
  "string \<Rightarrow> factory \<Rightarrow> time \<Rightarrow> digest \<Rightarrow> string \<Rightarrow> string \<Rightarrow> string option \<Rightarrow> retry_preparation conv"
where
  "prepare_retry ellipsis ids now digest workspace thread_id turn_id =
     sbind (reads (materialization_target workspace thread_id turn_id)) (prepare_retry_from ellipsis ids now digest workspace)"

end
