(* ===== verification/ContextManifest.thy ===== *)
theory ContextManifest
  imports ContextBuilder "HOL-Library.List_Lexorder" "HOL-Library.Char_ord"
begin

text \<open>
  The manifest of a context as JSON: \<open>ContextManifestItem.model_dump\<close> and
  \<open>model_validate\<close> of \<open>context/models.py\<close> with their validators, and the skill identities
  that a stored manifest grants.
\<close>

section \<open>Validators\<close>

definition all_kinds :: "source_kind list" where
  "all_kinds =
     [PRODUCT_INSTRUCTIONS, WORKSPACE_INSTRUCTIONS, SKILL, SKILL_CATALOG, USER_MEMORY, WORKSPACE_MEMORY, MEM0,
      THREAD_SUMMARY, RECENT_TURNS, DIRECT_COMMAND, EXPLICIT_PATH, CURRENT_INPUT, OPEN_TOOL_CHAIN]"

definition kind_of_value :: "string \<Rightarrow> source_kind option" where
  "kind_of_value v = find (\<lambda>k. kind_value k = v) all_kinds"

definition hex_string :: "nat \<Rightarrow> string \<Rightarrow> bool" where
  "hex_string n s \<longleftrightarrow> length s = n \<and> set s \<subseteq> set ''0123456789abcdef''"

text \<open>\<open>^[a-z][a-z0-9-]{0,63}$\<close>\<close>

definition skill_name :: "string \<Rightarrow> bool" where
  "skill_name s \<longleftrightarrow>
     (case s of [] \<Rightarrow> False
      | c # cs \<Rightarrow> is_lower c \<and> length cs \<le> 63 \<and> list_all (\<lambda>x. is_lower x \<or> is_digit x \<or> x = CHR ''-'') cs)"

definition valid_skill_identity :: "skill_identity \<Rightarrow> bool" where
  "valid_skill_identity k \<longleftrightarrow>
     skill_name (sk_name k) \<and> sk_source k \<in> {''bundled'', ''user'', ''workspace''} \<and>
     starts_with ''skill-v1-sha256:'' (sk_identity k) \<and> hex_string 64 (drop 16 (sk_identity k)) \<and>
     length (sk_allowed_tools k) \<le> 128 \<and> distinct (sk_allowed_tools k) \<and> list_all (grant_name 199) (sk_allowed_tools k)"

text \<open>\<open>_validate_skill_identities\<close>\<close>

definition skill_scope :: "source_kind \<Rightarrow> string \<Rightarrow> skill_identity list \<Rightarrow> bool \<Rightarrow> bool" where
  "skill_scope kind i identities legacy \<longleftrightarrow>
     (identities \<noteq> [] \<longrightarrow> kind = SKILL \<or> kind = SKILL_CATALOG) \<and>
     (kind = SKILL \<longrightarrow> (length identities = 1 \<and> sk_name (hd identities) = i) \<or> (legacy \<and> identities = [])) \<and>
     (kind = SKILL_CATALOG \<longrightarrow>
        i = ''auto'' \<and> distinct (map sk_name identities) \<and> sorted (map sk_name identities))"

definition valid_item :: "manifest_item \<Rightarrow> bool" where
  "valid_item m \<longleftrightarrow>
     bounded 1 512 (mf_id m) \<and> hex_string 64 (mf_hash m) \<and>
     (case mf_start m of None \<Rightarrow> True | Some n \<Rightarrow> 1 \<le> n) \<and> (case mf_end m of None \<Rightarrow> True | Some n \<Rightarrow> 1 \<le> n) \<and>
     length (mf_skills m) \<le> 64 \<and> list_all valid_skill_identity (mf_skills m) \<and>
     skill_scope (mf_kind m) (mf_id m) (mf_skills m) True"

section \<open>JSON\<close>

definition nat_json :: "nat option \<Rightarrow> json" where
  "nat_json n = (case n of None \<Rightarrow> JNull | Some k \<Rightarrow> JInt (int k))"

definition skill_json :: "skill_identity \<Rightarrow> json" where
  "skill_json k =
     JObject [(''name'', JString (sk_name k)), (''source'', JString (sk_source k)), (''identity'', JString (sk_identity k)),
       (''allowed_tools'', JList (map JString (sk_allowed_tools k)))]"

definition manifest_json :: "manifest_item \<Rightarrow> json_dict" where
  "manifest_json m =
     [(''kind'', JString (kind_value (mf_kind m))), (''source_id'', JString (mf_id m)), (''order'', JInt (int (mf_order m))),
      (''estimated_tokens'', JInt (int (mf_tokens m))), (''truncated'', JBool (mf_truncated m)),
      (''content_hash'', JString (mf_hash m)), (''covered_sequence_start'', nat_json (mf_start m)),
      (''covered_sequence_end'', nat_json (mf_end m)), (''skill_identities'', JList (map skill_json (mf_skills m)))]"

definition load_string :: "json option \<Rightarrow> string option" where
  "load_string j = (case j of Some (JString s) \<Rightarrow> Some s | _ \<Rightarrow> None)"

definition load_nat :: "json option \<Rightarrow> nat option" where
  "load_nat j = (case j of Some (JInt i) \<Rightarrow> if 0 \<le> i then Some (nat i) else None | _ \<Rightarrow> None)"

text \<open>An optional number that may be absent: \<open>None\<close> is refused, \<open>Some None\<close> no number.\<close>

definition load_optional :: "json option \<Rightarrow> nat option option" where
  "load_optional j = (case j of None \<Rightarrow> Some None | Some JNull \<Rightarrow> Some None | _ \<Rightarrow> map_option Some (load_nat j))"

definition load_bool :: "json option \<Rightarrow> bool option" where
  "load_bool j = (case j of Some (JBool b) \<Rightarrow> Some b | _ \<Rightarrow> None)"

fun load_all :: "(json \<Rightarrow> 'a option) \<Rightarrow> json list \<Rightarrow> 'a list option" where
  "load_all f [] = Some []"
| "load_all f (x # xs) = (case f x of None \<Rightarrow> None | Some y \<Rightarrow> map_option (\<lambda>ys. y # ys) (load_all f xs))"

definition load_list :: "(json \<Rightarrow> 'a option) \<Rightarrow> json option \<Rightarrow> 'a list option" where
  "load_list f j = (case j of None \<Rightarrow> Some [] | Some (JList xs) \<Rightarrow> load_all f xs | _ \<Rightarrow> None)"

definition known_keys :: "string list \<Rightarrow> json_dict \<Rightarrow> bool" where
  "known_keys names d \<longleftrightarrow> list_all (\<lambda>kv. fst kv \<in> set names) d"

definition load_skill :: "json \<Rightarrow> skill_identity option" where
  "load_skill j =
     (case j of
        JObject d \<Rightarrow>
          (case (load_string (map_of d ''name''), load_string (map_of d ''source''), load_string (map_of d ''identity''),
                 load_list (\<lambda>x. load_string (Some x)) (map_of d ''allowed_tools'')) of
             (Some name, Some source, Some identity, Some tools) \<Rightarrow>
               let k = \<lparr>sk_name = name, sk_source = source, sk_identity = identity, sk_allowed_tools = tools\<rparr> in
               if known_keys [''name'', ''source'', ''identity'', ''allowed_tools''] d \<and> valid_skill_identity k
               then Some k else None
           | _ \<Rightarrow> None)
      | _ \<Rightarrow> None)"

definition item_keys :: "string list" where
  "item_keys =
     [''kind'', ''source_id'', ''order'', ''estimated_tokens'', ''truncated'', ''content_hash'', ''covered_sequence_start'',
      ''covered_sequence_end'', ''skill_identities'']"

definition load_kind :: "json option \<Rightarrow> source_kind option" where
  "load_kind j = (case load_string j of None \<Rightarrow> None | Some v \<Rightarrow> kind_of_value v)"

text \<open>\<open>ContextManifestItem.model_validate\<close>: \<open>None\<close> is its \<open>ValueError\<close>.  A value of another
  JSON type than the code writes is refused too, where \<open>pydantic\<close> would convert some of them.\<close>

definition load_item :: "json_dict \<Rightarrow> manifest_item option" where
  "load_item d =
     (case (load_kind (map_of d ''kind''), load_string (map_of d ''source_id''), load_nat (map_of d ''order''),
            load_nat (map_of d ''estimated_tokens''), load_bool (map_of d ''truncated''), load_string (map_of d ''content_hash''),
            load_optional (map_of d ''covered_sequence_start''), load_optional (map_of d ''covered_sequence_end''),
            load_list load_skill (map_of d ''skill_identities'')) of
        (Some kind, Some i, Some order, Some tokens, Some truncated, Some hash, Some start, Some end', Some skills) \<Rightarrow>
          let m = \<lparr>mf_kind = kind, mf_id = i, mf_order = order, mf_tokens = tokens, mf_truncated = truncated, mf_hash = hash,
                   mf_start = start, mf_end = end', mf_skills = skills\<rparr> in
          if known_keys item_keys d \<and> valid_item m then Some m else None
      | _ \<Rightarrow> None)"

fun load_items :: "json_dict list \<Rightarrow> manifest_item list option" where
  "load_items [] = Some []"
| "load_items (d # ds) =
     (case load_item d of None \<Rightarrow> None | Some m \<Rightarrow> map_option (\<lambda>ms. m # ms) (load_items ds))"

text \<open>\<open>skill_identities_from_manifest\<close>: a malformed manifest or a repeated name grants nothing.\<close>

definition skill_identities_from_manifest :: "json_dict list \<Rightarrow> skill_identity list" where
  "skill_identities_from_manifest manifest =
     (case load_items manifest of
        None \<Rightarrow> []
      | Some ms \<Rightarrow>
          let identities = concat (map mf_skills ms) in if distinct (map sk_name identities) then identities else [])"

section \<open>Writing and reading\<close>

lemma kind_of_value_kind [simp]: "kind_of_value (kind_value k) = Some k"
  by (cases k) (simp_all add: kind_of_value_def all_kinds_def kind_value_def)

lemma load_all_map: "(\<And>x. x \<in> set xs \<Longrightarrow> f (g x) = Some x) \<Longrightarrow> load_all f (map g xs) = Some xs"
  by (induction xs) simp_all

lemma load_skill_json: "valid_skill_identity k \<Longrightarrow> load_skill (skill_json k) = Some k"
  by (cases k) (simp add: load_skill_def skill_json_def load_string_def load_list_def load_all_map [where g = JString] known_keys_def Let_def)

lemma load_optional_json: "load_optional (Some (nat_json n)) = Some n"
  by (cases n) (simp_all add: load_optional_def nat_json_def load_nat_def)

lemma load_item_json:
  assumes "valid_item m"
  shows "load_item (manifest_json m) = Some m"
proof -
  have "load_all load_skill (map skill_json (mf_skills m)) = Some (mf_skills m)"
    using assms by (intro load_all_map load_skill_json) (simp add: valid_item_def list_all_iff)
  with assms show ?thesis
    by (cases m) (simp add: load_item_def manifest_json_def load_kind_def load_string_def load_nat_def load_bool_def load_list_def
      load_optional_json known_keys_def item_keys_def Let_def)
qed

lemma load_items_json: "list_all valid_item ms \<Longrightarrow> load_items (map manifest_json ms) = Some ms"
  by (induction ms) (simp_all add: load_item_json)

end
