(* ===== verification/ExplicitPaths.thy ===== *)
theory ExplicitPaths
  imports Prelude
begin

text \<open>
  \<open>parse_explicit_paths\<close> of \<open>context/path_refs.py\<close>: the words of a message that begin with
  an at sign are paths, the others its text.  The words are those of \<open>shlex.split\<close> in POSIX mode:
  white space separates them, both quotes keep it, a backslash escapes the next character, and
  inside double quotes only a backslash and a double quote.
\<close>

section \<open>Words\<close>

datatype shlex_mode = BETWEEN | IN_WORD | QUOTED char | ESCAPED "char option"

definition shlex_space :: "char \<Rightarrow> bool" where
  "shlex_space c \<longleftrightarrow> c \<in> set [CHR '' '', CHR 0x09, CHR 0x0D, CHR 0x0A]"

definition single_quote :: char where
  "single_quote = CHR 0x27"

definition double_quote :: char where
  "double_quote = CHR 0x22"

definition escape :: char where
  "escape = CHR 0x5C"

text \<open>The state of the lexer, its word so far, whether the word had a quote, and the rest of the
  text.  \<open>None\<close> is the \<open>ValueError\<close> of an open quote or of a last backslash.\<close>

fun shlex_from :: "shlex_mode \<Rightarrow> string \<Rightarrow> bool \<Rightarrow> string \<Rightarrow> string list option" where
  "shlex_from m word quoted [] =
     (case m of
        BETWEEN \<Rightarrow> Some []
      | IN_WORD \<Rightarrow> Some (if word = [] \<and> \<not> quoted then [] else [word])
      | _ \<Rightarrow> None)"
| "shlex_from m word quoted (c # cs) =
     (case m of
        BETWEEN \<Rightarrow>
          if shlex_space c then shlex_from BETWEEN [] False cs
          else if c = escape then shlex_from (ESCAPED None) [] False cs
          else if c = single_quote \<or> c = double_quote then shlex_from (QUOTED c) [] False cs
          else shlex_from IN_WORD [c] False cs
      | IN_WORD \<Rightarrow>
          if shlex_space c
          then (if word = [] \<and> \<not> quoted then shlex_from BETWEEN [] False cs
                else map_option (\<lambda>words. word # words) (shlex_from BETWEEN [] False cs))
          else if c = single_quote \<or> c = double_quote then shlex_from (QUOTED c) word quoted cs
          else if c = escape then shlex_from (ESCAPED None) word quoted cs
          else shlex_from IN_WORD (word @ [c]) quoted cs
      | QUOTED q \<Rightarrow>
          if c = q then shlex_from IN_WORD word True cs
          else if c = escape \<and> q = double_quote then shlex_from (ESCAPED (Some q)) word True cs
          else shlex_from (QUOTED q) (word @ [c]) True cs
      | ESCAPED None \<Rightarrow> shlex_from IN_WORD (word @ [c]) quoted cs
      | ESCAPED (Some q) \<Rightarrow>
          shlex_from (QUOTED q) (if c \<noteq> escape \<and> c \<noteq> q then word @ [escape, c] else word @ [c]) quoted cs)"

definition shlex_split :: "string \<Rightarrow> string list option" where
  "shlex_split text = shlex_from BETWEEN [] False text"

section \<open>Paths of a message\<close>

text \<open>\<open>str.replace\<close> for a text that is not empty\<close>

function replace_text :: "string \<Rightarrow> string \<Rightarrow> string \<Rightarrow> string" where
  "replace_text old new text =
     (if old \<noteq> [] \<and> text \<noteq> []
      then (if starts_with old text then new @ replace_text old new (drop (length old) text)
            else hd text # replace_text old new (tl text))
      else text)"
  by pat_completeness auto
termination
  by (relation "measure (\<lambda>(_, _, text). length text)") auto

declare replace_text.simps [simp del]

definition MAX_EXPLICIT_PATHS :: nat where
  "MAX_EXPLICIT_PATHS = 32"

definition escaped_at :: string where
  "escaped_at = ''__AWESOME_ESCAPED_AT__''"

datatype path_error = InvalidQuoting | TooManyPaths

record explicit_paths =
  ep_text :: string
  ep_references :: "string list"

text \<open>One word after the words before it: the words of the text and the paths, each path once.\<close>

definition sort_word :: "string \<Rightarrow> string list \<times> string list \<Rightarrow> string list \<times> string list" where
  "sort_word word found =
     (case found of (natural, references) \<Rightarrow>
        let restored = replace_text escaped_at ''@'' word in
        if starts_with ''@'' word
        then (let reference = tl restored in
              if reference = [] then (natural @ [restored], references)
              else if reference \<in> set references then found
              else (natural, references @ [reference]))
        else (natural @ [restored], references))"

definition parse_explicit_paths :: "string \<Rightarrow> path_error + explicit_paths" where
  "parse_explicit_paths text =
     (case shlex_split (replace_text (escape # ''@'') escaped_at text) of
        None \<Rightarrow> Inl InvalidQuoting
      | Some words \<Rightarrow>
          (case fold sort_word words ([], []) of
             (natural, references) \<Rightarrow>
               if MAX_EXPLICIT_PATHS < length references then Inl TooManyPaths
               else Inr \<lparr>ep_text = join_with '' '' natural, ep_references = references\<rparr>))"

lemma sort_word_distinct: "distinct (snd found) \<Longrightarrow> distinct (snd (sort_word word found))"
  by (auto simp: sort_word_def Let_def split: prod.splits)

lemma references_distinct:
  assumes "parse_explicit_paths text = Inr p"
  shows "distinct (ep_references p)" and "length (ep_references p) \<le> MAX_EXPLICIT_PATHS"
proof -
  have "distinct (snd (fold sort_word words found))" if "distinct (snd found)" for words found
    using that sort_word_distinct by (induction words arbitrary: found) auto
  from this [of "([], [])"] show "distinct (ep_references p)" and "length (ep_references p) \<le> MAX_EXPLICIT_PATHS"
    using assms by (auto simp: parse_explicit_paths_def split: option.splits prod.splits if_splits) (metis snd_conv)
qed

section \<open>Quotes in a message\<close>

lemma replace_text_absent: "old \<noteq> [] \<Longrightarrow> hd old \<notin> set cs \<Longrightarrow> replace_text old new cs = cs"
proof (induction cs)
  case Nil
  then show ?case by (subst replace_text.simps) simp
next
  case (Cons c cs)
  have "\<not> starts_with old (c # cs)" using Cons.prems by (cases old) (auto simp: starts_with_def)
  with Cons show ?case by (subst replace_text.simps) simp
qed

lemma open_quote_fails: "q \<notin> set cs \<Longrightarrow> q \<noteq> double_quote \<Longrightarrow> shlex_from (QUOTED q) word quoted cs = None"
  by (induction cs arbitrary: word quoted) auto

definition quoting_char :: "char \<Rightarrow> bool" where
  "quoting_char c \<longleftrightarrow> c = single_quote \<or> c = double_quote \<or> c = escape"

lemma single_quote_fails:
  assumes "list_all (\<lambda>c. \<not> quoting_char c) b" and "list_all (\<lambda>c. \<not> quoting_char c) a" and "m = BETWEEN \<or> m = IN_WORD"
  shows "shlex_from m word quoted (a @ single_quote # b) = None"
  using assms(2,3)
proof (induction a arbitrary: m word quoted)
  case Nil
  have "single_quote \<notin> set b" using assms(1) by (auto simp: list_all_iff quoting_char_def)
  then have "shlex_from (QUOTED single_quote) word quoted b = None" for word quoted
    by (rule open_quote_fails) (simp add: single_quote_def double_quote_def)
  then show ?case using Nil by (auto simp: single_quote_def double_quote_def escape_def shlex_space_def)
qed (auto simp: quoting_char_def)

text \<open>A message with one apostrophe, such as \<open>don't\<close>, and no other quote or backslash is
  refused as badly quoted, whatever paths it names or does not name.\<close>

theorem apostrophe_refused:
  assumes "list_all (\<lambda>c. \<not> quoting_char c) (a @ b)"
  shows "parse_explicit_paths (a @ single_quote # b) = Inl InvalidQuoting"
proof -
  have "escape \<notin> set (a @ single_quote # b)"
    using assms by (auto simp: list_all_iff quoting_char_def single_quote_def escape_def)
  then have "replace_text (escape # ''@'') escaped_at (a @ single_quote # b) = a @ single_quote # b"
    by (intro replace_text_absent) simp_all
  moreover have "shlex_split (a @ single_quote # b) = None"
    unfolding shlex_split_def using assms by (intro single_quote_fails) simp_all
  ultimately show ?thesis by (simp add: parse_explicit_paths_def)
qed

theorem apostrophe_refused_witness:
  "parse_explicit_paths (''please don'' @ single_quote # ''t touch @a.txt'') = Inl InvalidQuoting"
  by (rule apostrophe_refused) (simp add: quoting_char_def single_quote_def double_quote_def escape_def)

end
