(* ===== verification/AgentRuns.thy ===== *)
theory AgentRuns
  imports AgentLoop
begin

text \<open>
  What the agent graph guarantees whatever the model answers: transcripts, budgets, the
  calls it makes and that it ends.  The locale \<open>agent_services\<close> states what a turn needs of
  its context builder, its compressor and its executor.
\<close>

section \<open>Transcripts\<close>

text \<open>The results of the calls, in their order, at the head of the messages; what follows them.\<close>

fun results_for :: "tool_call list \<Rightarrow> model_message list \<Rightarrow> model_message list option" where
  "results_for [] ms = Some ms"
| "results_for (c # cs) (ToolResultMessage i _ _ # ms) = (if i = tc_id c then results_for cs ms else None)"
| "results_for _ _ = None"

lemma results_for_shorter: "results_for cs ms = Some rest \<Longrightarrow> length rest \<le> length ms"
  by (induction cs ms rule: results_for.induct) (auto split: if_splits)

text \<open>Every tool call of an assistant message has its result right after it, in order,
  and no result stands without its call.\<close>

function answered :: "model_message list \<Rightarrow> bool" where
  "answered [] = True"
| "answered (AssistantMessage _ calls # ms) =
     (case results_for calls ms of None \<Rightarrow> False | Some rest \<Rightarrow> answered rest)"
| "answered (ToolResultMessage _ _ _ # ms) = False"
| "answered (SystemMessage _ # ms) = answered ms"
| "answered (UserMessage _ # ms) = answered ms"
  by pat_completeness auto
termination
  by (relation "measure length") (auto dest: results_for_shorter)

lemma results_for_append: "results_for cs ms = Some rest \<Longrightarrow> results_for cs (ms @ ys) = Some (rest @ ys)"
  by (induction cs ms rule: results_for.induct) (auto split: if_splits)

lemma answered_append: "answered xs \<Longrightarrow> answered (xs @ ys) \<longleftrightarrow> answered ys"
  by (induction xs rule: answered.induct) (auto simp: results_for_append split: option.splits)

fun result_id :: "model_message \<Rightarrow> string option" where
  "result_id (ToolResultMessage i _ _) = Some i"
| "result_id _ = None"

lemma results_for_all:
  "map result_id rs = map (\<lambda>c. Some (tc_id c)) cs \<Longrightarrow> results_for cs (rs @ ms) = Some ms"
proof (induction cs arbitrary: rs)
  case (Cons c cs)
  then obtain r rs' where r: "rs = r # rs'" "result_id r = Some (tc_id c)" "map result_id rs' = map (\<lambda>c. Some (tc_id c)) cs"
    by (cases rs) auto
  then show ?case using Cons.IH by (cases r) auto
qed simp

lemma answered_batch:
  assumes "answered pre" and "map result_id rs = map (\<lambda>c. Some (tc_id c)) calls"
  shows "answered (pre @ AssistantMessage c calls # rs)"
  using results_for_all [OF assms(2), of "[]"] by (simp add: answered_append [OF assms(1)])

section \<open>What the log says\<close>

fun ran_ids :: "agent_note list \<Rightarrow> string list" where
  "ran_ids [] = []"
| "ran_ids (ToolRan q # l) = rq_call_id q # ran_ids l"
| "ran_ids (_ # l) = ran_ids l"

fun requests :: "agent_note list \<Rightarrow> model_request list" where
  "requests [] = []"
| "requests (Requested q # l) = q # requests l"
| "requests (_ # l) = requests l"

lemma ran_ids_append [simp]: "ran_ids (l @ l') = ran_ids l @ ran_ids l'"
  by (induction l rule: ran_ids.induct) auto

lemma requests_append [simp]: "requests (l @ l') = requests l @ requests l'"
  by (induction l rule: requests.induct) auto

text \<open>Notes of neither a model request nor a tool run.\<close>

definition quiet_notes :: "agent_note list \<Rightarrow> bool" where
  "quiet_notes ns \<longleftrightarrow> ran_ids ns = [] \<and> requests ns = []"

lemma quiet_projected [simp]: "ran_ids (map GatewayProjected es) = []" "requests (map GatewayProjected es) = []"
  by (induction es) auto

lemma quiet_warned [simp]: "ran_ids (map (\<lambda>d. Warned (f d)) ds) = []" "requests (map (\<lambda>d. Warned (f d)) ds) = []"
  by (induction ds) auto

lemma quiet_warned_pairs [simp]:
  "ran_ids (map (\<lambda>(code, _). Warned code) ds) = []" "requests (map (\<lambda>(code, _). Warned code) ds) = []"
  by (induction ds) auto

section \<open>Budgets and transcripts of a turn\<close>

definition in_budget :: "turn_budget \<Rightarrow> agent_state \<Rightarrow> bool" where
  "in_budget b s \<longleftrightarrow>
     as_model_calls s \<le> tb_model_calls b \<and> as_tool_calls s \<le> tb_tool_calls b \<and>
     as_retries s \<le> tb_retries b \<and> as_compressions s \<le> tb_compressions b"

text \<open>The log of a turn that may have failed.\<close>

definition log_ok :: "turn_budget \<Rightarrow> agent_note list \<Rightarrow> bool" where
  "log_ok b l \<longleftrightarrow>
     length (requests l) \<le> tb_model_calls b \<and> length (ran_ids l) \<le> tb_tool_calls b \<and> distinct (ran_ids l) \<and>
     list_all (\<lambda>q. answered (mq_messages q)) (requests l)"

definition tally :: "turn_budget \<Rightarrow> agent_state \<Rightarrow> agent_note list \<Rightarrow> bool" where
  "tally b s l \<longleftrightarrow>
     in_budget b s \<and> length (requests l) \<le> as_model_calls s \<and> length (ran_ids l) \<le> as_tool_calls s \<and>
     distinct (ran_ids l) \<and> set (ran_ids l) \<subseteq> tr_call_id ` set (as_results s) \<and>
     list_all (\<lambda>q. answered (mq_messages q)) (requests l)"

lemma tally_log_ok: "tally b s l \<Longrightarrow> log_ok b l"
  by (auto simp: tally_def log_ok_def in_budget_def)

lemma log_ok_quiet: "quiet_notes ns \<Longrightarrow> log_ok b (l @ ns) \<longleftrightarrow> log_ok b l"
  by (simp add: log_ok_def quiet_notes_def)

lemma tally_quiet: "quiet_notes ns \<Longrightarrow> tally b s (l @ ns) \<longleftrightarrow> tally b s l"
  by (simp add: tally_def quiet_notes_def)

text \<open>A batch of calls that is being answered: the next call is the first without a result.\<close>

definition open_batch :: "agent_state \<Rightarrow> bool" where
  "open_batch s \<longleftrightarrow>
     as_next s \<le> length (as_pending s) \<and>
     (\<exists>pre c rs. as_messages s = pre @ AssistantMessage c (as_pending s) # rs \<and> answered pre \<and>
        map result_id rs = map (\<lambda>c. Some (tc_id c)) (take (as_next s) (as_pending s))) \<and>
     distinct (map tc_id (as_pending s)) \<and>
     set (map tc_id (drop (as_next s) (as_pending s))) \<inter> tr_call_id ` set (as_results s) = {}"

definition at_node :: "node \<Rightarrow> agent_state \<Rightarrow> bool" where
  "at_node n s \<longleftrightarrow>
     (case n of
        PREPARE \<Rightarrow> answered (as_messages s) \<and> as_pending s = []
      | COMPRESS \<Rightarrow> answered (as_messages s) \<and> length (as_pending s) \<le> as_next s
      | CALL_MODEL \<Rightarrow> answered (as_messages s) \<and> length (as_pending s) \<le> as_next s \<and> \<not> as_compression_requested s
      | EXECUTE_TOOL \<Rightarrow> open_batch s \<and> as_next s < length (as_pending s) \<and> \<not> as_compression_requested s
      | FINALIZE \<Rightarrow> True)"

lemma open_batch_answered: "open_batch s \<Longrightarrow> as_next s = length (as_pending s) \<Longrightarrow> answered (as_messages s)"
  using answered_batch by (auto simp: open_batch_def)

section \<open>The services of a turn\<close>

locale agent_services =
  fixes w :: agent_world
  assumes built_answered: "aw_builder w s = Inr p \<Longrightarrow> answered (pc_messages p)"
    and compressed_answered: "answered (as_messages s) \<Longrightarrow> aw_compressor w i s n = Inr r \<Longrightarrow> cr_completed r \<Longrightarrow>
      cr_prepared r = Some p \<Longrightarrow> answered (pc_messages p)"
    and compressed_bounded: "aw_compressor w i s n = Inr r \<Longrightarrow> cr_attempted r \<Longrightarrow> mu_retries (cr_usage r) \<le> n"
    and executed_call: "aw_execute w i s q = Inr (result, web) \<Longrightarrow> tr_call_id result = rq_call_id q"
begin

abbreviation b :: turn_budget where
  "b \<equiv> aw_budget w"

text \<open>Where a node may leave the turn.\<close>

definition leaves :: "node \<Rightarrow> agent_state \<Rightarrow> agent_note list \<Rightarrow> bool" where
  "leaves n s l \<longleftrightarrow> tally b s l \<and> (\<forall>n'. next_node n s = Some n' \<longrightarrow> at_node n' s)"

lemma with_prepared_simps [simp]:
  "as_model_calls (with_prepared p s) = as_model_calls s" "as_tool_calls (with_prepared p s) = as_tool_calls s"
  "as_retries (with_prepared p s) = as_retries s" "as_compressions (with_prepared p s) = as_compressions s"
  "as_results (with_prepared p s) = as_results s" "as_pending (with_prepared p s) = as_pending s"
  "as_next (with_prepared p s) = as_next s" "as_messages (with_prepared p s) = pc_messages p"
  "as_compression_requested (with_prepared p s) = as_compression_requested s"
  "as_termination (with_prepared p s) = as_termination s"
  by (simp_all add: with_prepared_def)

lemma prepare_context_ok:
  assumes "prepare_context w s l = (r, l')" and "tally b s l" and "at_node PREPARE s"
  shows "case r of Inl e \<Rightarrow> log_ok b l' | Inr s' \<Rightarrow> leaves PREPARE s' l'"
proof (cases "as_messages s = []")
  case False
  with assms show ?thesis
    by (auto simp: prepare_context_def leaves_def next_node_def route_after_prepare_def at_node_def)
next
  case True
  show ?thesis
  proof (cases "aw_builder w s")
    case (Inl e)
    with assms True tally_log_ok show ?thesis
      by (auto simp: prepare_context_def ask_def)
  next
    case (Inr p)
    with assms True built_answered [OF Inr] show ?thesis
      by (auto simp: prepare_context_def ask_def log_notes_def leaves_def next_node_def route_after_prepare_def at_node_def
          tally_def in_budget_def with_prepared_def split: if_splits)
  qed
qed

lemma skip_compression_ok:
  assumes "skip_compression reason warning s l = (r, l')" and "tally b s l" and "at_node COMPRESS s"
  shows "case r of Inl e \<Rightarrow> log_ok b l' | Inr s' \<Rightarrow> leaves COMPRESS s' l'"
  using assms
  by (auto simp: skip_compression_def log_notes_def leaves_def next_node_def route_after_compression_def at_node_def
      tally_def in_budget_def compression_done_def split: if_splits)

lemma charge_attempted_simps [simp]:
  "as_tool_calls (charge_attempted result s) = as_tool_calls s" "as_results (charge_attempted result s) = as_results s"
  "as_pending (charge_attempted result s) = as_pending s" "as_next (charge_attempted result s) = as_next s"
  "as_messages (charge_attempted result s) = as_messages s"
  by (simp_all add: charge_attempted_def charge_model_attempt_def charge_compression_def Let_def)

lemma compression_done_simps [simp]:
  "as_model_calls (compression_done s) = as_model_calls s" "as_tool_calls (compression_done s) = as_tool_calls s"
  "as_retries (compression_done s) = as_retries s" "as_compressions (compression_done s) = as_compressions s"
  "as_results (compression_done s) = as_results s" "as_pending (compression_done s) = as_pending s"
  "as_next (compression_done s) = as_next s" "as_messages (compression_done s) = as_messages s"
  "\<not> as_compression_requested (compression_done s)"
  by (simp_all add: compression_done_def)

lemma charge_attempted_tally:
  assumes "tally b s l" and "\<not> int (tb_model_calls b) - 1 \<le> int (as_model_calls s)"
    and "\<not> tb_compressions b \<le> as_compressions s" and "cr_attempted result \<Longrightarrow> mu_retries (cr_usage result) \<le> compression_retries b s"
  shows "tally b (charge_attempted result s) l"
  using assms
  by (auto simp: tally_def in_budget_def charge_attempted_def charge_model_attempt_def charge_compression_def
      compression_retries_def Let_def)

lemma tally_done [simp]: "tally b (compression_done s) l \<longleftrightarrow> tally b s l"
  by (simp add: tally_def in_budget_def)

lemma tally_prepared [simp]: "tally b (with_prepared p s) l \<longleftrightarrow> tally b s l"
  by (simp add: tally_def in_budget_def)

lemma tally_termination [simp]: "tally b (s\<lparr>as_termination := t\<rparr>) l \<longleftrightarrow> tally b s l"
  by (simp add: tally_def in_budget_def)

lemma compress_context_ok:
  assumes run: "compress_context w i s l = (r, l')" and t: "tally b s l" and at: "at_node COMPRESS s"
  shows "case r of Inl e \<Rightarrow> log_ok b l' | Inr s' \<Rightarrow> leaves COMPRESS s' l'"
proof (cases "int (tb_model_calls b) - 1 \<le> int (as_model_calls s) \<or> tb_compressions b \<le> as_compressions s")
  case True
  then obtain warning where "skip_compression (compression_reason s) warning s l = (r, l')"
    using run by (auto simp: compress_context_def Let_def split: if_splits)
  from skip_compression_ok [OF this t at] show ?thesis .
next
  case False
  show ?thesis
  proof (cases "aw_compressor w i s (compression_retries b s)")
    case (Inl e)
    with run False tally_log_ok [OF t] show ?thesis by (auto simp: compress_context_def Let_def ask_def)
  next
    case (Inr result)
    define s1 where "s1 = compression_done (charge_attempted result s)"
    have t1: "tally b s1 l"
      using charge_attempted_tally [OF t, of result] False compressed_bounded [OF Inr] by (auto simp: s1_def)
    have p1: "as_pending s1 = as_pending s" "as_next s1 = as_next s" "as_messages s1 = as_messages s" "\<not> as_compression_requested s1"
      by (simp_all add: s1_def)
    have quiet: "tally b s1 (l @ ns)" if "quiet_notes ns" for ns
      using t1 tally_quiet [OF that] by simp
    let ?p = "if cr_completed result then cr_prepared result else None"
    show ?thesis
    proof (cases ?p)
      case (Some p)
      moreover have "answered (as_messages s)" using at by (simp add: at_node_def)
      ultimately have "answered (pc_messages p)" using compressed_answered [OF _ Inr] by (auto split: if_splits)
      moreover have "r = Inr (with_prepared p s1)" "l' = l @ [SnapshotRecorded (pc_manifest p), ContextProjected (length (pc_manifest p)) (pc_tokens p) True]"
        using run False Inr Some by (auto simp: compress_context_def Let_def ask_def log_notes_def s1_def)
      ultimately show ?thesis
        using quiet [of "[SnapshotRecorded (pc_manifest p), ContextProjected (length (pc_manifest p)) (pc_tokens p) True]"] at p1
        by (auto simp: leaves_def next_node_def route_after_compression_def at_node_def quiet_notes_def)
    next
      case None
      have "(\<exists>code. r = Inr s1 \<and> l' = l @ [Warned code]) \<or> (r = Inr (s1\<lparr>as_termination := Some ''context_unrecoverable''\<rparr>) \<and> l' = l)"
        using run False Inr None
        by (auto simp: compress_context_def Let_def ask_def log_notes_def s1_def [symmetric] split: if_splits option.splits)
      then show ?thesis
        using quiet [of "[Warned _]"] t1 at p1
        by (auto simp: leaves_def next_node_def route_after_compression_def at_node_def quiet_notes_def)
    qed
  qed
qed

end

section \<open>One model request keeps the invariants\<close>

lemma consume_stream_spends:
  "consume_stream b es v = (v', blocked) \<Longrightarrow> in_budget b (sv_state v) \<Longrightarrow>
     \<exists>m r. sv_state v' = (sv_state v)\<lparr>as_model_calls := m, as_retries := r\<rparr> \<and>
       as_model_calls (sv_state v) \<le> m \<and> m \<le> tb_model_calls b \<and> r \<le> tb_retries b"
proof (induction es arbitrary: v)
  case Nil
  then show ?case
    by (intro exI [of _ "as_model_calls (sv_state v)"] exI [of _ "as_retries (sv_state v)"]) (auto simp: in_budget_def)
next
  case (Cons e es)
  show ?case
  proof (cases e)
    case (StreamEvent ev)
    define v1 where "v1 = v\<lparr>sv_projected := sv_projected v @ [e]\<rparr>"
    define v2 where "v2 = (case ev of TextDelta t \<Rightarrow> v1\<lparr>sv_text := sv_text v1 @ [t]\<rparr>
              | TurnCompleted turn \<Rightarrow> v1\<lparr>sv_completed := sv_completed v1 @ [turn]\<rparr>
              | TurnFailed info \<Rightarrow> v1\<lparr>sv_failure := Some info\<rparr> | _ \<Rightarrow> v1)"
    have "sv_state v2 = sv_state v" by (simp add: v2_def v1_def split: stream_event.split)
    moreover have "consume_stream b es v2 = (v', blocked)"
      using Cons.prems(1) unfolding StreamEvent v2_def v1_def consume_stream.simps gateway_event.case Let_def .
    ultimately show ?thesis using Cons.IH [of v2] Cons.prems(2) by simp
  next
    case (ProviderRetrying a m d c)
    show ?thesis
    proof (cases "tb_model_calls b \<le> as_model_calls (sv_state v) \<or> tb_retries b \<le> as_retries (sv_state v)")
      case True
      then have "v' = v" using Cons.prems(1) by (auto simp: ProviderRetrying split: if_splits)
      with Cons.prems(2) show ?thesis
        by (intro exI [of _ "as_model_calls (sv_state v)"] exI [of _ "as_retries (sv_state v)"]) (auto simp: in_budget_def)
    next
      case False
      define v1 where "v1 = v\<lparr>sv_state := charge_provider_retry (sv_state v), sv_retries := sv_retries v + 1,
                 sv_projected := sv_projected v @ [e]\<rparr>"
      have "consume_stream b es v1 = (v', blocked)"
        using Cons.prems(1) False by (simp add: ProviderRetrying v1_def [unfolded ProviderRetrying])
      moreover have "in_budget b (sv_state v1)"
        using Cons.prems(2) False by (auto simp: v1_def in_budget_def charge_provider_retry_def)
      ultimately obtain m r where "sv_state v' = (sv_state v1)\<lparr>as_model_calls := m, as_retries := r\<rparr>"
        "as_model_calls (sv_state v1) \<le> m" "m \<le> tb_model_calls b" "r \<le> tb_retries b"
        using Cons.IH [of v1] by auto
      then show ?thesis
        by (intro exI [of _ m] exI [of _ r]) (simp add: v1_def charge_provider_retry_def)
    qed
  qed
qed

lemma call_decision_allowed: "bd_allowed (call_decision b t s) \<Longrightarrow> as_model_calls s < tb_model_calls b"
  by (auto simp: call_decision_def model_call_decision_def split: if_splits)

text \<open>What settling a call changes.\<close>

lemma fail_call_simps [simp]:
  "as_model_calls (fail_call reason v s) = as_model_calls s" "as_tool_calls (fail_call reason v s) = as_tool_calls s"
  "as_retries (fail_call reason v s) = as_retries s" "as_compressions (fail_call reason v s) = as_compressions s"
  "as_results (fail_call reason v s) = as_results s" "as_pending (fail_call reason v s) = as_pending s"
  "as_next (fail_call reason v s) = as_next s" "as_messages (fail_call reason v s) = as_messages s"
  "as_compression_requested (fail_call reason v s) = as_compression_requested s"
  "as_termination (fail_call reason v s) = Some reason"
  by (simp_all add: fail_call_def)

lemma accept_turn_simps [simp]:
  "as_model_calls (accept_turn w reserved turn v s) = as_model_calls s"
  "as_tool_calls (accept_turn w reserved turn v s) = as_tool_calls s"
  "as_retries (accept_turn w reserved turn v s) = as_retries s"
  "as_compressions (accept_turn w reserved turn v s) = as_compressions s"
  "as_results (accept_turn w reserved turn v s) = as_results s"
  "as_next (accept_turn w reserved turn v s) = 0"
  "as_pending (accept_turn w reserved turn v s) = (if reserved then [] else mt_tool_calls turn)"
  "as_messages (accept_turn w reserved turn v s) = as_messages s @ [AssistantMessage (mt_content turn) (mt_tool_calls turn)]"
  "as_compression_requested (accept_turn w reserved turn v s) = as_compression_requested s"
  by (simp_all add: accept_turn_def Let_def)

lemma settle_call_tally: "tally b (settle_call w reserved blocked v s) l \<longleftrightarrow> tally b s l"
  by (auto simp: settle_call_def tally_def in_budget_def split: option.split list.split)

lemma settle_call_cases:
  obtains (failed) reason where "settle_call w reserved blocked v s = fail_call reason v s"
  | (too_long) "settle_call w reserved blocked v s =
      s\<lparr>as_compression_requested := True, as_compression_reason := Some ''context_length'', as_termination := None\<rparr>"
  | (accepted) turn where "settle_call w reserved blocked v s = accept_turn w reserved turn v s"
      "sv_completed v = [turn]" "dispatchable_and_fresh (mt_tool_calls turn) (as_results s)"
proof (cases blocked)
  case (Some reason)
  then show ?thesis by (intro failed [of reason]) (simp add: settle_call_def)
next
  case None
  note blocked = None
  show ?thesis
  proof (cases "sv_failure v")
    case (Some info)
    show ?thesis
    proof (cases "me_code info = CONTEXT_LENGTH")
      case True
      then show ?thesis by (intro too_long) (simp add: settle_call_def blocked Some)
    next
      case False
      then show ?thesis
        by (intro failed [of "''model_'' @ error_value (me_code info)"]) (simp add: settle_call_def blocked Some)
    qed
  next
    case None
    show ?thesis
    proof (cases "\<exists>turn. sv_completed v = [turn] \<and> mu_retries (mt_usage turn) = sv_retries v \<and>
        dispatchable_and_fresh (mt_tool_calls turn) (as_results s)")
      case True
      then obtain turn where "sv_completed v = [turn]" "mu_retries (mt_usage turn) = sv_retries v"
        "dispatchable_and_fresh (mt_tool_calls turn) (as_results s)" by blast
      then show ?thesis by (intro accepted [of turn]) (simp_all add: settle_call_def blocked None)
    next
      case False
      then have "settle_call w reserved blocked v s = fail_call ''model_provider_protocol'' v s"
        by (auto simp: settle_call_def blocked None split: list.split)
      then show ?thesis by (rule failed)
    qed
  qed
qed

lemma settle_call_route:
  assumes "answered (as_messages s)" and "as_pending s = []" and "as_next s = 0" and "\<not> as_compression_requested s"
  shows "at_node (route_after_model (settle_call w reserved blocked v s)) (settle_call w reserved blocked v s)"
proof (cases rule: settle_call_cases [of w reserved blocked v s])
  case (failed reason)
  with assms show ?thesis by (simp add: route_after_model_def at_node_def)
next
  case too_long
  with assms show ?thesis by (simp add: route_after_model_def at_node_def)
next
  case (accepted turn)
  have "open_batch (accept_turn w reserved turn v s)" if "\<not> reserved"
    unfolding open_batch_def
    using assms(1) accepted(3) that by (auto simp: dispatchable_and_fresh_def)
  then show ?thesis
    unfolding accepted(1) using assms by (auto simp: route_after_model_def at_node_def)
qed

context agent_services
begin

lemma stream_call_ok:
  assumes run: "stream_call w i reserved q s l = (r, l')"
    and t: "tally b s l0" and l: "l = l0 @ [Requested q]" and room: "as_model_calls s < tb_model_calls b"
    and q: "answered (mq_messages q)"
    and s: "answered (as_messages s)" "as_pending s = []" "as_next s = 0" "\<not> as_compression_requested s"
  shows "case r of Inl e \<Rightarrow> log_ok b l' | Inr s' \<Rightarrow> leaves CALL_MODEL s' l' \<and> as_model_calls s < as_model_calls s'"
proof -
  obtain events raised where g: "aw_gateway w i (as_model s) q = (events, raised)" by fastforce
  define v where "v = \<lparr>sv_state = charge_model_attempt 0 s, sv_completed = [], sv_failure = None, sv_text = [], sv_retries = 0,
                sv_projected = []\<rparr>"
  obtain v0 blocked where c: "consume_stream b events v = (v0, blocked)" by fastforce
  define v1 where "v1 = (if blocked = None \<and> raised \<noteq> None then v0\<lparr>sv_failure := raised\<rparr> else v0)"
  have same: "sv_state v1 = sv_state v0" by (simp add: v1_def)
  have "in_budget b (sv_state v)"
    using t room by (auto simp: v_def tally_def in_budget_def charge_model_attempt_def)
  from consume_stream_spends [OF c this] obtain m n where
    v0: "sv_state v0 = (charge_model_attempt 0 s)\<lparr>as_model_calls := m, as_retries := n\<rparr>"
    "as_model_calls s + 1 \<le> m" "m \<le> tb_model_calls b" "n \<le> tb_retries b"
    by (auto simp: v_def charge_model_attempt_def)
  define projected where "projected = map GatewayProjected (sv_projected v1)"
  have run': "andthen (log_notes (map GatewayProjected (sv_projected v1)))
      (sbind (add_active_segment (aw_clock w i) (sv_state v1)) (\<lambda>s'. ret (settle_call w reserved blocked v1 s'))) l = (r, l')"
    using run unfolding stream_call_def g prod.case v_def [symmetric] c Let_def v1_def [symmetric] .
  have l': "l' = l @ projected"
    and r: "r = Inl (AgentRaises (ServiceRaises ''monotonic segment end cannot precede start'')) \<or>
      (\<exists>x. r = Inr (settle_call w reserved blocked v1 ((sv_state v0)\<lparr>as_active_seconds := x\<rparr>)))"
    using run' by (auto simp: log_notes_def projected_def add_active_segment_def same split: if_splits)
  have tally': "tally b ((sv_state v0)\<lparr>as_active_seconds := x\<rparr>) l'" for x
    using t q v0 by (auto simp: l' l projected_def tally_def in_budget_def charge_model_attempt_def)
  show ?thesis
  proof (cases r)
    case (Inl e)
    with tally_log_ok [OF tally'] show ?thesis by simp
  next
    case (Inr s')
    then obtain x where x: "s' = settle_call w reserved blocked v1 ((sv_state v0)\<lparr>as_active_seconds := x\<rparr>)" using r by auto
    let ?s = "(sv_state v0)\<lparr>as_active_seconds := x\<rparr>"
    have "at_node (route_after_model s') s'"
      unfolding x by (rule settle_call_route) (simp_all add: v0 s charge_model_attempt_def)
    moreover have "tally b s' l'" unfolding x settle_call_tally by (rule tally')
    moreover have "as_model_calls s' = as_model_calls ?s"
      unfolding x by (auto simp: settle_call_def split: option.split list.split)
    ultimately show ?thesis
      using v0 Inr by (simp add: leaves_def next_node_def)
  qed
qed

lemma call_model_ok:
  assumes run: "call_model w i s0 l = (r, l')" and t: "tally b s0 l" and at: "at_node CALL_MODEL s0"
  shows "case r of Inl e \<Rightarrow> log_ok b l'
    | Inr s' \<Rightarrow> leaves CALL_MODEL s' l' \<and>
        (as_model_calls s0 < as_model_calls s' \<or> (as_model_calls s' = as_model_calls s0 \<and> route_after_model s' = FINALIZE))"
proof -
  define s where "s = drop_finished_calls s0"
  have s: "answered (as_messages s)" "as_pending s = []" "as_next s = 0" "\<not> as_compression_requested s"
    "as_model_calls s = as_model_calls s0"
    using at by (auto simp: s_def drop_finished_calls_def at_node_def)
  have ts: "tally b s l" using t by (simp add: s_def drop_finished_calls_def tally_def in_budget_def)
  define decision where "decision = call_decision b (aw_catalog w i \<noteq> []) s"
  show ?thesis
  proof (cases "bd_allowed decision")
    case False
    then obtain reason where "r = Inr (s\<lparr>as_termination := Some reason\<rparr>)" "l' = l"
      using run by (auto simp: call_model_def Let_def s_def [symmetric] decision_def [symmetric] split: option.splits)
    with ts s show ?thesis
      by (auto simp: leaves_def next_node_def route_after_model_def at_node_def)
  next
    case True
    define s1 where "s1 = (if bd_reserved_final decision
                     then s\<lparr>as_termination := (case loop_exhaustion s b of Some r \<Rightarrow> Some r | None \<Rightarrow> Some ''budget_final_response'')\<rparr>
                     else s)"
    define q where "q = request_of s1 (if bd_tools_enabled decision then map tool_definition_of (aw_catalog w i) else [])"
    have s1: "answered (as_messages s1)" "as_pending s1 = []" "as_next s1 = 0" "\<not> as_compression_requested s1"
      "as_model_calls s1 = as_model_calls s0"
      using s by (simp_all add: s1_def)
    have t1: "tally b s1 l" using ts by (simp add: s1_def)
    have run': "andthen (guard_else (valid_model_request q) (AgentRaises (ServiceRaises ''ValidationError'')))
             (andthen (log_notes [Requested q]) (stream_call w i (bd_reserved_final decision) q s1)) l = (r, l')"
      using run True by (simp add: call_model_def Let_def s_def [symmetric] decision_def [symmetric] s1_def [symmetric] q_def [symmetric])
    show ?thesis
    proof (cases "valid_model_request q")
      case False
      with run' tally_log_ok [OF ts] show ?thesis by auto
    next
      case valid: True
      then have "stream_call w i (bd_reserved_final decision) q s1 (l @ [Requested q]) = (r, l')"
        using run' by (simp add: log_notes_def)
      from stream_call_ok [OF this t1 refl _ _ s1(1-4)] s1 call_decision_allowed [OF True [unfolded decision_def]] s
      show ?thesis by (auto simp: q_def request_of_def split: sum.splits)
    qed
  qed
qed

end

section \<open>One tool call keeps the invariants\<close>

lemma open_batch_step:
  assumes "open_batch s" and "as_next s < length (as_pending s)" and "tr_call_id result = tc_id (as_pending s ! as_next s)"
    and "as_messages s' = as_messages s @ [ToolResultMessage (tr_call_id result) x y]" and "as_pending s' = as_pending s"
    and "as_next s' = as_next s + 1" and "as_results s' = as_results s @ [result]"
  shows "open_batch s'"
proof -
  obtain pre c rs where m: "as_messages s = pre @ AssistantMessage c (as_pending s) # rs" "answered pre"
    "map result_id rs = map (\<lambda>c. Some (tc_id c)) (take (as_next s) (as_pending s))"
    using assms(1) by (auto simp: open_batch_def)
  have d: "distinct (map tc_id (as_pending s))"
    and disj: "set (map tc_id (drop (as_next s) (as_pending s))) \<inter> tr_call_id ` set (as_results s) = {}"
    using assms(1) by (auto simp: open_batch_def)
  have split: "drop (as_next s) (as_pending s) = as_pending s ! as_next s # drop (as_next s + 1) (as_pending s)"
    using assms(2) by (simp add: Cons_nth_drop_Suc)
  have "distinct (map tc_id (drop (as_next s) (as_pending s)))"
    using d by (simp flip: drop_map)
  then have "set (map tc_id (drop (as_next s + 1) (as_pending s))) \<inter> tr_call_id ` set (as_results s @ [result]) = {}"
    using disj assms(3) unfolding split by auto
  moreover have "map result_id (rs @ [ToolResultMessage (tr_call_id result) x y]) =
      map (\<lambda>c. Some (tc_id c)) (take (as_next s + 1) (as_pending s))"
    using m(3) assms(2,3) by (simp add: take_Suc_conv_app_nth)
  moreover have "as_messages s' = pre @ AssistantMessage c (as_pending s) # (rs @ [ToolResultMessage (tr_call_id result) x y])"
    using m(1) assms(4) by simp
  ultimately have "\<exists>pre c rs. as_messages s' = pre @ AssistantMessage c (as_pending s) # rs \<and> answered pre \<and>
        map result_id rs = map (\<lambda>c. Some (tc_id c)) (take (as_next s + 1) (as_pending s))"
    and "set (map tc_id (drop (as_next s + 1) (as_pending s))) \<inter> tr_call_id ` set (as_results s @ [result]) = {}"
    using m(2) by blast+
  then show ?thesis
    unfolding open_batch_def assms(5-7) using d assms(2) by simp
qed

definition noting :: "tool_result \<Rightarrow> agent_state \<Rightarrow> agent_state" where
  "noting result s = s\<lparr>as_results := as_results s @ [result]\<rparr>"

context agent_services
begin

lemma record_result_ok:
  assumes run: "record_result w result s l = (r, l')" and t: "tally b (noting result s) l" and open_s: "open_batch s"
    and at: "as_next s < length (as_pending s)" "\<not> as_compression_requested s"
    and id: "tr_call_id result = tc_id (as_pending s ! as_next s)"
  shows "case r of Inl e \<Rightarrow> log_ok b l' | Inr s' \<Rightarrow> leaves EXECUTE_TOOL s' l' \<and> as_model_calls s' = as_model_calls s \<and>
      as_pending s' = as_pending s \<and> as_next s' = as_next s + 1"
proof (cases "collect_tool_citations (as_results s @ [result])")
  case (Inl e)
  with run tally_log_ok [OF t] show ?thesis by (auto simp: record_result_def Let_def)
next
  case (Inr citations)
  define message where "message = ToolResultMessage (tr_call_id result) (tr_content result) (tr_status result = ERROR)"
  define s' where "s' = s\<lparr>as_results := as_results s @ [result], as_citations := citations, as_messages := as_messages s @ [message],
                    as_estimated_tokens := as_estimated_tokens s + aw_estimate w message, as_next := as_next s + 1\<rparr>"
  have r: "r = Inr s'" "l' = l"
    using run Inr by (auto simp: record_result_def Let_def s'_def message_def)
  have "open_batch s'"
    by (rule open_batch_step [OF open_s at(1) id]) (simp_all add: s'_def message_def)
  moreover have "tally b s' l" using t by (simp add: s'_def noting_def tally_def in_budget_def)
  moreover have "answered (as_messages s')" if "\<not> as_next s' < length (as_pending s')"
    using open_batch_answered [OF \<open>open_batch s'\<close>] that at(1) by (simp add: s'_def)
  moreover have "\<not> as_compression_requested s'" "as_pending s' = as_pending s" "as_next s' = as_next s + 1"
    "as_model_calls s' = as_model_calls s"
    using at(2) by (simp_all add: s'_def)
  ultimately show ?thesis
    by (auto simp: r leaves_def next_node_def route_after_tool_def at_node_def)
qed

lemma ready_call:
  assumes "at_node EXECUTE_TOOL s" and "tally b s l" and "loop_exhaustion s b = None"
  shows "tc_id (as_pending s ! as_next s) \<notin> set (ran_ids l)" and "as_tool_calls s < tb_tool_calls b"
proof -
  have o: "open_batch s" "as_next s < length (as_pending s)" using assms(1) by (auto simp: at_node_def)
  then have "tc_id (as_pending s ! as_next s) \<in> set (map tc_id (drop (as_next s) (as_pending s)))"
    by (auto simp flip: Cons_nth_drop_Suc)
  then have "tc_id (as_pending s ! as_next s) \<notin> tr_call_id ` set (as_results s)"
    using o(1) by (auto simp: open_batch_def)
  then show "tc_id (as_pending s ! as_next s) \<notin> set (ran_ids l)" using assms(2) by (auto simp: tally_def)
  show "as_tool_calls s < tb_tool_calls b" using assms(3) by (auto simp: loop_exhaustion_def split: if_splits)
qed

lemma refused_id [simp]: "tr_call_id (refused_result call code metadata message) = tc_id call"
  by (simp add: refused_result_def)

lemma run_tool_ok:
  assumes run: "run_tool w i call (charge_tool_call s) l = (r, l')" and t: "tally b s l"
    and new: "tc_id call \<notin> set (ran_ids l)" "as_tool_calls s < tb_tool_calls b"
  shows "case r of Inl e \<Rightarrow> log_ok b l'
    | Inr (s', result) \<Rightarrow> tally b (noting result s') l' \<and> tr_call_id result = tc_id call \<and>
        (\<exists>web x. s' = s\<lparr>as_tool_calls := as_tool_calls s + 1, as_web_requests := web, as_active_seconds := x\<rparr>)"
proof (cases "\<exists>arguments. aw_loads w (tc_arguments call) = Some (JObject arguments)")
  case False
  then have r: "r = Inr (charge_tool_call s, refused_result call INVALID_ARGUMENTS [] ''Tool arguments must be a JSON object.'')" "l' = l"
    using run by (auto simp: run_tool_def split: option.splits json.splits)
  have "\<exists>web x. charge_tool_call s = s\<lparr>as_tool_calls := as_tool_calls s + 1, as_web_requests := web, as_active_seconds := x\<rparr>"
    by (intro exI [of _ "as_web_requests s"] exI [of _ "as_active_seconds s"]) (simp add: charge_tool_call_def)
  then show ?thesis
    using t new(2) by (auto simp: r tally_def in_budget_def noting_def charge_tool_call_def)
next
  case True
  then obtain arguments where args: "aw_loads w (tc_arguments call) = Some (JObject arguments)" by blast
  define q where "q = \<lparr>rq_call_id = tc_id call, rq_tool_name = tc_name call, rq_arguments = arguments\<rparr>"
  show ?thesis
  proof (cases "valid_request (tc_id call) (tc_name call)")
    case False
    with run args tally_log_ok [OF t] show ?thesis by (auto simp: run_tool_def)
  next
    case valid: True
    have ids: "rq_call_id q = tc_id call" by (simp add: q_def)
    have log: "log_ok b (l @ [ToolRan q])"
      using t new by (auto simp: log_ok_def tally_def in_budget_def ids)
    show ?thesis
    proof (cases "aw_execute w i (charge_tool_call s) q")
      case (Inl e)
      with run args valid log show ?thesis
        by (auto simp: run_tool_def Let_def q_def [symmetric] log_notes_def ask_def)
    next
      case (Inr rw)
      then obtain result web where rw: "aw_execute w i (charge_tool_call s) q = Inr (result, web)" by (cases rw) auto
      have id: "tr_call_id result = tc_id call" using executed_call [OF rw] by (simp add: q_def)
      have r: "l' = l @ [ToolRan q]" "r = Inl (AgentRaises (ServiceRaises ''monotonic segment end cannot precede start'')) \<or>
          (\<exists>x. r = Inr (s\<lparr>as_tool_calls := as_tool_calls s + 1, as_web_requests := web, as_active_seconds := x\<rparr>, result))"
        using run args valid rw
        by (auto simp: run_tool_def Let_def q_def [symmetric] log_notes_def ask_def add_active_segment_def charge_tool_call_def
            split: if_splits)
      have "tally b (noting result (s\<lparr>as_tool_calls := as_tool_calls s + 1, as_web_requests := web, as_active_seconds := x\<rparr>)) l'" for x
        using t new id by (auto simp: r(1) tally_def in_budget_def noting_def ids)
      moreover have "\<exists>web' x'. s\<lparr>as_tool_calls := n, as_web_requests := web, as_active_seconds := x\<rparr> =
          s\<lparr>as_tool_calls := n, as_web_requests := web', as_active_seconds := x'\<rparr>" for n x by blast
      ultimately show ?thesis using r log id by auto
    qed
  qed
qed

lemma execute_one_tool_ok:
  assumes run: "execute_one_tool w i s l = (r, l')" and t: "tally b s l" and at: "at_node EXECUTE_TOOL s"
  shows "case r of Inl e \<Rightarrow> log_ok b l' | Inr s' \<Rightarrow> leaves EXECUTE_TOOL s' l' \<and> as_model_calls s' = as_model_calls s \<and>
      as_pending s' = as_pending s \<and> as_next s' = as_next s + 1"
proof -
  have o: "open_batch s" "as_next s < length (as_pending s)" "\<not> as_compression_requested s"
    using at by (auto simp: at_node_def)
  define call where "call = as_pending s ! as_next s"
  show ?thesis
  proof (cases "loop_exhaustion s b")
    case (Some reason)
    then have run': "record_result w (not_executed call reason) (s\<lparr>as_termination := Some reason\<rparr>) l = (r, l')"
      using run o by (auto simp: execute_one_tool_def call_def)
    have "tally b (noting (not_executed call reason) (s\<lparr>as_termination := Some reason\<rparr>)) l"
      using t by (auto simp: tally_def in_budget_def noting_def)
    from record_result_ok [OF run' this] o show ?thesis
      by (cases r) (simp_all add: open_batch_def call_def not_executed_def)
  next
    case None
    obtain q l1 where q: "run_tool w i call (charge_tool_call s) l = (q, l1)" by fastforce
    note tool = run_tool_ok [OF q t ready_call [OF at t None, folded call_def]]
    show ?thesis
    proof (cases q)
      case (Inl e)
      then have "r = Inl e" "l' = l1"
        using run o None q by (auto simp: execute_one_tool_def call_def sbind_def)
      with tool Inl show ?thesis by simp
    next
      case (Inr sr)
      then obtain s' result where sr: "q = Inr (s', result)" by (cases sr) auto
      then have run': "record_result w result s' l1 = (r, l')"
        using run o None q by (auto simp: execute_one_tool_def call_def sbind_def)
      obtain web x where s': "s' = s\<lparr>as_tool_calls := as_tool_calls s + 1, as_web_requests := web, as_active_seconds := x\<rparr>"
        and t': "tally b (noting result s') l1" and id: "tr_call_id result = tc_id call"
        using tool sr by auto
      have "open_batch s'" using o(1) by (simp add: s' open_batch_def)
      from record_result_ok [OF run' t' this] o id show ?thesis by (cases r) (simp_all add: s' call_def)
    qed
  qed
qed

end

section \<open>The answer keeps the invariants\<close>

lemma mark_completed_simps [simp]:
  "tally b (mark_completed s) l \<longleftrightarrow> tally b s l" "as_model_calls (mark_completed s) = as_model_calls s"
  by (simp_all add: mark_completed_def tally_def in_budget_def)

lemma final_result_in_budget:
  assumes "in_budget b s" and "fr_model_calls q \<le> tb_model_calls b - as_model_calls s" and "fr_retries q \<le> tb_retries b - as_retries s"
    and "valid_final_result q r"
  shows "in_budget b (apply_final_result r s)"
  using assms by (auto simp: in_budget_def apply_final_result_def charge_model_attempt_def valid_final_result_def Let_def)

lemma apply_final_result_tally:
  assumes "tally b s l" and "in_budget b (apply_final_result r s)"
  shows "tally b (apply_final_result r s) l"
  using assms by (auto simp: tally_def apply_final_result_def charge_model_attempt_def Let_def)

lemma finalize_answer_ok:
  assumes run: "finalize_answer w i q s l = (r, l')" and t: "tally (aw_budget w) s l"
    and q: "q = final_request_of w s answer citations"
  shows "case r of Inl e \<Rightarrow> log_ok (aw_budget w) l' | Inr s' \<Rightarrow> tally (aw_budget w) s' l'"
proof (cases "\<exists>f. aw_finalizer w i q = FINAL_RETURNS (Some f) \<and> valid_final_result q f")
  case True
  then obtain f where f: "aw_finalizer w i q = FINAL_RETURNS (Some f)" "valid_final_result q f" by blast
  have "in_budget (aw_budget w) (apply_final_result f s)"
    by (rule final_result_in_budget [OF _ _ _ f(2)])
      (use t in \<open>auto simp: q final_request_of_def Let_def tally_def\<close>)
  then have "tally (aw_budget w) (apply_final_result f s) l" by (rule apply_final_result_tally [OF t])
  then have "tally (aw_budget w) (apply_final_result f s) (l @ map (\<lambda>(code, _). Warned code) (fs_diagnostics f))"
    by (subst tally_quiet) (simp_all add: quiet_notes_def)
  with run f show ?thesis by (auto simp: finalize_answer_def log_notes_def)
next
  case False
  have "tally (aw_budget w) s (l @ [Warned ''answer_finalization_failed''])"
    using t by (subst tally_quiet) (simp_all add: quiet_notes_def)
  with run False tally_log_ok [OF t] show ?thesis
    by (auto simp: finalize_answer_def log_notes_def split: final_outcome.splits option.splits if_splits)
qed

lemma cite_answer_ok:
  assumes run: "cite_answer citations s l = (r, l')" and t: "tally b s l"
  shows "case r of Inl e \<Rightarrow> log_ok b l' | Inr s' \<Rightarrow> tally b s' l'"
proof (cases "as_answer s")
  case None
  with run tally_log_ok [OF t] show ?thesis by (auto simp: cite_answer_def)
next
  case (Some answer)
  obtain validated codes where v: "validate_answer_citations answer citations = (validated, codes)" by fastforce
  have "tally b (s\<lparr>as_answer := Some validated\<rparr>) (l @ map (\<lambda>d. Warned (diagnostic_name d)) codes)"
    using t by (subst tally_quiet) (simp_all add: quiet_notes_def tally_def in_budget_def)
  with run Some v show ?thesis by (auto simp: cite_answer_def log_notes_def)
qed

lemma finalize_ok:
  assumes run: "finalize w i s l = (r, l')" and t: "tally (aw_budget w) s l"
  shows "case r of Inl e \<Rightarrow> log_ok (aw_budget w) l' | Inr s' \<Rightarrow> tally (aw_budget w) s' l'"
proof (cases "\<exists>c cs citations. as_answer s = Some (c # cs) \<and> \<not> failed_termination s \<and>
    collect_tool_citations (as_results s) = Inr citations \<and>
    valid_final_request (final_request_of w (s\<lparr>as_citations := citations\<rparr>) (c # cs) citations)")
  case False
  then have "(\<exists>e. r = Inl e \<and> l' = l) \<or> (r = Inr (mark_completed s) \<and> l' = l)"
    using run by (auto simp: finalize_def Let_def split: option.splits list.splits if_splits sum.splits)
  with t tally_log_ok [OF t] show ?thesis by auto
next
  case True
  then obtain c cs citations where a: "as_answer s = Some (c # cs)" "\<not> failed_termination s"
    "collect_tool_citations (as_results s) = Inr citations" by blast
  define s1 where "s1 = s\<lparr>as_citations := citations\<rparr>"
  define q where "q = final_request_of w s1 (c # cs) citations"
  have valid: "valid_final_request q" using True a by (auto simp: q_def s1_def)
  have t1: "tally (aw_budget w) s1 l" using t by (simp add: s1_def tally_def in_budget_def)
  have run': "sbind (finalize_answer w i q s1) (\<lambda>s2. sbind (cite_answer citations s2) (\<lambda>s3. ret (mark_completed s3))) l = (r, l')"
    using run a valid by (simp add: finalize_def Let_def s1_def [symmetric] q_def [symmetric])
  obtain r1 l1 where f: "finalize_answer w i q s1 l = (r1, l1)" by fastforce
  note f_ok = finalize_answer_ok [OF f t1 q_def]
  show ?thesis
  proof (cases r1)
    case (Inl e)
    with run' f f_ok show ?thesis by (auto simp: sbind_def)
  next
    case (Inr s2)
    obtain r2 l2 where g: "cite_answer citations s2 l1 = (r2, l2)" by fastforce
    with f_ok Inr have "case r2 of Inl e \<Rightarrow> log_ok (aw_budget w) l2 | Inr s' \<Rightarrow> tally (aw_budget w) s' l2"
      using cite_answer_ok by simp
    with run' f g Inr show ?thesis by (cases r2) (auto simp: sbind_def)
  qed
qed

section \<open>The whole graph\<close>

context agent_services
begin

lemma run_node_ok:
  assumes run: "run_node w i n s l = (r, l')" and t: "tally b s l" and at: "at_node n s"
  shows "case r of Inl e \<Rightarrow> log_ok b l' | Inr s' \<Rightarrow> leaves n s' l'"
proof (cases n)
  case PREPARE
  then have "prepare_context w s l = (r, l')" using run by (simp add: run_node_def)
  from prepare_context_ok [OF this t at [unfolded PREPARE]] show ?thesis unfolding PREPARE by (cases r) auto
next
  case COMPRESS
  then have "compress_context w i s l = (r, l')" using run by (simp add: run_node_def)
  from compress_context_ok [OF this t at [unfolded COMPRESS]] show ?thesis unfolding COMPRESS by (cases r) auto
next
  case CALL_MODEL
  then have "call_model w i s l = (r, l')" using run by (simp add: run_node_def)
  from call_model_ok [OF this t at [unfolded CALL_MODEL]] show ?thesis unfolding CALL_MODEL by (cases r) auto
next
  case EXECUTE_TOOL
  then have "execute_one_tool w i s l = (r, l')" using run by (simp add: run_node_def)
  from execute_one_tool_ok [OF this t at [unfolded EXECUTE_TOOL]] show ?thesis unfolding EXECUTE_TOOL by (cases r) auto
next
  case FINALIZE
  then have "finalize w i s l = (r, l')" using run by (simp add: run_node_def)
  from finalize_ok [OF this t] show ?thesis unfolding FINALIZE by (cases r) (auto simp: leaves_def next_node_def)
qed

lemma run_graph_ok:
  "run_graph w fuel i n s l = (r, l') \<Longrightarrow> tally b s l \<Longrightarrow> at_node n s \<Longrightarrow>
     case r of Inl e \<Rightarrow> log_ok b l' | Inr s' \<Rightarrow> tally b s' l'"
proof (induction fuel arbitrary: i n s l)
  case 0
  then show ?case using tally_log_ok by auto
next
  case (Suc fuel)
  obtain r1 l1 where run: "run_node w i n s l = (r1, l1)" by fastforce
  note ok = run_node_ok [OF run Suc.prems(2,3)]
  show ?case
  proof (cases r1)
    case (Inl e)
    with Suc.prems(1) run ok show ?thesis by (auto simp: sbind_def)
  next
    case (Inr s1)
    with ok have t1: "tally b s1 l1" and at1: "next_node n s1 = Some n' \<Longrightarrow> at_node n' s1" for n'
      by (auto simp: leaves_def)
    show ?thesis
    proof (cases "next_node n s1")
      case None
      with Suc.prems(1) run Inr t1 show ?thesis by (auto simp: sbind_def)
    next
      case (Some n')
      then have "run_graph w fuel (i + 1) n' s1 l1 = (r, l')"
        using Suc.prems(1) run Inr by (simp add: sbind_def)
      from Suc.IH [OF this t1 at1 [OF Some]] show ?thesis .
    qed
  qed
qed

text \<open>A turn starts with no message, no call and no result.\<close>

lemma run_turn_ok:
  assumes "run_turn w (new_agent_state th tu ws m k) [] = (r, l)"
  shows "log_ok b l" and "r = Inr s \<Longrightarrow> in_budget b s"
proof -
  have "tally b (new_agent_state th tu ws m k) []" "at_node PREPARE (new_agent_state th tu ws m k)"
    by (simp_all add: tally_def in_budget_def new_agent_state_def at_node_def)
  from run_graph_ok [OF assms [unfolded run_turn_def] this]
  show "log_ok b l" "r = Inr s \<Longrightarrow> in_budget b s"
    using tally_log_ok by (auto split: sum.splits simp: tally_def)
qed

end

end
