(* ===== verification/AgentTermination.thy ===== *)
theory AgentTermination
  imports AgentRuns
begin

text \<open>
  A turn ends within its recursion limit: the budget of model calls and the longest batch
  of tool calls bound the steps of the graph.
\<close>

section \<open>The graph ends\<close>

text \<open>The errors of a node come from its services.\<close>

definition from_services :: "'a node_eff \<Rightarrow> bool" where
  "from_services m \<longleftrightarrow> (\<forall>l. fst (m l) \<noteq> Inl RecursionLimit)"

lemma from_services_prims:
  "from_services (ret x)" "from_services (raise (AgentRaises e))" "from_services (ask r)"
  "from_services (log_notes ns)" "from_services (guard_else c (AgentRaises e))"
  by (auto simp: from_services_def ask_def log_notes_def split: sum.split)

lemma from_services_sbind:
  assumes "from_services m" and "\<And>x. from_services (f x)"
  shows "from_services (sbind m f)"
  unfolding from_services_def
proof
  fix l
  obtain r l' where m: "m l = (r, l')" by fastforce
  with assms(1) have "r \<noteq> Inl RecursionLimit" by (metis from_services_def fst_conv)
  with m assms(2) show "fst (sbind m f l) \<noteq> Inl RecursionLimit"
    by (cases r) (auto simp: sbind_def from_services_def)
qed

lemma from_services_andthen: "from_services m \<Longrightarrow> from_services k \<Longrightarrow> from_services (andthen m k)"
  by (simp add: andthen_def from_services_sbind)

lemmas from_services_intros = from_services_prims from_services_sbind from_services_andthen

lemma add_active_segment_services: "from_services (add_active_segment seg s)"
  by (simp add: add_active_segment_def from_services_prims)

lemma record_result_services: "from_services (record_result w result s)"
  by (auto simp: record_result_def Let_def from_services_prims split: sum.split)

lemma run_tool_services: "from_services (run_tool w i call s)"
  by (auto simp: run_tool_def Let_def intro!: from_services_intros add_active_segment_services split: option.split json.split)

lemma finalize_answer_services: "from_services (finalize_answer w i q s)"
  by (auto simp: finalize_answer_def from_services_intros split: final_outcome.split option.split)

lemma cite_answer_services: "from_services (cite_answer citations s)"
  by (auto simp: cite_answer_def from_services_intros split: option.split prod.split)

lemma skip_compression_services: "from_services (skip_compression reason warning s)"
  by (simp add: skip_compression_def from_services_intros)

lemma compress_context_services: "from_services (compress_context w i s)"
  unfolding compress_context_def Let_def
  by (auto intro!: from_services_sbind from_services_andthen skip_compression_services simp: from_services_prims split: option.split)

lemma stream_call_services: "from_services (stream_call w i reserved q s)"
  unfolding stream_call_def Let_def
  by (auto intro!: from_services_sbind from_services_andthen add_active_segment_services simp: from_services_prims split: prod.split)

lemma call_model_services: "from_services (call_model w i s)"
  unfolding call_model_def Let_def
  by (auto intro!: from_services_andthen stream_call_services simp: from_services_prims)

lemma execute_one_tool_services: "from_services (execute_one_tool w i s)"
  unfolding execute_one_tool_def Let_def
  by (auto intro!: from_services_sbind run_tool_services record_result_services simp: from_services_prims split: option.split prod.split)

lemma finalize_services: "from_services (finalize w i s)"
  unfolding finalize_def Let_def
  by (auto intro!: from_services_sbind from_services_andthen finalize_answer_services cite_answer_services simp: from_services_prims
      split: option.split list.split sum.split)

lemma prepare_context_services: "from_services (prepare_context w s)"
  unfolding prepare_context_def by (auto intro!: from_services_sbind from_services_andthen simp: from_services_prims)

lemma run_node_services: "from_services (run_node w i n s)"
  by (cases n)
    (simp_all add: run_node_def prepare_context_services compress_context_services call_model_services execute_one_tool_services
      finalize_services)

text \<open>How long a batch of calls may be.\<close>

definition batches_within :: "nat \<Rightarrow> gateway_event list \<Rightarrow> bool" where
  "batches_within k events \<longleftrightarrow> (\<forall>turn. StreamEvent (TurnCompleted turn) \<in> set events \<longrightarrow> length (mt_tool_calls turn) \<le> k)"

lemma consume_stream_completed:
  "consume_stream b es v = (v', blocked) \<Longrightarrow>
     set (sv_completed v') \<subseteq> set (sv_completed v) \<union> {turn. StreamEvent (TurnCompleted turn) \<in> set es}"
proof (induction es arbitrary: v)
  case Nil
  then show ?case by simp
next
  case (Cons e es)
  show ?case
  proof (cases e)
    case (StreamEvent ev)
    define v1 where "v1 = v\<lparr>sv_projected := sv_projected v @ [e]\<rparr>"
    define v2 where "v2 = (case ev of TextDelta t \<Rightarrow> v1\<lparr>sv_text := sv_text v1 @ [t]\<rparr>
              | TurnCompleted turn \<Rightarrow> v1\<lparr>sv_completed := sv_completed v1 @ [turn]\<rparr>
              | TurnFailed info \<Rightarrow> v1\<lparr>sv_failure := Some info\<rparr> | _ \<Rightarrow> v1)"
    have "set (sv_completed v2) \<subseteq> set (sv_completed v) \<union> {turn. ev = TurnCompleted turn}"
      by (auto simp: v2_def v1_def split: stream_event.split)
    moreover have "consume_stream b es v2 = (v', blocked)"
      using Cons.prems(1) unfolding StreamEvent v2_def v1_def consume_stream.simps gateway_event.case Let_def .
    ultimately show ?thesis using Cons.IH [of v2] by (auto simp: StreamEvent)
  next
    case (ProviderRetrying a m d c)
    with Cons show ?thesis by (fastforce simp: ProviderRetrying split: if_splits)
  qed
qed

lemma consume_stream_pending: "consume_stream b es v = (v', blocked) \<Longrightarrow> as_pending (sv_state v') = as_pending (sv_state v)"
  by (induction es arbitrary: v)
    (auto simp: charge_provider_retry_def Let_def split: gateway_event.splits stream_event.splits if_splits)

lemma stream_call_batch:
  assumes run: "stream_call w i reserved q s l = (Inr s', l')" and short: "batches_within k (fst (aw_gateway w i (as_model s) q))"
    and s: "as_pending s = []"
  shows "length (as_pending s') \<le> k"
proof -
  obtain events raised where g: "aw_gateway w i (as_model s) q = (events, raised)" by fastforce
  define v where "v = \<lparr>sv_state = charge_model_attempt 0 s, sv_completed = [], sv_failure = None, sv_text = [], sv_retries = 0,
                sv_projected = []\<rparr>"
  obtain v0 blocked where c: "consume_stream (aw_budget w) events v = (v0, blocked)" by fastforce
  define v1 where "v1 = (if blocked = None \<and> raised \<noteq> None then v0\<lparr>sv_failure := raised\<rparr> else v0)"
  have same: "sv_completed v1 = sv_completed v0" "sv_state v1 = sv_state v0" by (simp_all add: v1_def)
  have "set (sv_completed v0) \<subseteq> {turn. StreamEvent (TurnCompleted turn) \<in> set events}"
    using consume_stream_completed [OF c] by (simp add: v_def)
  then have k: "turn \<in> set (sv_completed v1) \<Longrightarrow> length (mt_tool_calls turn) \<le> k" for turn
    using short by (auto simp: g batches_within_def same)
  have "as_pending (sv_state v0) = []"
    using consume_stream_pending [OF c] s by (simp add: v_def charge_model_attempt_def)
  moreover obtain x where x: "s' = settle_call w reserved blocked v1 ((sv_state v0)\<lparr>as_active_seconds := x\<rparr>)"
    using run unfolding stream_call_def g prod.case v_def [symmetric] c Let_def v1_def [symmetric]
    by (auto simp: log_notes_def add_active_segment_def same split: if_splits)
  ultimately show ?thesis
    by (cases rule: settle_call_cases [of w reserved blocked v1 "(sv_state v0)\<lparr>as_active_seconds := x\<rparr>"])
      (auto intro: k)
qed

text \<open>How many steps a turn may still take: the reserve of a model call pays for its batch.\<close>

definition steps_left :: "nat \<Rightarrow> turn_budget \<Rightarrow> node \<Rightarrow> agent_state \<Rightarrow> nat" where
  "steps_left k b n s =
     (let calls = (tb_model_calls b - as_model_calls s) * (k + 2) in
      case n of PREPARE \<Rightarrow> calls + 4 | COMPRESS \<Rightarrow> calls + 3 | CALL_MODEL \<Rightarrow> calls + 2
      | EXECUTE_TOOL \<Rightarrow> calls + 2 + (length (as_pending s) - as_next s) | FINALIZE \<Rightarrow> 1)"

lemma call_spends:
  assumes "as_model_calls s < as_model_calls s'" and "as_model_calls s' \<le> m" and "n \<le> k + 1"
  shows "(m - as_model_calls s') * (k + 2) + n < (m - as_model_calls s) * (k + 2 :: nat)"
proof -
  have "(m - as_model_calls s') + 1 \<le> m - as_model_calls s" using assms by simp
  then have "(m - as_model_calls s' + 1) * (k + 2) \<le> (m - as_model_calls s) * (k + 2)" by (rule mult_le_mono1)
  with assms(3) show ?thesis by (simp add: algebra_simps)
qed

lemma prepare_context_calls: "prepare_context w s l = (Inr s', l') \<Longrightarrow> as_model_calls s' = as_model_calls s"
  by (auto simp: prepare_context_def ask_def log_notes_def with_prepared_def split: if_splits sum.splits)

lemma charge_attempted_calls: "as_model_calls s \<le> as_model_calls (charge_attempted result s)"
  by (simp add: charge_attempted_def charge_model_attempt_def charge_compression_def Let_def)

lemma compress_context_calls:
  assumes "compress_context w i s l = (Inr s', l')"
  shows "as_model_calls s \<le> as_model_calls s'"
proof (cases "int (tb_model_calls (aw_budget w)) - 1 \<le> int (as_model_calls s) \<or> tb_compressions (aw_budget w) \<le> as_compressions s")
  case True
  then obtain warning where "skip_compression (compression_reason s) warning s l = (Inr s', l')"
    using assms by (auto simp: compress_context_def Let_def split: if_splits)
  then show ?thesis by (auto simp: skip_compression_def log_notes_def compression_done_def split: if_splits)
next
  case False
  then obtain result where result: "aw_compressor w i s (compression_retries (aw_budget w) s) = Inr result"
    using assms by (auto simp: compress_context_def Let_def ask_def split: sum.splits)
  have "as_model_calls s' = as_model_calls (charge_attempted result s)"
    using assms False
    by (auto simp: compress_context_def Let_def ask_def result log_notes_def with_prepared_def compression_done_def
        split: if_splits option.splits)
  with charge_attempted_calls show ?thesis by simp
qed

lemma drop_finished_same [simp]: "as_model (drop_finished_calls s) = as_model s" "as_model_calls (drop_finished_calls s) = as_model_calls s"
  by (simp_all add: drop_finished_calls_def)

lemma call_model_batch:
  assumes run: "call_model w i s0 l = (Inr s', l')" and short: "\<And>i m q. batches_within k (fst (aw_gateway w i m q))"
    and s: "length (as_pending s0) \<le> as_next s0"
  shows "length (as_pending s') \<le> k"
proof (cases "bd_allowed (call_decision (aw_budget w) (aw_catalog w i \<noteq> []) (drop_finished_calls s0))")
  case False
  then have "as_pending s' = []"
    using run s by (auto simp: call_model_def Let_def drop_finished_calls_def split: option.splits)
  then show ?thesis by simp
next
  case True
  define s where "s = drop_finished_calls s0"
  define decision where "decision = call_decision (aw_budget w) (aw_catalog w i \<noteq> []) s"
  define s1 where "s1 = (if bd_reserved_final decision
      then s\<lparr>as_termination := (case loop_exhaustion s (aw_budget w) of Some r \<Rightarrow> Some r | None \<Rightarrow> Some ''budget_final_response'')\<rparr>
      else s)"
  define q where "q = request_of s1 (if bd_tools_enabled decision then map tool_definition_of (aw_catalog w i) else [])"
  have "andthen (guard_else (valid_model_request q) (AgentRaises (ServiceRaises ''ValidationError'')))
      (andthen (log_notes [Requested q]) (stream_call w i (bd_reserved_final decision) q s1)) l = (Inr s', l')"
    using run True by (simp add: call_model_def Let_def s_def [symmetric] decision_def [symmetric] s1_def [symmetric] q_def [symmetric])
  then have "stream_call w i (bd_reserved_final decision) q s1 (l @ [Requested q]) = (Inr s', l')"
    by (auto simp: log_notes_def split: if_splits)
  moreover have "as_pending s1 = []" using s by (simp add: s1_def s_def drop_finished_calls_def)
  ultimately show ?thesis using stream_call_batch short by blast
qed

context agent_services
begin

lemma run_node_shortens:
  assumes run: "run_node w i n s l = (Inr s', l')" and t: "tally b s l" and at: "at_node n s"
    and short: "\<And>i m q. batches_within k (fst (aw_gateway w i m q))" and nx: "next_node n s' = Some n'"
  shows "steps_left k b n' s' < steps_left k b n s"
proof (cases n)
  case PREPARE
  then have "as_model_calls s' = as_model_calls s" using prepare_context_calls run by (simp add: run_node_def)
  with nx PREPARE show ?thesis
    by (auto simp: next_node_def route_after_prepare_def steps_left_def)
next
  case COMPRESS
  then have "as_model_calls s \<le> as_model_calls s'" using compress_context_calls run by (simp add: run_node_def)
  then have "(tb_model_calls b - as_model_calls s') * (k + 2) \<le> (tb_model_calls b - as_model_calls s) * (k + 2)"
    by (intro mult_le_mono1) simp
  with nx COMPRESS show ?thesis
    by (auto simp: next_node_def route_after_compression_def steps_left_def Let_def)
next
  case CALL_MODEL
  then have run': "call_model w i s l = (Inr s', l')" and at': "at_node CALL_MODEL s" using run at by (simp_all add: run_node_def)
  have n': "n' = route_after_model s'" using nx CALL_MODEL by (simp add: next_node_def)
  from call_model_ok [OF run' t at'] have
    spent: "as_model_calls s < as_model_calls s' \<or> route_after_model s' = FINALIZE" and t': "tally b s' l'"
    by (auto simp: leaves_def)
  have batch: "length (as_pending s') \<le> k"
    by (rule call_model_batch [OF run' short]) (use at' in \<open>simp add: at_node_def\<close>)
  show ?thesis
  proof (cases "route_after_model s' = FINALIZE")
    case True
    then show ?thesis by (simp add: n' CALL_MODEL steps_left_def Let_def)
  next
    case False
    with spent have more: "as_model_calls s < as_model_calls s'" by blast
    have most: "as_model_calls s' \<le> tb_model_calls b" using t' by (simp add: tally_def in_budget_def)
    define spent_before spent_after where
      "spent_before = (tb_model_calls b - as_model_calls s) * (k + 2)" and
      "spent_after = (tb_model_calls b - as_model_calls s') * (k + 2)"
    have "spent_after + 1 < spent_before" "spent_after + (length (as_pending s') - as_next s') < spent_before"
      unfolding spent_before_def spent_after_def by (rule call_spends [OF more most], use batch in simp)+
    with False show ?thesis
      unfolding n' CALL_MODEL steps_left_def Let_def spent_before_def [symmetric] spent_after_def [symmetric]
      by (auto simp: route_after_model_def)
  qed
next
  case EXECUTE_TOOL
  then have run': "execute_one_tool w i s l = (Inr s', l')" and at': "at_node EXECUTE_TOOL s" using run at by (simp_all add: run_node_def)
  from execute_one_tool_ok [OF run' t at'] have
    "as_model_calls s' = as_model_calls s" "as_pending s' = as_pending s" "as_next s' = as_next s + 1" by auto
  moreover have "as_next s < length (as_pending s)" using at' by (simp add: at_node_def)
  ultimately show ?thesis
    using nx EXECUTE_TOOL by (auto simp: next_node_def route_after_tool_def steps_left_def Let_def)
next
  case FINALIZE
  with nx show ?thesis by (simp add: next_node_def)
qed

lemma run_graph_ends:
  assumes short: "\<And>i m q. batches_within k (fst (aw_gateway w i m q))"
  shows "steps_left k b n s \<le> fuel \<Longrightarrow> tally b s l \<Longrightarrow> at_node n s \<Longrightarrow>
    fst (run_graph w fuel i n s l) \<noteq> Inl RecursionLimit"
proof (induction fuel arbitrary: i n s l)
  case 0
  then show ?case by (auto simp: steps_left_def Let_def split: node.splits)
next
  case (Suc fuel)
  obtain r1 l1 where run: "run_node w i n s l = (r1, l1)" by fastforce
  show ?case
  proof (cases r1)
    case (Inl e)
    have "r1 \<noteq> Inl RecursionLimit"
      using run_node_services [of w i n s] run unfolding from_services_def by (metis fst_conv)
    with Inl run show ?thesis by (auto simp: sbind_def)
  next
    case (Inr s1)
    with run have run1: "run_node w i n s l = (Inr s1, l1)" by simp
    show ?thesis
    proof (cases "next_node n s1")
      case None
      with run1 show ?thesis by (simp add: sbind_def)
    next
      case (Some n')
      have "leaves n s1 l1" using run_node_ok [OF run1 Suc.prems(2,3)] by simp
      then have "tally b s1 l1" "at_node n' s1" using Some by (auto simp: leaves_def)
      moreover have "steps_left k b n' s1 \<le> fuel"
        using run_node_shortens [OF run1 Suc.prems(2,3) short Some] Suc.prems(1) by simp
      ultimately show ?thesis using Suc.IH run1 Some by (simp add: sbind_def)
    qed
  qed
qed

lemma run_turn_ends:
  assumes "\<And>i m q. batches_within k (fst (aw_gateway w i m q))" and "tb_model_calls b * (k + 2) + 4 \<le> RECURSION_LIMIT"
  shows "fst (run_turn w (new_agent_state th tu ws m t) []) \<noteq> Inl RecursionLimit"
  unfolding run_turn_def
  by (rule run_graph_ends [where k = k, OF assms(1)])
    (use assms(2) in \<open>simp_all add: steps_left_def tally_def in_budget_def new_agent_state_def at_node_def Let_def\<close>)

end

end
