(* ===== verification/TurnServices.thy ===== *)
theory TurnServices
  imports AppContext AgentTermination Executor
begin

text \<open>
  The services of a turn as \<open>application/composition.py\<close> puts them together: the context
  builder and the compressor are the application context service on the conversation as it is at
  the step, a tool call is executed by the tool executor with the context and the grants of
  the turn.  They are the agent's services of the locale \<open>agent_services\<close>, so what the agent
  graph guarantees holds of a turn of the assembled program.
\<close>

section \<open>The tools of a skill mode\<close>

definition skill_tool_names :: "string list" where
  "skill_tool_names = [''load_skill'', ''read_skill_resource'']"

definition tool_catalog_for_skill_mode :: "'h registry \<Rightarrow> string \<Rightarrow> tool_spec list" where
  "tool_catalog_for_skill_mode reg mode =
     (if mode = ''auto'' then specifications reg
      else
        let visible = (if mode = ''off'' \<or> mode = ''direct'' then [] else [''read_skill_resource'']) in
        filter (\<lambda>sp. ts_name sp \<notin> set skill_tool_names \<or> ts_name sp \<in> set visible) (specifications reg))"

definition skill_items :: "json_dict list \<Rightarrow> manifest_item list option" where
  "skill_items manifest =
     map_option (filter (\<lambda>m. mf_kind m = SKILL \<or> mf_kind m = SKILL_CATALOG)) (load_items manifest)"

text \<open>The operations that a manifest grants on its skills; \<open>None\<close> grants nothing.\<close>

definition skill_operations :: "json_dict list \<Rightarrow> string \<Rightarrow> string list option" where
  "skill_operations manifest mode =
     (case skill_items manifest of
        None \<Rightarrow> None
      | Some items \<Rightarrow>
          if mode = ''auto''
          then (case items of [m] \<Rightarrow> if mf_kind m = SKILL_CATALOG then Some [''load'', ''read''] else None | _ \<Rightarrow> None)
          else if mode = ''off'' \<or> mode = ''direct'' then None
          else (case items of [m] \<Rightarrow> if mf_kind m = SKILL \<and> mf_id m = mode then Some [''read''] else None | _ \<Rightarrow> None))"

definition skill_resource_grants :: "json_dict list \<Rightarrow> string \<Rightarrow> resource_grant list" where
  "skill_resource_grants manifest mode =
     (case skill_operations manifest mode of
        None \<Rightarrow> []
      | Some operations \<Rightarrow>
          let identities = skill_identities_from_manifest manifest;
              chosen = (if mode = ''auto'' then identities else filter (\<lambda>k. sk_name k = mode) identities)
          in map (\<lambda>k. \<lparr>rg_capability = ''context.read'', rg_resource_type = ''skill'', rg_resource_id = sk_name k,
                        rg_identity = sk_identity k, rg_operations = operations\<rparr>) chosen)"

definition skill_tool_catalog_mode :: "json_dict list \<Rightarrow> string \<Rightarrow> string" where
  "skill_tool_catalog_mode manifest mode =
     (if manifest = [] \<or> mode = ''off'' \<or> mode = ''direct'' then mode
      else if skill_resource_grants manifest mode \<noteq> [] then mode else ''off'')"

section \<open>The services\<close>

text \<open>What the runtime of a turn holds: the application context service and its state, and at
  each step of the graph the time, the registered tools, the surroundings of a tool call, the open
  change set of the turn and the web requests that its ledger counts after the call.\<close>

record 'a turn_runtime =
  rn_app :: app_config
  rn_state :: "nat \<Rightarrow> app_state"
  rn_now :: "nat \<Rightarrow> time"
  rn_operation :: string
  rn_exec :: exec_config
  rn_registry :: "nat \<Rightarrow> 'a tool_callbacks registry"
  rn_around :: "nat \<Rightarrow> exec_world"
  rn_session :: "nat \<Rightarrow> exec_state"
  rn_change_set :: "nat \<Rightarrow> service_error + string"
  rn_web :: "nat \<Rightarrow> tool_request \<Rightarrow> nat"
  rn_gateway :: "nat \<Rightarrow> selected_model \<Rightarrow> model_request \<Rightarrow> gateway_event list \<times> model_error_info option"
  rn_clock :: "nat \<Rightarrow> rat \<times> rat"
  rn_loads :: "string \<Rightarrow> json option"
  rn_finalizer :: "nat \<Rightarrow> final_request \<Rightarrow> final_outcome"

definition service_failure :: "context_failure \<Rightarrow> service_error" where
  "service_failure e = (case e of ContextTooLarge \<Rightarrow> ServiceRaises ''ContextOverflow'' | ContextService f \<Rightarrow> f)"

definition answer_of :: "'a app \<Rightarrow> app_state \<Rightarrow> 'a answer" where
  "answer_of m s = (case fst (m s) of Inl e \<Rightarrow> Inl (service_failure e) | Inr x \<Rightarrow> Inr x)"

text \<open>\<open>ChangeScopeManager.change_set_for_tool\<close>\<close>

definition change_set_for_tool ::
  "'h registry \<Rightarrow> (service_error + string) \<Rightarrow> string \<Rightarrow> service_error + string option"
where
  "change_set_for_tool reg acquire name =
     (case resolve reg name of
        None \<Rightarrow> Inr None
      | Some tool \<Rightarrow> if ts_read_only (rt_spec tool) then Inr None else map_sum id Some acquire)"

definition agent_tool_context ::
  "'a turn_runtime \<Rightarrow> turn \<Rightarrow> nat \<Rightarrow> agent_state \<Rightarrow> tool_request \<Rightarrow> service_error + tool_context"
where
  "agent_tool_context rn t i s q =
     (case change_set_for_tool (rn_registry rn i) (rn_change_set rn i) (rq_tool_name q) of
        Inl e \<Rightarrow> Inl e
      | Inr change_set \<Rightarrow>
          let cx = \<lparr>tx_thread_id = tn_thread t, tx_operation_id = rn_operation rn, tx_turn_id = Some (tn_id t),
                    tx_origin = AGENT, tx_change_set_id = change_set, tx_skill_mode = tn_skill_mode t,
                    tx_grants = skill_resource_grants (as_manifest s) (tn_skill_mode t), tx_turn_active = True\<rparr>
          in (case (new_ledger [(''network.read'', int (bg_web_requests (tn_budgets t)))] [(''network.read'', int (as_web_requests s))],
                    new_allocator (as_citations s)) of
                (Inr _, Inr _) \<Rightarrow>
                  if list_all valid_grant (tx_grants cx) \<and> valid_context cx then Inr cx else Inl (ServiceRaises ''ValueError'')
              | _ \<Rightarrow> Inl (ServiceRaises ''ValueError'')))"

definition execution_failure :: "exec_error \<Rightarrow> service_error" where
  "execution_failure e =
     (case e of CancelledError \<Rightarrow> ServiceCancelled | InvariantError m \<Rightarrow> ServiceRaises m
      | EmitError \<Rightarrow> ServiceRaises ''EmitError'' | RecordError \<Rightarrow> ServiceRaises ''RecordError'')"

definition run_agent_tool ::
  "'a turn_runtime \<Rightarrow> turn \<Rightarrow> nat \<Rightarrow> agent_state \<Rightarrow> tool_request \<Rightarrow> (tool_result \<times> nat) answer"
where
  "run_agent_tool rn t i s q =
     (case agent_tool_context rn t i s q of
        Inl e \<Rightarrow> Inl e
      | Inr cx \<Rightarrow>
          (case fst (execute (rn_exec rn) (rn_registry rn i) (rn_around rn i) q cx (rn_session rn i)) of
             Inl e \<Rightarrow> Inl (execution_failure e)
           | Inr result \<Rightarrow> Inr (result, rn_web rn i q)))"

definition turn_budget_of :: "budget_config \<Rightarrow> turn_budget" where
  "turn_budget_of c =
     \<lparr>tb_model_calls = bg_model_calls c, tb_tool_calls = bg_tool_calls c, tb_retries = bg_retries c,
      tb_compressions = bg_compressions c, tb_active_seconds = of_nat (bg_active_seconds c),
      tb_web_requests = bg_web_requests c\<rparr>"

text \<open>\<open>runtime_current_input\<close>\<close>

definition runtime_current_input :: "turn \<Rightarrow> string app" where
  "runtime_current_input t = (\<lambda>s.
     case capture_of (tn_id t) s of
       Some c \<Rightarrow> (Inr (cap_input c), s)
     | None \<Rightarrow>
         sbind (read_view (tn_thread t)) (\<lambda>view.
           case entry_by_id (vw_entries view) (tn_user_entry t) of
             None \<Rightarrow> raise (app_raises ''StopIteration'')
           | Some e \<Rightarrow>
               (case parse_explicit_paths (en_content e) of
                  Inl _ \<Rightarrow> raise (app_raises ''ValueError'')
                | Inr parsed \<Rightarrow> ret (ep_text parsed))) s)"

text \<open>\<open>runtime_factory\<close>: the services of one turn.\<close>

definition turn_world :: "'a turn_runtime \<Rightarrow> turn \<Rightarrow> string \<Rightarrow> agent_world" where
  "turn_world rn t user_text =
     \<lparr>aw_budget = turn_budget_of (tn_budgets t), aw_user_text = user_text,
      aw_catalog = (\<lambda>i. tool_catalog_for_skill_mode (rn_registry rn i)
        (skill_tool_catalog_mode (tn_manifest t) (tn_skill_mode t))),
      aw_clock = rn_clock rn, aw_estimate = (\<lambda>m. estimate_messages (ax_lib (rn_app rn)) [m]), aw_loads = rn_loads rn,
      aw_builder = (\<lambda>s. answer_of (build_context (rn_app rn) s 0) (rn_state rn 0)),
      aw_compressor = (\<lambda>i s n. answer_of (compress (rn_app rn) (rn_now rn i) s n) (rn_state rn i)),
      aw_gateway = rn_gateway rn, aw_execute = run_agent_tool rn t, aw_finalizer = rn_finalizer rn\<rparr>"

lemma turn_world_simps [simp]:
  "aw_budget (turn_world rn t u) = turn_budget_of (tn_budgets t)"
  "aw_builder (turn_world rn t u) s = answer_of (build_context (rn_app rn) s 0) (rn_state rn 0)"
  "aw_compressor (turn_world rn t u) i s n = answer_of (compress (rn_app rn) (rn_now rn i) s n) (rn_state rn i)"
  "aw_execute (turn_world rn t u) = run_agent_tool rn t" "aw_gateway (turn_world rn t u) = rn_gateway rn"
  by (simp_all add: turn_world_def)

section \<open>The contexts that the service builds\<close>

lemma source_message_answered: "answered (map fst (place_sources lib ss room order))"
  by (induction lib ss room order rule: place_sources.induct)
    (auto simp: source_message_def Let_def split: option.splits)

lemma prepare_sources_answered: "prepare_sources cfg ss n r = Inr p \<Longrightarrow> answered (pc_messages p)"
  by (auto simp: prepare_sources_def prepared_of_def prepare_request_cases Let_def placed_sources_def source_message_answered
      split: sum.splits context_error.splits)

lemma prepare_sources_fits: "prepare_sources cfg ss n r = Inr p \<Longrightarrow> pc_tokens p + r \<le> pc_limit p"
proof -
  assume "prepare_sources cfg ss n r = Inr p"
  then obtain b where "prepare_request (ax_lib cfg) \<lparr>cq_sources = ss, cq_configured = n, cq_model_limit = n, cq_reserved = r\<rparr> = Inr b"
    and p: "p = prepared_of b"
    by (auto simp: prepare_sources_def split: sum.splits context_error.splits)
  then have "bc_tokens b + r \<le> bc_limit b"
    by (auto simp: prepare_request_def Let_def split: sum.splits if_splits)
  then show ?thesis by (simp add: p prepared_of_def)
qed

lemma build_context_answered: "build_context cfg s r st = (Inr p, st') \<Longrightarrow> answered (pc_messages p)"
  unfolding build_context_def andthen_def sbind_returns by (auto dest: prepare_sources_answered)

lemma build_from_frozen_answered: "build_from_frozen cfg s r st = (Inr p, st') \<Longrightarrow> answered (pc_messages p)"
  unfolding build_from_frozen_def sbind_returns by (auto dest: prepare_sources_answered)

text \<open>A cut of an answered transcript before a message that is no result.\<close>

lemma results_for_cut:
  assumes "results_for cs (xs @ m # ms) = Some rest" and "result_id m = None"
  shows "\<exists>ys. rest = ys @ m # ms \<and> length ys \<le> length xs"
  using assms
proof (induction cs "xs @ m # ms" arbitrary: xs rule: results_for.induct)
  case (2 c cs i u v ns)
  then obtain xs' where "xs = ToolResultMessage i u v # xs'" by (cases xs) auto
  with 2 show ?case by (fastforce split: if_splits)
qed (auto simp: Cons_eq_append_conv append_eq_Cons_conv)

lemma answered_cut: "answered (xs @ m # ms) \<Longrightarrow> result_id m = None \<Longrightarrow> answered (m # ms)"
proof (induction "length xs" arbitrary: xs rule: less_induct)
  case less
  show ?case
  proof (cases xs)
    case Nil
    with less.prems show ?thesis by simp
  next
    case (Cons x xs')
    show ?thesis
    proof (cases x)
      case (AssistantMessage c calls)
      then obtain rest where rest: "results_for calls (xs' @ m # ms) = Some rest" "answered rest"
        using less.prems(1) Cons by (auto split: option.splits)
      from results_for_cut [OF rest(1) less.prems(2)] obtain ys where "rest = ys @ m # ms" "length ys \<le> length xs'" by blast
      with rest(2) less.hyps [of ys] less.prems(2) Cons show ?thesis by simp
    qed (use less.hyps [of xs'] less.prems Cons in simp_all)
  qed
qed

lemma tail_answered:
  assumes "answered (pre @ tail)" and "frozen_message_tail_is_valid tail pending n results"
  shows "answered tail"
proof (cases tail)
  case (Cons m ms)
  then have "scan_tail (m # ms) [] [] [] [] \<noteq> None"
    using assms(2) by (auto simp: frozen_message_tail_is_valid_def split: option.splits)
  then have "result_id m = None" by (cases m) auto
  with answered_cut assms(1) Cons show ?thesis by blast
qed simp

lemma active_tail_answered: "answered (as_messages s) \<Longrightarrow> active_turn_tool_tail s = Some tail \<Longrightarrow> answered tail"
  using tail_answered [of "take (length (as_manifest s)) (as_messages s)" tail "as_pending s" "as_next s" "as_results s"]
  by (auto simp: active_turn_tool_tail_def Let_def split: if_splits)

text \<open>What a compression returns when it has rebuilt the context.\<close>

lemma append_tail_returns:
  "append_tool_tail lib base tail = Inr p \<longleftrightarrow>
     pc_tokens base + estimate_messages lib tail \<le> pc_limit base \<and>
     p = base\<lparr>pc_messages := pc_messages base @ tail, pc_tokens := pc_tokens base + estimate_messages lib tail\<rparr>"
  by (auto simp: append_tool_tail_def Let_def)

lemma rebuild_context_cases:
  assumes "rebuild_context cfg s tail usage st = (Inr r, st')"
  shows "cr_attempted r \<and> cr_usage r = usage \<and>
    (case cr_prepared r of
       None \<Rightarrow> \<not> cr_completed r \<and> cr_error r = Some ''context_unrecoverable''
     | Some p \<Rightarrow> cr_completed r \<and> (\<exists>base. append_tool_tail (ax_lib cfg) base tail = Inr p \<and> answered (pc_messages base)))"
proof -
  define m where "m = (if capture_of (as_turn_id s) st \<noteq> None then build_context cfg s (estimate_messages (ax_lib cfg) tail)
    else build_from_frozen cfg s (estimate_messages (ax_lib cfg) tail))"
  have built: "answered (pc_messages base)" if "m st = (Inr base, st1)" for base st1
    using that by (auto simp: m_def build_context_answered build_from_frozen_answered split: if_splits)
  obtain q st2 where run: "sbind m (\<lambda>base. lift_result (append_tool_tail (ax_lib cfg) base tail)) st = (q, st2)" by fastforce
  then have r: "(case q of Inr p \<Rightarrow> (Inr \<lparr>cr_completed = True, cr_attempted = True, cr_prepared = Some p, cr_usage = usage, cr_error = None\<rparr>, st2)
      | Inl ContextTooLarge \<Rightarrow> (Inr (compression_failure True usage (Some ''context_unrecoverable'')), st2)
      | Inl e \<Rightarrow> (Inl e, st2)) = (Inr r, st')"
    using assms unfolding rebuild_context_def m_def Let_def by (auto split: sum.split context_failure.split)
  show ?thesis
  proof (cases q)
    case (Inl e)
    with r show ?thesis by (cases e) (auto simp: compression_failure_def)
  next
    case (Inr p)
    with run obtain base st1 where "m st = (Inr base, st1)" "append_tool_tail (ax_lib cfg) base tail = Inr p"
      by (auto simp: sbind_returns)
    with built Inr r show ?thesis by auto
  qed
qed

lemma compress_cases:
  assumes "compress cfg now s n st = (Inr r, st')"
  shows "(cr_attempted r \<longrightarrow> mu_retries (cr_usage r) \<le> n) \<and>
    (\<forall>p. cr_prepared r = Some p \<longrightarrow>
       cr_completed r \<and> cr_attempted r \<and>
       (\<exists>base tail. active_turn_tool_tail s = Some tail \<and> append_tool_tail (ax_lib cfg) base tail = Inr p \<and> answered (pc_messages base)))"
proof (cases "active_turn_tool_tail s")
  case None
  with assms show ?thesis by (auto simp: compress_def compression_failure_def no_usage_def)
next
  case (Some tail)
  from assms Some obtain view :: thread_view and s1 s2 :: app_state and result :: compaction where
    result: "run_compaction cfg now s view n s1 = (Inr result, s2)" and
    rest: "(case (if co_status result = COMPRESSION_COMPLETED then co_summary result else None) of
              Some summary \<Rightarrow>
                sbind (save_summary summary (vw_summary view)) (\<lambda>saved.
                  if saved then rebuild_context cfg s tail (co_usage result)
                  else ret (compression_failure True (co_usage result) (Some ''compression_conflict'')))
            | None \<Rightarrow>
                ret (compression_failure (co_status result \<noteq> COMPRESSION_NOOP) (co_usage result) (co_error result))) s2 = (Inr r, st')"
    unfolding compress_def by (auto simp: sbind_returns)
  from result have comp: "mu_retries (co_usage result) \<le> n"
    by (auto simp: run_compaction_def split: sum.splits dest!: compact_retries)
  show ?thesis
  proof (cases "if co_status result = COMPRESSION_COMPLETED then co_summary result else None")
    case None
    with rest comp show ?thesis by (auto simp: compression_failure_def)
  next
    case (Some summary)
    then show ?thesis
      using rest comp \<open>active_turn_tool_tail s = Some tail\<close>
      by (auto simp: sbind_returns compression_failure_def dest!: rebuild_context_cases split: if_splits option.splits)
  qed
qed

section \<open>The assembled services\<close>

lemma answer_of_returns: "answer_of m s = Inr x \<longleftrightarrow> (\<exists>s'. m s = (Inr x, s'))"
  by (cases "m s") (auto simp: answer_of_def split: sum.splits)

lemma run_agent_tool_call:
  assumes "run_agent_tool rn t i s q = Inr (result, web)"
  shows "tr_call_id result = rq_call_id q"
proof -
  obtain cx where "fst (execute (rn_exec rn) (rn_registry rn i) (rn_around rn i) q cx (rn_session rn i)) = Inr result"
    using assms by (auto simp: run_agent_tool_def split: sum.splits)
  then obtain s' where run: "execute (rn_exec rn) (rn_registry rn i) (rn_around rn i) q cx (rn_session rn i) = (Inr result, s')"
    by (metis prod.collapse)
  show ?thesis using emitsD [OF emits_execute refl run] by (auto simp: call_ok_def settles_def)
qed

interpretation assembled: agent_services "turn_world rn t user_text" for rn t user_text
proof
  fix s p
  assume "aw_builder (turn_world rn t user_text) s = Inr p"
  then show "answered (pc_messages p)" by (auto simp: answer_of_returns build_context_answered)
next
  fix s i n r p
  assume s: "answered (as_messages s)" and run: "aw_compressor (turn_world rn t user_text) i s n = Inr r"
    and p: "cr_prepared r = Some p"
  then obtain st' where "compress (rn_app rn) (rn_now rn i) s n (rn_state rn i) = (Inr r, st')" by (auto simp: answer_of_returns)
  with p obtain base tail where "active_turn_tool_tail s = Some tail" "append_tool_tail (ax_lib (rn_app rn)) base tail = Inr p"
    "answered (pc_messages base)"
    by (auto dest!: compress_cases)
  with active_tail_answered [OF s] show "answered (pc_messages p)" by (auto simp: append_tail_returns answered_append)
next
  fix i s n r
  assume "aw_compressor (turn_world rn t user_text) i s n = Inr r" "cr_attempted r"
  then show "mu_retries (cr_usage r) \<le> n" by (auto simp: answer_of_returns dest!: compress_cases)
next
  fix i s q result web
  assume "aw_execute (turn_world rn t user_text) i s q = Inr (result, web)"
  then show "tr_call_id result = rq_call_id q" by (simp add: run_agent_tool_call)
qed

lemmas assembled_simps = turn_budget_of_def


text \<open>C8: with the default budgets or smaller ones, a turn in which the model asks for at
  most 61 calls in one answer never meets the recursion limit of its graph: it ends with an answer,
  a termination reason or an error of a service.\<close>

theorem assembled_turn_ends:
  assumes "\<And>i m q. batches_within 61 (fst (rn_gateway rn i m q))" and "bg_model_calls (tn_budgets t) \<le> 32"
  shows "fst (run_turn (turn_world rn t user_text) (new_agent_state th tu ws m k) []) \<noteq> Inl RecursionLimit"
proof (rule assembled.run_turn_ends [where k = 61])
  have "bg_model_calls (tn_budgets t) * 63 \<le> 32 * 63" using assms(2) by (rule mult_le_mono1)
  then show "tb_model_calls (aw_budget (turn_world rn t user_text)) * (61 + 2) + 4 \<le> RECURSION_LIMIT"
    by (simp add: turn_budget_of_def RECURSION_LIMIT_def)
qed (use assms(1) in simp)

section \<open>A sample turn\<close>

definition sample_budgets :: budget_config where
  "sample_budgets =
     \<lparr>bg_model_calls = 4, bg_tool_calls = 4, bg_retries = 1, bg_compressions = 1, bg_active_seconds = 60,
      bg_context_tokens = 100000, bg_web_requests = 1\<rparr>"

definition sample_turn :: turn where
  "sample_turn =
     \<lparr>tn_id = ''u'', tn_thread = ''t'', tn_checkpoint = ''k'', tn_status = TURN_IN_PROGRESS, tn_provider = ''kimi'',
      tn_model = ''m'', tn_thinking = False, tn_skill_mode = ''off'', tn_budgets = sample_budgets, tn_user_entry = ''e'',
      tn_assistant_entry = None, tn_usage = empty_usage, tn_termination = None, tn_error = None, tn_manifest = [],
      tn_created = 0, tn_updated = 0, tn_completed = None\<rparr>"

definition sample_thread :: thread where
  "sample_thread =
     \<lparr>th_id = ''t'', th_workspace = ''w'', th_title = ''x'', th_title_source = AUTOMATIC, th_model = None, th_thinking = False,
      th_skill_mode = ''off'', th_lineage = None, th_created = 0, th_updated = 0\<rparr>"

definition sample_entry :: thread_entry where
  "sample_entry =
     \<lparr>en_id = ''e'', en_thread = ''t'', en_sequence = 1, en_kind = USER_MESSAGE, en_content = ''hi'', en_client = None,
      en_metadata = [], en_created = 0\<rparr>"

definition sample_capture :: turn_capture where
  "sample_capture =
     \<lparr>cap_input = ''hi'', cap_snapshots = [], cap_skill = None, cap_memory = [], cap_local = [], cap_recalled = None\<rparr>"

definition sample_app :: app_state where
  "sample_app =
     \<lparr>ap_db = \<lparr>db_threads = [sample_thread], db_entries = [sample_entry], db_turns = [sample_turn], db_summaries = [], db_activities = []\<rparr>,
      ap_captures = [(''u'', sample_capture)]\<rparr>"

definition sample_gateway :: completion_gateway where
  "sample_gateway = \<lparr>cg_complete = (\<lambda>_ _. Inl GATEWAY_RAISES), cg_stream = (\<lambda>_ _. \<lparr>gr_events = [], gr_fault = None, gr_close = None\<rparr>)\<rparr>"

definition sample_answer :: model_turn where
  "sample_answer =
     \<lparr>mt_provider = KIMI, mt_model = ''m'', mt_content = ''hello'', mt_tool_calls = [], mt_stop = COMPLETED, mt_usage = no_usage,
      mt_response_id = None, mt_continuation = None\<rparr>"

definition sample_runtime :: "unit turn_runtime" where
  "sample_runtime =
     \<lparr>rn_app = \<lparr>ax_lib = sample_lib, ax_product = ''p'', ax_identity = None, ax_instructions = [], ax_instructions_id = [],
        ax_recall = None, ax_gateway = sample_gateway\<rparr>,
      rn_state = (\<lambda>_. sample_app), rn_now = (\<lambda>_. 0), rn_operation = ''o'', rn_exec = sample_config, rn_registry = (\<lambda>_. []),
      rn_around = (\<lambda>_. sample_world (Inr None)), rn_session = (\<lambda>_. sample_state), rn_change_set = (\<lambda>_. Inr ''c''),
      rn_web = (\<lambda>_ _. 0), rn_gateway = (\<lambda>_ _ _. ([StreamEvent (TurnCompleted sample_answer)], None)),
      rn_clock = (\<lambda>_. (0, 0)), rn_loads = (\<lambda>_. None), rn_finalizer = (\<lambda>_ _. FINAL_RETURNS None)\<rparr>"

definition sample_model :: selected_model where
  "sample_model = \<lparr>sm_provider = KIMI, sm_model = ''m''\<rparr>"

abbreviation sample_start :: agent_state where
  "sample_start \<equiv> new_agent_state ''t'' ''u'' ''w'' sample_model False"












abbreviation sample_run_world :: agent_world where
  "sample_run_world \<equiv> turn_world sample_runtime sample_turn ''hi''"




theorem assembled_turn_ends_witness:
  "fst (run_turn sample_run_world sample_start []) \<noteq> Inl RecursionLimit"
proof (rule assembled_turn_ends)
  show "batches_within 61 (fst (rn_gateway sample_runtime i m q))" for i m q
    by (simp add: sample_runtime_def batches_within_def sample_answer_def)
qed (simp add: sample_turn_def sample_budgets_def)

section \<open>Compression inside a turn\<close>

lemma consume_stream_state:
  "consume_stream b es v = (v', blocked) \<Longrightarrow> \<exists>m r. sv_state v' = (sv_state v)\<lparr>as_model_calls := m, as_retries := r\<rparr>"
proof (induction es arbitrary: v)
  case Nil
  then show ?case by (intro exI [of _ "as_model_calls (sv_state v)"] exI [of _ "as_retries (sv_state v)"]) simp
next
  case (Cons e es)
  show ?case
  proof (cases "\<exists>v1 m r. sv_state v1 = (sv_state v)\<lparr>as_model_calls := m, as_retries := r\<rparr> \<and> consume_stream b es v1 = (v', blocked)")
    case True
    with Cons.IH show ?thesis by fastforce
  next
    case False
    have stay: "sv_state v = (sv_state v)\<lparr>as_model_calls := as_model_calls (sv_state v), as_retries := as_retries (sv_state v)\<rparr>" by simp
    show ?thesis
    proof (cases e)
      case (StreamEvent ev)
      have "\<exists>v1. sv_state v1 = sv_state v \<and> consume_stream b es v1 = (v', blocked)"
        using Cons.prems unfolding StreamEvent consume_stream.simps gateway_event.case Let_def
        by (intro exI conjI) (auto split: stream_event.split)
      with False stay show ?thesis by metis
    next
      case (ProviderRetrying a m d c)
      define v1 where "v1 = v\<lparr>sv_state := charge_provider_retry (sv_state v), sv_retries := sv_retries v + 1,
        sv_projected := sv_projected v @ [e]\<rparr>"
      have "v' = v \<or> consume_stream b es v1 = (v', blocked)"
        using Cons.prems by (auto simp: ProviderRetrying v1_def split: if_splits)
      moreover have "sv_state v1 = (sv_state v)\<lparr>as_model_calls := as_model_calls (sv_state v) + 1, as_retries := as_retries (sv_state v) + 1\<rparr>"
        by (simp add: v1_def charge_provider_retry_def)
      ultimately show ?thesis using False stay by metis
    qed
  qed
qed

lemma scan_tail_latest:
  "scan_tail ms outstanding latest seen results = Some (out', latest', obs) \<Longrightarrow> (outstanding \<noteq> [] \<Longrightarrow> latest \<noteq> []) \<Longrightarrow>
   ms \<noteq> [] \<Longrightarrow> result_id (last ms) \<noteq> None \<Longrightarrow> latest' \<noteq> []"
proof (induction ms outstanding latest seen results rule: scan_tail.induct)
  case (2 m ms outstanding latest seen results)
  show ?case
  proof (cases "ms = []")
    case True
    with 2 show ?thesis by (cases m) (auto split: list.splits if_splits)
  next
    case False
    with 2 show ?thesis by (cases m) (fastforce split: list.splits if_splits)+
  qed
qed simp

lemma tail_with_calls:
  assumes "length (as_manifest s) < length (as_messages s)" and "result_id (last (as_messages s)) \<noteq> None" and "as_pending s = []"
  shows "active_turn_tool_tail s = None"
proof -
  define tail where "tail = drop (length (as_manifest s)) (as_messages s)"
  have "tail \<noteq> []" "last tail = last (as_messages s)" using assms(1) by (simp_all add: tail_def)
  with scan_tail_latest [of tail "[]" "[]" "[]" "[]"] assms(2,3) have "\<not> frozen_message_tail_is_valid tail (as_pending s) (as_next s) (as_results s)"
    by (auto simp: frozen_message_tail_is_valid_def split: option.splits)
  then show ?thesis by (simp add: active_turn_tool_tail_def tail_def Let_def)
qed

lemma call_model_requests_compression:
  assumes "call_model w i s l = (Inr s', l')" and "as_compression_requested s'" and "\<not> as_compression_requested s"
    and "length (as_pending s) \<le> as_next s"
  shows "as_messages s' = as_messages s \<and> as_manifest s' = as_manifest s \<and> as_pending s' = [] \<and>
    as_compression_reason s' = Some ''context_length''"
proof -
  define s0 where "s0 = drop_finished_calls s"
  have s0: "as_messages s0 = as_messages s" "as_manifest s0 = as_manifest s" "as_pending s0 = []" "\<not> as_compression_requested s0"
    using assms(3,4) by (simp_all add: s0_def drop_finished_calls_def)
  have allowed: "bd_allowed (call_decision (aw_budget w) (aw_catalog w i \<noteq> []) s0)"
  proof (rule ccontr)
    assume "\<not> ?thesis"
    then have "as_compression_requested s' = as_compression_requested s0"
      using assms(1) by (auto simp: call_model_def Let_def s0_def [symmetric])
    with assms(2) s0(4) show False by simp
  qed
  obtain reserved t q l1 where "stream_call w i reserved q (s0\<lparr>as_termination := t\<rparr>) l1 = (Inr s', l')"
  proof (cases "bd_reserved_final (call_decision (aw_budget w) (aw_catalog w i \<noteq> []) s0)")
    case True
    with assms(1) allowed that show ?thesis by (auto simp: call_model_def Let_def s0_def [symmetric] log_notes_def split: if_splits)
  next
    case False
    with assms(1) allowed that [of _ _ "as_termination s0"] show ?thesis
      by (auto simp: call_model_def Let_def s0_def [symmetric] log_notes_def split: if_splits)
  qed
  then have run: "stream_call w i reserved q (s0\<lparr>as_termination := t\<rparr>) l1 = (Inr s', l')" .
  obtain events raised where gw: "aw_gateway w i (as_model s0) q = (events, raised)" by fastforce
  obtain v0 blocked where stream: "consume_stream (aw_budget w) events
       \<lparr>sv_state = charge_model_attempt 0 (s0\<lparr>as_termination := t\<rparr>), sv_completed = [], sv_failure = None, sv_text = [], sv_retries = 0,
        sv_projected = []\<rparr> = (v0, blocked)" by fastforce
  define v where "v = (if blocked = None \<and> raised \<noteq> None then v0\<lparr>sv_failure := raised\<rparr> else v0)"
  have state: "sv_state v = sv_state v0" by (simp add: v_def)
  have "(if snd (aw_clock w i) < fst (aw_clock w i) then None
      else Some (settle_call w reserved blocked v ((sv_state v0)\<lparr>as_active_seconds := as_active_seconds (sv_state v0) +
             (snd (aw_clock w i) - fst (aw_clock w i))\<rparr>))) = Some s'"
    using run unfolding stream_call_def
    by (auto simp: gw stream Let_def v_def log_notes_def add_active_segment_def split: if_splits)
  then obtain seg where s': "s' = settle_call w reserved blocked v ((sv_state v0)\<lparr>as_active_seconds := seg\<rparr>)"
    by (auto split: if_splits)
  from consume_stream_state [OF stream] obtain m r where
    "sv_state v0 = (charge_model_attempt 0 (s0\<lparr>as_termination := t\<rparr>))\<lparr>as_model_calls := m, as_retries := r\<rparr>"
    by auto
  then have v0: "as_messages (sv_state v0) = as_messages s" "as_manifest (sv_state v0) = as_manifest s" "as_pending (sv_state v0) = []"
    "\<not> as_compression_requested (sv_state v0)"
    using s0 by (simp_all add: charge_model_attempt_def)
  show ?thesis
  proof (cases rule: settle_call_cases [of w reserved blocked v "(sv_state v0)\<lparr>as_active_seconds := seg\<rparr>"])
    case (failed reason)
    with s' v0(4) assms(2) show ?thesis by (simp add: fail_call_def)
  next
    case too_long
    with s' v0 show ?thesis by simp
  next
    case (accepted turn)
    with s' v0(4) assms(2) show ?thesis by (simp add: accept_turn_def Let_def split: if_splits)
  qed
qed

text \<open>C39: once a turn has run a tool its context is never compressed.  The model node
  drops the answered calls from the state before it asks the model; when the model then refuses the
  request as too long, the transcript of the turn no longer agrees with the calls of its state, so
  the compressor gives up as \<open>context_unrecoverable\<close> without asking for a summary, and the turn
  ends there, whatever budget it has left.\<close>

theorem long_turn_never_compressed:
  assumes "call_model (turn_world rn t u) i s l = (Inr s', l')" and "as_compression_requested s'"
    and "\<not> as_compression_requested s" and "length (as_pending s) \<le> as_next s"
    and "length (as_manifest s) < length (as_messages s)" and "result_id (last (as_messages s)) \<noteq> None"
  shows "compress (rn_app rn) now s' n st = (Inr (compression_failure False no_usage (Some ''context_unrecoverable'')), st) \<and>
    (\<exists>s''. compress_context (turn_world rn t u) j s' l' = (Inr s'', l') \<and> as_termination s'' = Some ''context_unrecoverable'' \<and>
       next_node COMPRESS s'' = Some FINALIZE)"
proof -
  note kept = call_model_requests_compression [OF assms(1-4)]
  then have "active_turn_tool_tail s' = None" using tail_with_calls [of s'] assms(5,6) by simp
  then have none: "compress (rn_app rn) now s' n st = (Inr (compression_failure False no_usage (Some ''context_unrecoverable'')), st)" for now n st
    by (simp add: compress_def)
  then have "aw_compressor (turn_world rn t u) j s' n = Inr (compression_failure False no_usage (Some ''context_unrecoverable''))" for n
    by (simp add: answer_of_def)
  then have "\<exists>s''. compress_context (turn_world rn t u) j s' l' = (Inr s'', l') \<and> as_termination s'' = Some ''context_unrecoverable''"
    using kept by (auto simp: compress_context_def skip_compression_def compression_reason_def ask_def compression_failure_def Let_def)
  then show ?thesis using none by (auto simp: next_node_def route_after_compression_def)
qed

text \<open>A turn that has read a file; the model refuses its next request as too long.\<close>

definition long_turn_state :: agent_state where
  "long_turn_state =
     (new_agent_state ''t'' ''u'' ''w'' sample_model False)
       \<lparr>as_manifest := [[]], as_messages := [UserMessage ''hi'', AssistantMessage [] [\<lparr>tc_id = ''c1'', tc_name = ''read_file'', tc_arguments = ''{}''\<rparr>],
          ToolResultMessage ''c1'' ''text'' False], as_pending := [\<lparr>tc_id = ''c1'', tc_name = ''read_file'', tc_arguments = ''{}''\<rparr>], as_next := 1\<rparr>"

definition refusing_runtime :: "unit turn_runtime" where
  "refusing_runtime = sample_runtime\<lparr>rn_gateway := (\<lambda>_ _ _. ([StreamEvent (TurnFailed
     \<lparr>me_code = CONTEXT_LENGTH, me_message = ''long'', me_retryable = False, me_provider = KIMI, me_status = Some 400\<rparr>)], None))\<rparr>"

theorem long_turn_never_compressed_witness:
  "\<exists>s' l'. call_model (turn_world refusing_runtime sample_turn ''hi'') 3 long_turn_state [] = (Inr s', l') \<and> as_compression_requested s' \<and>
     (\<exists>s''. compress_context (turn_world refusing_runtime sample_turn ''hi'') 4 s' l' = (Inr s'', l') \<and>
        as_termination s'' = Some ''context_unrecoverable'')"
proof -
  define w where "w = turn_world refusing_runtime sample_turn ''hi''"
  have w: "aw_budget w = turn_budget_of sample_budgets" "aw_catalog w 3 = []" "aw_clock w 3 = (0, 0)"
    "aw_gateway w 3 m q = ([StreamEvent (TurnFailed
     \<lparr>me_code = CONTEXT_LENGTH, me_message = ''long'', me_retryable = False, me_provider = KIMI, me_status = Some 400\<rparr>)], None)" for m q
    by (simp_all add: w_def turn_world_def refusing_runtime_def sample_runtime_def sample_turn_def
        skill_tool_catalog_mode_def tool_catalog_for_skill_mode_def specifications_def Let_def)
  define s1 where "s1 = long_turn_state\<lparr>as_pending := [], as_next := 0\<rparr>"
  have drop: "drop_finished_calls long_turn_state = s1" by (simp add: drop_finished_calls_def s1_def long_turn_state_def)
  have s1: "as_messages s1 \<noteq> []" "as_model_calls s1 = 0" "as_tool_calls s1 = 0" "as_active_seconds s1 = 0"
    by (simp_all add: s1_def long_turn_state_def new_agent_state_def)
  have budget: "tb_model_calls (turn_budget_of sample_budgets) = 4" "tb_tool_calls (turn_budget_of sample_budgets) = 4"
    "tb_active_seconds (turn_budget_of sample_budgets) = 60" by (simp_all add: turn_budget_of_def sample_budgets_def)
  have "\<exists>s' l'. call_model w 3 long_turn_state [] = (Inr s', l') \<and> as_compression_requested s'"
    using s1
    by (simp add: call_model_def drop loop_exhaustion_def call_decision_def model_call_decision_def w budget request_of_def
        valid_model_request_def stream_call_def log_notes_def add_active_segment_def settle_call_def Let_def)
  then obtain s' l' where run: "call_model (turn_world refusing_runtime sample_turn ''hi'') 3 long_turn_state [] = (Inr s', l')"
    and requested: "as_compression_requested s'" unfolding w_def by blast
  have "\<not> as_compression_requested long_turn_state" "length (as_pending long_turn_state) \<le> as_next long_turn_state"
    "length (as_manifest long_turn_state) < length (as_messages long_turn_state)" "result_id (last (as_messages long_turn_state)) \<noteq> None"
    by (simp_all add: long_turn_state_def new_agent_state_def)
  from long_turn_never_compressed [OF run requested this, where j = 4] run requested show ?thesis by blast
qed

end
