(* ===== verification/ConversationHistory.thy ===== *)
theory ConversationHistory
  imports ConversationFork
begin

text \<open>
  What the operations of the conversation store keep, whatever view their caller read before:
  the invariant of the rows, the append-only transcript, and the histories of any number of
  clients that read and write the same database.
\<close>

section \<open>More triples\<close>

lemma reads_valid:
  "(\<And>s. P s \<Longrightarrow> case f s of Inl e \<Rightarrow> E e s | Inr x \<Rightarrow> Q x s) \<Longrightarrow> valid P (reads f) Q E"
  by (auto simp: valid_def reads_def split: sum.splits)

lemma gets_valid: "(\<And>s. P s \<Longrightarrow> Q (f s) s) \<Longrightarrow> valid P (gets f) Q E"
  by (simp add: valid_def)

lemma valid_modify: "(\<And>s. P s \<Longrightarrow> Q () (f s)) \<Longrightarrow> valid P (modify f) Q E"
  by (simp add: valid_def)

lemma guards_valid: "(\<And>s. P s \<Longrightarrow> b \<Longrightarrow> Q () s) \<Longrightarrow> (\<And>s. P s \<Longrightarrow> \<not> b \<Longrightarrow> E e s) \<Longrightarrow> valid P (guard_else b e) Q E"
  by (simp add: valid_def guard_else_def)

lemma valid_lift: "(\<And>s x. P s \<Longrightarrow> r = Inr x \<Longrightarrow> Q x s) \<Longrightarrow> (\<And>s e. P s \<Longrightarrow> r = Inl e \<Longrightarrow> E e s) \<Longrightarrow> valid P (lift_result r) Q E"
  by (cases r) (auto simp: valid_def)

lemma transaction_valid:
  assumes "valid P m (\<lambda>_. P) (\<lambda>_ _. True)"
  shows "valid P (transaction m) (\<lambda>_. P) (\<lambda>_. P)"
  using assms by (fastforce simp: valid_def transaction_def split: prod.splits sum.splits)

section \<open>The invariant\<close>

definition same_thread :: "thread \<Rightarrow> thread \<Rightarrow> bool" where
  "same_thread t t' \<longleftrightarrow>
     th_id t' = th_id t \<and> th_workspace t' = th_workspace t \<and> th_lineage t' = th_lineage t \<and> th_created t' = th_created t \<and>
     th_updated t \<le> th_updated t'"

definition same_turn :: "turn \<Rightarrow> turn \<Rightarrow> bool" where
  "same_turn t t' \<longleftrightarrow>
     tn_id t' = tn_id t \<and> tn_thread t' = tn_thread t \<and> tn_user_entry t' = tn_user_entry t \<and> tn_model t' = tn_model t \<and>
     tn_provider t' = tn_provider t \<and> tn_budgets t' = tn_budgets t \<and> tn_created t' = tn_created t \<and>
     (tn_status t \<noteq> TURN_IN_PROGRESS \<longrightarrow> t' = t)"

text \<open>The entries are only appended; a terminal turn never changes; the identity of threads and
  turns is fixed and the time of a thread never goes back.\<close>

definition db_extends :: "conv_db \<Rightarrow> conv_db \<Rightarrow> bool" where
  "db_extends db db' \<longleftrightarrow>
     (\<exists>es. db_entries db' = db_entries db @ es) \<and>
     (\<forall>t \<in> set (db_turns db). \<exists>t' \<in> set (db_turns db'). same_turn t t') \<and>
     (\<forall>t \<in> set (db_threads db). \<exists>t' \<in> set (db_threads db'). same_thread t t')"

definition contiguous :: "thread_entry list \<Rightarrow> bool" where
  "contiguous es \<longleftrightarrow> map en_sequence es = [1..<length es + 1]"

definition turn_ok :: "thread_entry list \<Rightarrow> turn \<Rightarrow> bool" where
  "turn_ok es t \<longleftrightarrow> turn_shape t \<and>
     (\<exists>e \<in> set es. en_id e = tn_user_entry t \<and> en_thread e = tn_thread t \<and> en_kind e = USER_MESSAGE \<and>
        (case tn_assistant_entry t of
           None \<Rightarrow> True
         | Some a \<Rightarrow> \<exists>r \<in> set es. en_id r = a \<and> en_thread r = tn_thread t \<and> en_kind r = ASSISTANT_MESSAGE \<and> en_sequence e < en_sequence r))"

definition db_ok :: "conv_db \<Rightarrow> bool" where
  "db_ok db \<longleftrightarrow>
     distinct (map th_id (db_threads db)) \<and> distinct (map en_id (db_entries db)) \<and> distinct (map tn_id (db_turns db)) \<and>
     (\<forall>i. contiguous (entries_of i db)) \<and>
     (\<forall>e \<in> set (db_entries db). en_thread e \<in> th_id ` set (db_threads db)) \<and>
     (\<forall>t \<in> set (db_turns db). turn_ok (db_entries db) t \<and> tn_thread t \<in> th_id ` set (db_threads db)) \<and>
     distinct (map tn_thread (filter (\<lambda>t. tn_status t = TURN_IN_PROGRESS) (db_turns db)))"

definition kept_from :: "conv_db \<Rightarrow> conv_db \<Rightarrow> bool" where
  "kept_from db0 db \<longleftrightarrow> db_ok db \<and> db_extends db0 db"

lemma same_refl [simp]: "same_thread t t" "same_turn u u"
  by (simp_all add: same_thread_def same_turn_def)

lemma same_trans: "same_thread a b \<Longrightarrow> same_thread b c \<Longrightarrow> same_thread a c" "same_turn x y \<Longrightarrow> same_turn y z \<Longrightarrow> same_turn x z"
  by (auto simp: same_thread_def same_turn_def)

lemma db_extends_refl [simp]: "db_extends db db"
  by (force simp: db_extends_def)

lemma db_extends_trans:
  assumes "db_extends a b" and "db_extends b c"
  shows "db_extends a c"
proof -
  obtain es fs where "db_entries b = db_entries a @ es" "db_entries c = db_entries b @ fs"
    using assms by (auto simp: db_extends_def)
  then have "db_entries c = db_entries a @ (es @ fs)" by simp
  moreover have "\<exists>t' \<in> set (db_turns c). same_turn t t'" if "t \<in> set (db_turns a)" for t
    using assms that same_trans(2) unfolding db_extends_def by meson
  moreover have "\<exists>t' \<in> set (db_threads c). same_thread t t'" if "t \<in> set (db_threads a)" for t
    using assms that same_trans(1) unfolding db_extends_def by meson
  ultimately show ?thesis by (auto simp: db_extends_def)
qed

section \<open>The statements keep it\<close>

lemma entries_of_append [simp]: "entries_of i (db\<lparr>db_entries := db_entries db @ [e]\<rparr>) = entries_of i db @ (if en_thread e = i then [e] else [])"
  by (simp add: entries_of_def)

lemma fold_max_upt: "fold max [1..<n + 1] 0 = (n :: nat)"
  by (induction n) simp_all

lemma expected_sequence_contiguous: "contiguous (entries_of i db) \<Longrightarrow> expected_sequence i db = length (entries_of i db) + 1"
  using fold_max_upt [of "length (entries_of i db)"] by (simp add: expected_sequence_def contiguous_def)

lemma turn_ok_append: "turn_ok es t \<Longrightarrow> turn_ok (es @ fs) t"
  unfolding turn_ok_def by (fastforce split: option.splits)

lemma find_thread_Some: "find_thread i db \<noteq> None \<longleftrightarrow> i \<in> th_id ` set (db_threads db)"
  using lookup_row_None [of th_id i "db_threads db"] by (auto simp: find_thread_def)

lemma append_entry_ok:
  assumes ok: "kept_from db0 db" and nth: "en_sequence e = expected_sequence (en_thread e) db" and free: "\<not> entry_conflicts e db"
  shows "kept_from db0 (db\<lparr>db_entries := db_entries db @ [e]\<rparr>)"
proof -
  let ?db = "db\<lparr>db_entries := db_entries db @ [e]\<rparr>"
  have db: "db_ok db" "db_extends db0 db" using ok by (simp_all add: kept_from_def)
  have "contiguous (entries_of i ?db)" for i
  proof (cases "en_thread e = i")
    case True
    have "contiguous (entries_of i db)" using db(1) by (simp add: db_ok_def)
    with nth True expected_sequence_contiguous [of i db] show ?thesis
      by (simp add: contiguous_def)
  next
    case False
    with db(1) show ?thesis by (simp add: db_ok_def)
  qed
  moreover have "en_thread e \<in> th_id ` set (db_threads db)"
    using free find_thread_Some by (auto simp: entry_conflicts_def)
  moreover have "en_id e \<notin> en_id ` set (db_entries db)"
    using free by (auto simp: entry_conflicts_def list_ex_iff)
  ultimately have "db_ok ?db"
    using db(1) turn_ok_append by (fastforce simp: db_ok_def)
  moreover have "db_extends db ?db" by (force simp: db_extends_def)
  ultimately show ?thesis using db(2) db_extends_trans by (auto simp: kept_from_def)
qed

lemma insert_turn_ok:
  assumes ok: "kept_from db0 db" and free: "\<not> turn_conflicts t db" and t: "turn_ok (db_entries db) t"
  shows "kept_from db0 (db\<lparr>db_turns := db_turns db @ [t]\<rparr>)"
proof -
  let ?db = "db\<lparr>db_turns := db_turns db @ [t]\<rparr>"
  have db: "db_ok db" "db_extends db0 db" using ok by (simp_all add: kept_from_def)
  have "tn_thread t \<in> th_id ` set (db_threads db)" "tn_id t \<notin> tn_id ` set (db_turns db)"
    using free find_thread_Some by (auto simp: turn_conflicts_def find_turn_def lookup_row_None)
  moreover have "tn_thread t \<notin> tn_thread ` {r \<in> set (db_turns db). tn_status r = TURN_IN_PROGRESS}" if "tn_status t = TURN_IN_PROGRESS"
    using free that by (auto simp: turn_conflicts_def in_progress_turn_def find_None_iff)
  ultimately have "db_ok ?db"
    using db(1) t by (auto simp: db_ok_def entries_of_def)
  moreover have "db_extends db ?db" by (force simp: db_extends_def)
  ultimately show ?thesis using db(2) db_extends_trans by (auto simp: kept_from_def)
qed


lemma db_ok_threads:
  assumes "map th_id ts = map th_id (db_threads db)" and "db_ok db"
  shows "db_ok (db\<lparr>db_threads := ts\<rparr>)"
proof -
  have "th_id ` set ts = th_id ` set (db_threads db)" using assms(1) by (metis list.set_map)
  with assms show ?thesis by (simp add: db_ok_def entries_of_def)
qed

lemma db_extends_threads:
  "(\<And>x. x \<in> set (db_threads db) \<Longrightarrow> same_thread x (f x)) \<Longrightarrow> db_extends db (db\<lparr>db_threads := map f (db_threads db)\<rparr>)"
  unfolding db_extends_def by (simp add: Bex_def) (metis same_refl(2))

lemma db_extends_turns:
  "(\<And>x. x \<in> set (db_turns db) \<Longrightarrow> same_turn x (f x)) \<Longrightarrow> db_extends db (db\<lparr>db_turns := map f (db_turns db)\<rparr>)"
  unfolding db_extends_def by (simp add: Bex_def) (metis same_refl(1))

lemma update_thread_ok:
  assumes ok: "kept_from db0 db" and old: "find_thread (th_id t) db = Some r" and t: "same_thread r (t\<lparr>th_created := th_created r\<rparr>)"
  shows "kept_from db0
     (db\<lparr>db_threads := map (\<lambda>r. if th_id r = th_id t then t\<lparr>th_created := th_created r\<rparr> else r) (db_threads db)\<rparr>)"
    (is "kept_from db0 ?db")
proof -
  let ?f = "\<lambda>r. if th_id r = th_id t then t\<lparr>th_created := th_created r\<rparr> else r"
  have db: "db_ok db" "db_extends db0 db" using ok by (simp_all add: kept_from_def)
  have ids: "map th_id (map ?f rows) = map th_id rows" for rows by simp
  have r: "r \<in> set (db_threads db)" "th_id r = th_id t"
    using old lookup_row_key [of th_id] by (auto simp: find_thread_def)
  have one: "x = r" if "x \<in> set (db_threads db)" "th_id x = th_id t" for x
    using db(1) r that by (auto simp: db_ok_def distinct_map inj_on_def)
  have "db_ok ?db" using db_ok_threads [OF ids db(1)] .
  moreover have "db_extends db ?db" by (rule db_extends_threads) (use one t in auto)
  ultimately show ?thesis using db(2) db_extends_trans by (auto simp: kept_from_def)
qed

lemma distinct_running:
  "distinct (map tn_id ts) \<Longrightarrow>
   distinct (map tn_thread (filter (\<lambda>t. tn_status t = TURN_IN_PROGRESS) ts)) \<longleftrightarrow>
   (\<forall>t \<in> set ts. \<forall>u \<in> set ts. tn_status t = TURN_IN_PROGRESS \<longrightarrow> tn_status u = TURN_IN_PROGRESS \<longrightarrow> tn_thread t = tn_thread u \<longrightarrow> t = u)"
  by (induction ts) (auto simp: image_iff)

lemma db_ok_turns:
  assumes "db_ok db" and "distinct (map tn_id ts)" and "\<forall>t \<in> set ts. turn_ok (db_entries db) t \<and> tn_thread t \<in> th_id ` set (db_threads db)"
    and "distinct (map tn_thread (filter (\<lambda>t. tn_status t = TURN_IN_PROGRESS) ts))"
  shows "db_ok (db\<lparr>db_turns := ts\<rparr>)"
  using assms by (simp add: db_ok_def entries_of_def)

lemma update_turn_ok:
  assumes ok: "kept_from db0 db" and old: "find_turn (tn_id t) db = Some r"
    and running: "tn_status r = TURN_IN_PROGRESS" and new: "turn_ok (db_entries db) (updated_turn t r)"
  shows "kept_from db0 (db\<lparr>db_turns := map (\<lambda>r. if tn_id r = tn_id t then updated_turn t r else r) (db_turns db)\<rparr>)"
    (is "kept_from db0 ?db")
proof -
  let ?f = "\<lambda>r. if tn_id r = tn_id t then updated_turn t r else r"
  have db: "db_ok db" "db_extends db0 db" using ok by (simp_all add: kept_from_def)
  have f [simp]: "tn_id (updated_turn t x) = tn_id x" "tn_thread (updated_turn t x) = tn_thread x" for x
    by (simp_all add: updated_turn_def)
  have ids: "map tn_id (map ?f rows) = map tn_id rows" for rows by simp
  have r: "r \<in> set (db_turns db)" "tn_id r = tn_id t"
    using old lookup_row_key [of tn_id] by (auto simp: find_turn_def)
  have one: "x = r" if "x \<in> set (db_turns db)" "tn_id x = tn_id t" for x
    using db(1) r that by (auto simp: db_ok_def distinct_map inj_on_def)
  have d: "distinct (map tn_id (db_turns db))" using db(1) by (simp add: db_ok_def)
  have "distinct (map tn_thread (filter (\<lambda>t. tn_status t = TURN_IN_PROGRESS) (map ?f (db_turns db))))"
    unfolding distinct_running [OF d [folded ids [of "db_turns db"]]] set_map
  proof (intro ballI impI, elim imageE)
    fix x y u v
    assume "tn_status x = TURN_IN_PROGRESS" "tn_status y = TURN_IN_PROGRESS" "tn_thread x = tn_thread y"
      and u: "u \<in> set (db_turns db)" "x = ?f u" and v: "v \<in> set (db_turns db)" "y = ?f v"
    moreover have "tn_status w = TURN_IN_PROGRESS" if "w \<in> set (db_turns db)" "tn_status (?f w) = TURN_IN_PROGRESS" for w
      using one [of w] running that by (auto split: if_splits)
    moreover have "tn_thread (?f w) = tn_thread w" for w by simp
    ultimately have "tn_status u = TURN_IN_PROGRESS" "tn_status v = TURN_IN_PROGRESS" "tn_thread u = tn_thread v" by metis+
    then have "u = v" using u(1) v(1) distinct_running [OF d] db(1) by (simp add: db_ok_def)
    with u(2) v(2) show "x = y" by simp
  qed
  moreover have "\<forall>x \<in> set (map ?f (db_turns db)). turn_ok (db_entries db) x \<and> tn_thread x \<in> th_id ` set (db_threads db)"
    using db(1) one new by (auto simp: db_ok_def)
  ultimately have "db_ok ?db"
    using db_ok_turns [OF db(1)] d [folded ids [of "db_turns db"]] by blast
  moreover have "same_turn x (?f x)" if "x \<in> set (db_turns db)" for x
  proof (cases "tn_id x = tn_id t")
    case True
    with one that have "x = r" by blast
    with running True show ?thesis by (simp add: same_turn_def updated_turn_def)
  qed simp
  then have "db_extends db ?db" by (rule db_extends_turns)
  ultimately show ?thesis using db(2) db_extends_trans by (auto simp: kept_from_def)
qed


section \<open>The writes of the repository keep it\<close>

abbreviation kept_by :: "conv_db \<Rightarrow> 'a conv \<Rightarrow> bool" where
  "kept_by db0 m \<equiv> valid (kept_from db0) m (\<lambda>_. kept_from db0) (\<lambda>_. kept_from db0)"

lemma require_thread_valid: "valid P (require_thread i) (\<lambda>r db. P db \<and> find_thread i db = Some r) (\<lambda>_ _. True)"
  by (auto simp: require_thread_def intro!: reads_valid split: option.split)

lemma require_turn_valid: "valid P (require_turn i) (\<lambda>r db. P db \<and> find_turn i db = Some r) (\<lambda>_ _. True)"
  by (auto simp: require_turn_def intro!: reads_valid split: option.split)

lemma guard_valid: "valid P (guard_else b e) (\<lambda>_ db. P db \<and> b) (\<lambda>_ _. True)"
  by (auto intro!: guards_valid)

lemma lift_valid: "valid P (lift_result r) (\<lambda>x db. P db \<and> r = Inr x) (\<lambda>_ _. True)"
  by (auto intro!: valid_lift)

lemma monotonic_same: "monotonic_thread_update r t = Inr t' \<Longrightarrow> th_id t = th_id r \<Longrightarrow> th_workspace t = th_workspace r \<Longrightarrow>
   th_lineage t = th_lineage r \<Longrightarrow> same_thread r (t'\<lparr>th_created := th_created r\<rparr>) \<and> th_id t' = th_id r"
  by (auto simp: monotonic_thread_update_def Let_def same_thread_def split: if_splits)

lemma monotonic_times [simp]: "monotonic_thread_update r t = Inr t' \<Longrightarrow> th_id t' = th_id t"
  by (auto simp: monotonic_thread_update_def Let_def split: if_splits)

text \<open>Reading a thread and writing it back with other values for what may change.\<close>

lemma update_thread_valid:
  assumes "\<And>db. P db \<Longrightarrow> kept_from db0 db \<and> find_thread (th_id t) db = Some r" and "same_thread r (t\<lparr>th_created := th_created r\<rparr>)"
  shows "valid P (update_thread t) (\<lambda>_. kept_from db0) (\<lambda>_ _. True)"
  unfolding update_thread_def require_thread_def valid_def
  using assms update_thread_ok by (fastforce simp: andthen_def sbind_def)

lemma written_back:
  assumes "th_id t = th_id r" and "th_workspace t = th_workspace r" and "th_lineage t = th_lineage r"
  shows "valid (\<lambda>db. (kept_from db0 db \<and> find_thread i db = Some r) \<and> monotonic_thread_update r t = Inr t')
    (andthen (update_thread t') (ret x)) (\<lambda>_. kept_from db0) (\<lambda>_ _. True)"
proof (rule valid_pre [where b = "monotonic_thread_update r t = Inr t'"])
  assume t': "monotonic_thread_update r t = Inr t'"
  have "th_id r = i" if "find_thread i db = Some r" for db
    using that lookup_row_key [of th_id i "db_threads db"] by (simp add: find_thread_def)
  with monotonic_same [OF t' assms]
  show "valid (\<lambda>db. (kept_from db0 db \<and> find_thread i db = Some r) \<and> monotonic_thread_update r t = Inr t')
    (andthen (update_thread t') (ret x)) (\<lambda>_. kept_from db0) (\<lambda>_ _. True)"
    by (auto intro!: valid_andthen update_thread_valid valid_ret)
qed simp

lemma patch_thread_kept:
  assumes "\<And>t. th_id (f t) = th_id t \<and> th_workspace (f t) = th_workspace t \<and> th_lineage (f t) = th_lineage t"
  shows "kept_by db0 (patch_thread i f)"
  unfolding patch_thread_def
  by (intro transaction_valid valid_sbind [OF require_thread_valid] valid_sbind [OF lift_valid] written_back)
    (simp_all add: assms)

lemma touch_thread_kept: "valid (kept_from db0) (touch_thread i now) (\<lambda>_. kept_from db0) (\<lambda>_ _. True)"
proof -
  have "valid (kept_from db0) (transaction (touch_thread i now)) (\<lambda>_. kept_from db0) (\<lambda>_. kept_from db0)"
    using patch_thread_kept [of "\<lambda>t. t\<lparr>th_updated := now\<rparr>" db0 i]
    by (fastforce simp: patch_thread_def touch_thread_def valid_def transaction_def sbind_def andthen_def split: prod.splits sum.splits)
  then show ?thesis
    by (fastforce simp: valid_def transaction_def split: prod.splits sum.splits)
qed


lemma next_sequence_valid:
  "valid P (require_next_sequence e) (\<lambda>n db. P db \<and> n = expected_sequence (en_thread e) db \<and> en_sequence e = n) (\<lambda>_ _. True)"
  unfolding require_next_sequence_def valid_def by (simp add: sbind_def andthen_def guard_else_def)

lemma next_sequence_checked:
  "valid P (require_next_sequence e) (\<lambda>_ db. P db \<and> en_sequence e = expected_sequence (en_thread e) db) (\<lambda>_ _. True)"
  by (rule valid_weaken [OF next_sequence_valid]) auto

lemma append_entry_valid:
  assumes "\<And>db. P db \<Longrightarrow> kept_from db0 db \<and> en_sequence e = expected_sequence (en_thread e) db"
    and "\<And>db. P db \<Longrightarrow> Q (db\<lparr>db_entries := db_entries db @ [e]\<rparr>)"
  shows "valid P (append_entry e) (\<lambda>_ db. kept_from db0 db \<and> e \<in> set (db_entries db) \<and> Q db) (\<lambda>_ _. True)"
  unfolding append_entry_def valid_def
  using assms append_entry_ok by (auto simp: andthen_def sbind_def)

lemma insert_turn_valid:
  assumes "\<And>db. P db \<Longrightarrow> kept_from db0 db \<and> turn_ok (db_entries db) t"
    and "\<And>db. P db \<Longrightarrow> Q (db\<lparr>db_turns := db_turns db @ [t]\<rparr>)"
  shows "valid P (insert_turn t) (\<lambda>_ db. kept_from db0 db \<and> Q db) (\<lambda>_ _. True)"
  unfolding insert_turn_def valid_def
  using assms insert_turn_ok by (auto simp: andthen_def sbind_def)

lemma update_turn_valid:
  assumes "\<And>db. P db \<Longrightarrow> kept_from db0 db \<and>
      (\<forall>r. find_turn (tn_id t) db = Some r \<longrightarrow> tn_status r = TURN_IN_PROGRESS \<and> turn_ok (db_entries db) (updated_turn t r))"
  shows "valid P (update_turn t) (\<lambda>_. kept_from db0) (\<lambda>_ _. True)"
proof (rule validI)
  fix db x db'
  assume P: "P db" and run: "update_turn t db = (Inr x, db')"
  then obtain r where r: "find_turn (tn_id t) db = Some r"
      and db': "db' = db\<lparr>db_turns := map (\<lambda>r. if tn_id r = tn_id t then updated_turn t r else r) (db_turns db)\<rparr>"
    by (auto simp: update_turn_def require_turn_def sbind_def andthen_def split: option.splits if_splits)
  with assms [OF P] show "kept_from db0 db'"
    using update_turn_ok by blast
qed simp

lemma user_turn_ok:
  assumes "e \<in> set es" and "en_id e = tn_user_entry t" and "en_thread e = tn_thread t" and "en_kind e = USER_MESSAGE"
    and "turn_shape t" and "tn_assistant_entry t = None"
  shows "turn_ok es t"
  using assms by (auto simp: turn_ok_def)

lemma begin_turn_row_kept:
  assumes "en_id e = tn_user_entry t" and "en_thread e = tn_thread t" and "en_kind e = USER_MESSAGE"
    and "turn_shape t" and "tn_status t = TURN_IN_PROGRESS"
  shows "kept_by db0 (begin_turn_row e t title now)"
proof -
  let ?f = "\<lambda>r n. case title of
           Some new \<Rightarrow> if th_title_source r = AUTOMATIC \<and> n = (1::nat) then r\<lparr>th_title := new, th_updated := now\<rparr> else r\<lparr>th_updated := now\<rparr>
         | None \<Rightarrow> r\<lparr>th_updated := now\<rparr>"
  have none: "tn_assistant_entry t = None" using assms by (simp add: turn_shape_def)
  have "valid (kept_from db0)
     (sbind (require_thread (tn_thread t)) (\<lambda>thread.
     andthen (reads (\<lambda>db. if in_progress_turn (tn_thread t) db \<noteq> None then Inl (TurnBusy (tn_thread t)) else Inr ()))
    (sbind (require_next_sequence e) (\<lambda>n.
     andthen (append_entry e)
    (andthen (insert_turn t)
    (sbind (lift_result (monotonic_thread_update thread (?f thread n))) (\<lambda>thread'.
     andthen (update_thread thread') (ret t))))))))
     (\<lambda>_. kept_from db0) (\<lambda>_ _. True)"
  proof (rule valid_sbind [OF require_thread_valid])
    fix r
    let ?r = "\<lambda>db. find_thread (tn_thread t) db = Some r"
    have keep: "th_id (?f r n) = th_id r" "th_workspace (?f r n) = th_workspace r" "th_lineage (?f r n) = th_lineage r" for n
      by (simp_all split: option.split)
    show "valid (\<lambda>db. kept_from db0 db \<and> ?r db)
      (andthen (reads (\<lambda>db. if in_progress_turn (tn_thread t) db \<noteq> None then Inl (TurnBusy (tn_thread t)) else Inr ()))
      (sbind (require_next_sequence e) (\<lambda>n.
       andthen (append_entry e)
      (andthen (insert_turn t)
      (sbind (lift_result (monotonic_thread_update r (?f r n))) (\<lambda>thread'.
       andthen (update_thread thread') (ret t))))))) (\<lambda>_. kept_from db0) (\<lambda>_ _. True)"
      apply (rule valid_andthen [where R = "\<lambda>db. kept_from db0 db \<and> ?r db"])
       apply (rule reads_valid, simp)
      apply (rule valid_sbind [OF next_sequence_valid])
      apply (rule valid_andthen [OF append_entry_valid [where ?db0.0 = db0 and Q = ?r]])
        apply (simp add: assms(2))
       apply (simp add: find_thread_def)
      apply (rule valid_andthen [OF insert_turn_valid [where ?db0.0 = db0 and Q = ?r]])
        apply (use assms none in \<open>auto intro: user_turn_ok\<close>)[1]
       apply (simp add: find_thread_def)
      apply (rule valid_sbind [OF lift_valid])
      apply (rule written_back [OF keep])
      done
  qed
  then show ?thesis unfolding begin_turn_row_def by (rule transaction_valid)
qed


lemma fold_max_bounds: "m \<le> fold max xs m \<and> (\<forall>x \<in> set xs. x \<le> fold max xs m)" for m :: nat
proof (induction xs arbitrary: m)
  case (Cons a xs)
  from Cons [of "max a m"] show ?case by simp
qed simp

lemma before_expected:
  assumes "u \<in> set (db_entries db)"
  shows "en_sequence u < expected_sequence (en_thread u) db"
proof -
  have "en_sequence u \<in> set (map en_sequence (entries_of (en_thread u) db))"
    using assms by (simp add: entries_of_def)
  then have "en_sequence u \<le> fold max (map en_sequence (entries_of (en_thread u) db)) 0"
    using fold_max_bounds by blast
  then show ?thesis by (simp add: expected_sequence_def)
qed

definition user_entry_before :: "turn \<Rightarrow> thread_entry \<Rightarrow> conv_db \<Rightarrow> bool" where
  "user_entry_before t e db \<longleftrightarrow>
     (\<exists>u \<in> set (db_entries db). en_id u = tn_user_entry t \<and> en_thread u = tn_thread t \<and> en_kind u = USER_MESSAGE \<and>
        en_sequence u < en_sequence e)"

lemma turn_user_before:
  assumes "db_ok db" and "find_turn i db = Some t" and "tn_thread t = en_thread e" and "en_sequence e = expected_sequence (en_thread e) db"
  shows "user_entry_before t e db"
proof -
  have "turn_ok (db_entries db) t"
    using assms lookup_row_key [of tn_id i "db_turns db" t] by (simp add: db_ok_def find_turn_def)
  then obtain u where "u \<in> set (db_entries db)" "en_id u = tn_user_entry t" "en_thread u = tn_thread t" "en_kind u = USER_MESSAGE"
    by (auto simp: turn_ok_def)
  with before_expected [of u db] assms show ?thesis by (auto simp: user_entry_before_def)
qed

lemma complete_turn_row_kept:
  assumes "tn_assistant_entry t = Some (en_id e)" and "en_kind e = ASSISTANT_MESSAGE" and "turn_shape t" and "tn_status t = TURN_COMPLETED"
  shows "kept_by db0 (complete_turn_row e t)"
  unfolding complete_turn_row_def
proof (rule transaction_valid, rule valid_sbind [OF require_turn_valid])
  fix current
  let ?c = "\<lambda>db. find_turn (tn_id t) db = Some current \<and> tn_status current = TURN_IN_PROGRESS \<and> tn_thread current = en_thread e"
  let ?u = "\<lambda>db. ?c db \<and> user_entry_before current e db"
  have ok: "turn_ok (db_entries db) (updated_turn t current)"
    if "kept_from db0 db" "e \<in> set (db_entries db)" "?u db" for db
  proof -
    have "turn_shape current" using that lookup_row_key [of tn_id "tn_id t" "db_turns db" current]
      by (auto simp: kept_from_def db_ok_def turn_ok_def find_turn_def)
    then have "turn_shape (updated_turn t current)"
      using assms(3,4) by (simp add: turn_shape_def updated_turn_def)
    with that assms(1,2) show ?thesis
      unfolding turn_ok_def user_entry_before_def by (force simp: updated_turn_def)
  qed
  show "valid (\<lambda>db. kept_from db0 db \<and> find_turn (tn_id t) db = Some current)
      (andthen (guard_else (turn_transition (tn_status current) TURN_COMPLETED) InvalidTurnTransition)
      (andthen (guard_else (manifest_unchanged current t) ConversationConflict)
      (andthen (guard_else (tn_thread current = en_thread e) ConversationConflict)
      (andthen (require_next_sequence e)
      (andthen (append_entry e)
      (andthen (update_turn t)
      (andthen (touch_thread (tn_thread t) (tn_updated t)) (ret t)))))))) (\<lambda>_. kept_from db0) (\<lambda>_ _. True)"
    apply (rule valid_andthen [OF guard_valid])+
    apply (rule valid_andthen [OF next_sequence_checked])
    apply (rule valid_andthen [OF append_entry_valid [where ?db0.0 = db0 and Q = ?u]])
      apply simp
     apply (use turn_user_before in \<open>fastforce simp: turn_transition_def find_turn_def user_entry_before_def kept_from_def\<close>)[1]
    apply (rule valid_andthen [OF update_turn_valid [where ?db0.0 = db0]])
     apply (use ok in auto)[1]
    apply (rule valid_andthen [OF touch_thread_kept])
    apply (rule valid_ret, simp)
    done
qed

lemma terminal_row_kept:
  assumes "tn_assistant_entry t = None" and "turn_shape t"
  shows "kept_by db0 (update_terminal_turn t)"
  unfolding update_terminal_turn_def
proof (rule transaction_valid, rule valid_sbind [OF require_turn_valid])
  fix current
  have ok: "turn_ok (db_entries db) (updated_turn t current)"
    if "kept_from db0 db" "find_turn (tn_id t) db = Some current" for db
  proof -
    have "turn_ok (db_entries db) current" using that lookup_row_key [of tn_id "tn_id t" "db_turns db" current]
      by (auto simp: kept_from_def db_ok_def find_turn_def)
    with assms show ?thesis
      by (auto simp: turn_ok_def turn_shape_def updated_turn_def split: if_splits)
  qed
  show "valid (\<lambda>db. kept_from db0 db \<and> find_turn (tn_id t) db = Some current)
      (andthen (guard_else (turn_transition (tn_status current) (tn_status t)) InvalidTurnTransition)
      (andthen (guard_else (manifest_unchanged current t) ConversationConflict)
      (andthen (update_turn t)
      (andthen (touch_thread (tn_thread t) (tn_updated t)) (ret t))))) (\<lambda>_. kept_from db0) (\<lambda>_ _. True)"
    apply (rule valid_andthen [OF guard_valid])+
    apply (rule valid_andthen [OF update_turn_valid [where ?db0.0 = db0]])
     apply (use ok in \<open>auto simp: turn_transition_def\<close>)[1]
    apply (rule valid_andthen [OF touch_thread_kept])
    apply (rule valid_ret, simp)
    done
qed

lemma update_in_progress_kept: "kept_by db0 (update_in_progress_turn t expected)"
  unfolding update_in_progress_turn_def
proof (rule transaction_valid, rule valid_sbind [OF require_turn_valid])
  fix current
  have ok: "turn_ok (db_entries db) (updated_turn t current)"
    if "kept_from db0 db" "find_turn (tn_id t) db = Some current" "t = current\<lparr>tn_manifest := tn_manifest t, tn_updated := tn_updated t\<rparr>" for db
  proof -
    have "turn_ok (db_entries db) current" using that lookup_row_key [of tn_id "tn_id t" "db_turns db" current]
      by (auto simp: kept_from_def db_ok_def find_turn_def)
    then have "turn_ok (db_entries db) (current\<lparr>tn_manifest := tn_manifest t, tn_updated := tn_updated t\<rparr>)"
      by (simp add: turn_ok_def turn_shape_def cong: option.case_cong)
    moreover have "updated_turn t current = current\<lparr>tn_manifest := tn_manifest t, tn_updated := tn_updated t\<rparr>"
      by (subst (1) that(3)) (simp add: updated_turn_def)
    ultimately show ?thesis by simp
  qed
  show "valid (\<lambda>db. kept_from db0 db \<and> find_turn (tn_id t) db = Some current)
      (andthen (guard_else
       (tn_status current = TURN_IN_PROGRESS \<and> tn_status t = TURN_IN_PROGRESS \<and> tn_manifest current = expected \<and>
        t = current\<lparr>tn_manifest := tn_manifest t, tn_updated := tn_updated t\<rparr>) ConversationConflict)
      (andthen (update_turn t) (ret t))) (\<lambda>_. kept_from db0) (\<lambda>_ _. True)"
    apply (rule valid_andthen [OF guard_valid])
    apply (rule valid_andthen [OF update_turn_valid [where ?db0.0 = db0]])
     apply (metis ok option.inject)
    apply (rule valid_ret, simp)
    done
qed

lemma direct_command_row_kept: "kept_by db0 (append_direct_command_row e)"
  unfolding append_direct_command_row_def
proof (rule transaction_valid, rule valid_sbind [OF require_thread_valid])
  fix r
  show "valid (\<lambda>db. kept_from db0 db \<and> find_thread (en_thread e) db = Some r)
      (andthen (require_next_sequence e)
      (andthen (append_entry e)
      (sbind (lift_result (monotonic_thread_update r (r\<lparr>th_updated := en_created e\<rparr>))) (\<lambda>thread'.
       andthen (update_thread thread') (ret e))))) (\<lambda>_. kept_from db0) (\<lambda>_ _. True)"
    apply (rule valid_andthen [OF next_sequence_checked])
    apply (rule valid_andthen [OF append_entry_valid [where ?db0.0 = db0 and Q = "\<lambda>db. find_thread (en_thread e) db = Some r"]])
      apply simp
     apply (simp add: find_thread_def)
    apply (rule valid_sbind [OF lift_valid])
    apply (rule valid_weaken [OF written_back [where i = "en_thread e" and r = r and t = "r\<lparr>th_updated := en_created e\<rparr>"]])
          apply simp_all
    done
qed

lemma rows_kept:
  "db_threads db' = db_threads db \<Longrightarrow> db_entries db' = db_entries db \<Longrightarrow> db_turns db' = db_turns db \<Longrightarrow> kept_from db0 db \<Longrightarrow> kept_from db0 db'"
  by (simp add: kept_from_def db_ok_def db_extends_def entries_of_def)

lemma summary_kept: "kept_by db0 (compare_and_swap_summary summary expected)"
  unfolding compare_and_swap_summary_def
  by (rule transaction_valid) (auto simp: valid_def andthen_def sbind_def elim!: rows_kept [rotated 3])

lemma activity_kept: "kept_by db0 (finalize_activity set_exists fresh now draft)"
  unfolding finalize_activity_def
  by (rule transaction_valid) (auto simp: valid_def andthen_def sbind_def elim!: rows_kept [rotated 3])

lemma insert_thread_kept: "kept_by db0 (transaction (insert_thread t))"
proof (rule transaction_valid, rule validI)
  fix db x db'
  assume ok: "kept_from db0 db" and run: "insert_thread t db = (Inr x, db')"
  then have t: "th_id t \<notin> th_id ` set (db_threads db)" and db': "db' = db\<lparr>db_threads := db_threads db @ [t]\<rparr>"
    by (auto simp: insert_thread_def sbind_def andthen_def guard_else_def lookup_row_None split: if_splits)
  have "db_ok db'" using ok t by (auto simp: db' kept_from_def db_ok_def entries_of_def)
  moreover have "db_extends db db'" by (force simp: db' db_extends_def)
  ultimately show "kept_from db0 db'" using ok db_extends_trans by (auto simp: kept_from_def)
qed simp

section \<open>Copies keep it\<close>

lemma entry_by_id_Some: "entry_by_id es i = Some e \<Longrightarrow> e \<in> set es \<and> en_id e = i"
  using lookup_row_key [of en_id i "rev es" e] by (simp add: entry_by_id_def lookup_row_def)

definition holds_entries :: "thread_entry list \<Rightarrow> conv_db \<Rightarrow> bool" where
  "holds_entries es db \<longleftrightarrow> set es \<subseteq> set (db_entries db)"

lemma append_entries_valid:
  "map en_sequence es = [n + 1..<n + 1 + length es] \<Longrightarrow> list_all (\<lambda>e. en_thread e = i) es \<Longrightarrow>
   valid (\<lambda>db. kept_from db0 db \<and> length (entries_of i db) = n \<and> holds_entries fs db)
     (for_each (\<lambda>e. andthen (append_entry e) (ret ())) es)
     (\<lambda>_ db. kept_from db0 db \<and> holds_entries (fs @ es) db) (\<lambda>_ _. True)"
proof (induction es arbitrary: n fs)
  case Nil
  then show ?case by (simp add: valid_def)
next
  case (Cons e es)
  have seq: "en_sequence e = n + 1" "map en_sequence es = [n + 1 + 1..<n + 1 + 1 + length es]"
    using Cons.prems(1) upt_conv_Cons [of "n + 1" "n + 1 + length (e # es)"] by (simp_all del: upt_Suc)
  have i: "en_thread e = i" using Cons.prems(2) by simp
  let ?Q = "\<lambda>db. length (entries_of i db) = n + 1 \<and> holds_entries fs db"
  have "valid (\<lambda>db. kept_from db0 db \<and> length (entries_of i db) = n \<and> holds_entries fs db) (append_entry e)
      (\<lambda>_ db. kept_from db0 db \<and> e \<in> set (db_entries db) \<and> ?Q db) (\<lambda>_ _. True)"
    by (rule append_entry_valid)
      (auto simp: seq(1) i kept_from_def db_ok_def expected_sequence_contiguous holds_entries_def)
  then have one: "valid (\<lambda>db. kept_from db0 db \<and> length (entries_of i db) = n \<and> holds_entries fs db) (andthen (append_entry e) (ret ()))
      (\<lambda>_ db. kept_from db0 db \<and> length (entries_of i db) = n + 1 \<and> holds_entries (fs @ [e]) db) (\<lambda>_ _. True)"
    by (rule valid_andthen) (auto intro!: valid_ret simp: holds_entries_def)
  have "valid (\<lambda>db. kept_from db0 db \<and> length (entries_of i db) = n + 1 \<and> holds_entries (fs @ [e]) db)
     (for_each (\<lambda>e. andthen (append_entry e) (ret ())) es)
     (\<lambda>_ db. kept_from db0 db \<and> holds_entries ((fs @ [e]) @ es) db) (\<lambda>_ _. True)"
    by (rule Cons.IH [OF seq(2)]) (use Cons.prems(2) in simp)
  from valid_andthen [OF one this] show ?case by (simp only: for_each.simps append.simps append_assoc)
qed

lemma insert_fresh_thread:
  "valid (kept_from db0) (insert_thread t)
     (\<lambda>_ db. kept_from db0 db \<and> length (entries_of (th_id t) db) = 0 \<and> holds_entries [] db) (\<lambda>_ _. True)"
proof (rule validI)
  fix db x db'
  assume ok: "kept_from db0 db" and run: "insert_thread t db = (Inr x, db')"
  then have t: "th_id t \<notin> th_id ` set (db_threads db)" and db': "db' = db\<lparr>db_threads := db_threads db @ [t]\<rparr>"
    by (auto simp: insert_thread_def sbind_def andthen_def guard_else_def lookup_row_None split: if_splits)
  have "\<forall>e \<in> set (db_entries db). en_thread e \<noteq> th_id t"
    using ok t unfolding kept_from_def db_ok_def by metis
  then have "entries_of (th_id t) db' = []" by (simp add: db' entries_of_def filter_empty_conv)
  moreover have "transaction (insert_thread t) db = (Inr x, db')" using run by (simp add: transaction_def)
  ultimately show "kept_from db0 db' \<and> length (entries_of (th_id t) db') = 0 \<and> holds_entries [] db'"
    using validD [OF insert_thread_kept ok] by (simp add: holds_entries_def)
qed simp

lemma planned_turn_ok:
  assumes "planned_turn thread es t" and "valid_turn t" and "list_all (\<lambda>e. en_thread e = th_id thread) es" and "holds_entries es db"
  shows "turn_ok (db_entries db) t"
proof -
  have es: "e \<in> set (db_entries db) \<and> en_id e = i \<and> en_thread e = th_id thread" if "entry_by_id es i = Some e" for i e
    using entry_by_id_Some [OF that] assms(3,4) by (auto simp: list_all_iff holds_entries_def)
  obtain user where user: "entry_by_id es (tn_user_entry t) = Some user" "en_kind user = USER_MESSAGE"
      "case tn_assistant_entry t of None \<Rightarrow> True
       | Some a \<Rightarrow> (case entry_by_id es a of None \<Rightarrow> False | Some e \<Rightarrow> en_kind e = ASSISTANT_MESSAGE \<and> en_sequence user < en_sequence e)"
    using assms(1) by (auto simp: planned_turn_def split: option.splits)
  have "case tn_assistant_entry t of None \<Rightarrow> True
     | Some a \<Rightarrow> \<exists>r \<in> set (db_entries db). en_id r = a \<and> en_thread r = tn_thread t \<and> en_kind r = ASSISTANT_MESSAGE \<and> en_sequence user < en_sequence r"
  proof (cases "tn_assistant_entry t")
    case (Some a)
    with user(3) obtain e where e: "entry_by_id es a = Some e" "en_kind e = ASSISTANT_MESSAGE" "en_sequence user < en_sequence e"
      by (auto split: option.splits)
    with es [OF e(1)] assms(1) Some show ?thesis by (auto simp: planned_turn_def)
  qed simp
  moreover have "tn_thread t = th_id thread" "turn_shape t"
    using assms(1,2) by (simp_all add: valid_turn_def planned_turn_def)
  ultimately show ?thesis
    unfolding turn_ok_def using es [OF user(1)] user(2) by (intro conjI bexI [of _ user]) simp_all
qed

lemma insert_materialized_view_valid:
  assumes "valid_plan p"
  shows "valid (kept_from db0) (insert_materialized_view (mp_view p)) (\<lambda>_. kept_from db0) (\<lambda>_ _. True)"
proof -
  let ?v = "mp_view p"
  have plan: "map en_sequence (vw_entries ?v) = [0 + 1..<0 + 1 + length (vw_entries ?v)]"
      "list_all (\<lambda>e. en_thread e = th_id (vw_thread ?v)) (vw_entries ?v)"
      "list_all (planned_turn (vw_thread ?v) (vw_entries ?v)) (vw_turns ?v)" "list_all valid_turn (vw_turns ?v)"
    using assms by (simp_all add: valid_plan_def Let_def)
  let ?P = "\<lambda>db. kept_from db0 db \<and> holds_entries (vw_entries ?v) db"
  have turns: "valid ?P (for_each (\<lambda>t. andthen (insert_turn t) (ret ())) (vw_turns ?v)) (\<lambda>_. ?P) (\<lambda>_ _. True)"
  proof (rule valid_for_each)
    fix t assume "t \<in> set (vw_turns ?v)"
    then have t: "planned_turn (vw_thread ?v) (vw_entries ?v) t" "valid_turn t"
      using plan(3,4) by (simp_all add: list_all_iff)
    have "valid ?P (insert_turn t) (\<lambda>_ db. kept_from db0 db \<and> holds_entries (vw_entries ?v) db) (\<lambda>_ _. True)"
      by (rule insert_turn_valid) (use planned_turn_ok [OF t plan(2)] in \<open>auto simp: holds_entries_def\<close>)
    then show "valid ?P (andthen (insert_turn t) (ret ())) (\<lambda>_. ?P) (\<lambda>_ _. True)"
      by (rule valid_andthen) (simp add: valid_ret)
  qed
  have entries: "valid (\<lambda>db. kept_from db0 db \<and> length (entries_of (th_id (vw_thread ?v)) db) = 0 \<and> holds_entries [] db)
     (for_each (\<lambda>e. andthen (append_entry e) (ret ())) (vw_entries ?v)) (\<lambda>_. ?P) (\<lambda>_ _. True)"
    using append_entries_valid [OF plan(1,2), of db0 "[]"] by simp
  show ?thesis
    unfolding insert_materialized_view_def
    by (rule valid_andthen [OF insert_fresh_thread valid_andthen [OF entries valid_weaken [OF turns]]]) auto
qed

lemma materialize_valid:
  "valid_plan p \<Longrightarrow> valid (kept_from db0) (materialize digest p) (\<lambda>_. kept_from db0) (\<lambda>_ _. True)"
  unfolding materialize_def
  apply (rule valid_sbind [where R = "\<lambda>_. kept_from db0"])
   apply (rule reads_valid, simp split: sum.split)
  apply (rule valid_andthen [OF guard_valid])
  apply (rule valid_andthen [where R = "kept_from db0"])
   apply (rule valid_weaken [OF insert_materialized_view_valid [where ?db0.0 = db0]])
       apply simp_all
  apply (rule reads_valid, simp split: sum.split)
  done

lemma materialize_fork_kept: "valid_plan p \<Longrightarrow> kept_by db0 (materialize_fork digest p)"
  unfolding materialize_fork_def by (intro transaction_valid materialize_valid)

lemma materialize_retry_kept: "valid_plan p \<Longrightarrow> kept_by db0 (materialize_retry digest p r)"
  unfolding materialize_retry_def
  apply (rule transaction_valid)
  apply (rule valid_sbind [OF materialize_valid], assumption)
  apply (auto simp: valid_def andthen_def sbind_def guard_else_def Let_def split: option.splits)
  done

section \<open>The operations of the service keep it\<close>

lemma kept_guard: "(b \<Longrightarrow> kept_by db0 m) \<Longrightarrow> kept_by db0 (andthen (guard_else b e) m)"
  by (cases b) (simp_all add: guard_else_def andthen_def sbind_def valid_def)

lemma kept_raise [simp]: "kept_by db0 (raise e)" and kept_ret [simp]: "kept_by db0 (ret x)"
  by (simp_all add: valid_def)

lemma kept_sbind: "kept_by db0 m \<Longrightarrow> (\<And>x. kept_by db0 (f x)) \<Longrightarrow> kept_by db0 (sbind m f)"
  by (rule valid_sbind)

lemma kept_lift: "(\<And>x. r = Inr x \<Longrightarrow> kept_by db0 (f x)) \<Longrightarrow> kept_by db0 (sbind (lift_result r) f)"
  by (cases r) (simp_all add: sbind_def valid_def)

lemma settings_kept:
  "kept_by db0 (create_thread fresh now workspace title model)" "kept_by db0 (set_skill_mode now i mode)"
  "kept_by db0 (rename_thread now i title')" "kept_by db0 (set_model now i model)" "kept_by db0 (set_thinking now i b)"
  by (auto simp: create_thread_def set_skill_mode_def rename_thread_def set_model_def set_thinking_def Let_def
      set_thread_skill_mode_def rename_thread_row_def set_thread_model_def set_thread_thinking_def
      intro!: kept_guard insert_thread_kept patch_thread_kept)

lemma begin_turn_from_kept:
  "kept_by db0 (begin_turn_from ellipsis entry_id turn_id now thread_id content config client view)"
  unfolding begin_turn_from_def Let_def
  by (rule kept_guard, rule begin_turn_row_kept) (simp_all add: new_turn_def turn_shape_def)

lemma complete_turn_from_kept: "kept_by db0 (complete_turn_from entry_id now content usage termination manifest citations vc)"
  unfolding complete_turn_from_def Let_def
  by (auto split: prod.splits option.splits intro!: kept_guard complete_turn_row_kept
      simp: finished_turn_def assistant_entry_def valid_turn_def)

lemma manifest_from_kept:
  "kept_by db0 (store_manifest_from now manifest vc)" "kept_by db0 (swap_manifest_from now manifest expected vc)"
  unfolding store_manifest_from_def swap_manifest_from_def Let_def
  by (auto split: prod.splits intro!: kept_guard update_in_progress_kept)

lemma terminal_from_kept:
  assumes "turn_shape (snd vc)"
  shows "kept_by db0 (fail_turn_from now error usage manifest vc)" "kept_by db0 (cancel_turn_from now usage manifest vc)"
  using assms unfolding fail_turn_from_def cancel_turn_from_def Let_def
  by (auto split: prod.splits intro!: kept_guard terminal_row_kept simp: turn_transition_def valid_turn_def turn_shape_def)

lemma direct_command_from_kept: "kept_by db0 (append_direct_command_from entry_id now thread_id content metadata view)"
  unfolding append_direct_command_from_def Let_def by (intro kept_guard direct_command_row_kept)

lemma prepared_plan_valid: "prepared_plan ellipsis ids now digest kind workspace st = Inr (p, r) \<Longrightarrow> valid_plan p"
  by (auto simp: prepared_plan_def Let_def split: prod.splits sum.splits if_splits)

lemma copies_kept:
  "kept_by db0 (fork_thread_from ellipsis ids now digest workspace st)"
  "kept_by db0 (prepare_retry_from ellipsis ids now digest workspace st)"
  unfolding fork_thread_from_def prepare_retry_from_def
  by (auto intro!: kept_lift materialize_fork_kept materialize_retry_kept prepared_plan_valid split: option.split)

section \<open>Histories\<close>

text \<open>\<open>conv_step old db db'\<close>: an operation that read \<open>old\<close> writes \<open>db'\<close> over \<open>db\<close>.\<close>

inductive conv_step :: "conv_db \<Rightarrow> conv_db \<Rightarrow> conv_db \<Rightarrow> bool" where
  creating: "conv_step old db (snd (create_thread fresh now workspace title model db))"
| skill_mode: "conv_step old db (snd (set_skill_mode now i mode db))"
| renaming: "conv_step old db (snd (rename_thread now i title db))"
| choosing_model: "conv_step old db (snd (set_model now i model db))"
| thinking: "conv_step old db (snd (set_thinking now i enabled db))"
| beginning: "strip content \<noteq> [] \<Longrightarrow> read_thread i old = Inr view \<Longrightarrow>
    conv_step old db (snd (begin_turn_from ellipsis entry_id turn_id now i content config client view db))"
| completing: "turn_view i old = Inr vc \<Longrightarrow>
    conv_step old db (snd (complete_turn_from entry_id now content usage termination manifest citations vc db))"
| storing_manifest: "turn_view i old = Inr vc \<Longrightarrow> conv_step old db (snd (store_manifest_from now manifest vc db))"
| swapping_manifest: "turn_view i old = Inr vc \<Longrightarrow> conv_step old db (snd (swap_manifest_from now manifest expected vc db))"
| failing: "strip error \<noteq> [] \<Longrightarrow> turn_view i old = Inr vc \<Longrightarrow>
    conv_step old db (snd (fail_turn_from now error seen manifest vc db))"
| cancelling: "turn_view i old = Inr vc \<Longrightarrow> conv_step old db (snd (cancel_turn_from now seen manifest vc db))"
| commanding: "read_thread i old = Inr view \<Longrightarrow>
    conv_step old db (snd (append_direct_command_from entry_id now i content metadata view db))"
| summarizing: "conv_step old db (snd (store_summary summary expected_summary db))"
| auditing: "conv_step old db (snd (finalize_activity set_exists fresh now draft db))"
| forking: "materialization_target workspace i turn_id' old = Inr st \<Longrightarrow>
    conv_step old db (snd (fork_thread_from ellipsis ids now digest workspace st db))"
| retrying: "materialization_target workspace i turn_id' old = Inr st \<Longrightarrow>
    conv_step old db (snd (prepare_retry_from ellipsis ids now digest workspace st db))"

text \<open>The states of the database, the latest one first.  What a writer has read may be any
  state before.\<close>

inductive conv_history :: "conv_db list \<Rightarrow> bool" where
  history_start: "conv_history [empty_db]"
| history_step: "conv_history h \<Longrightarrow> old \<in> set h \<Longrightarrow> conv_step old (hd h) db \<Longrightarrow> conv_history (db # h)"

lemma kept_snd: "kept_by db0 m \<Longrightarrow> kept_from db0 db \<Longrightarrow> kept_from db0 (snd (m db))"
  by (cases "m db"; cases "fst (m db)") (auto simp: valid_def dest!: spec [of _ db])

lemma set_list_turns: "set (list_turns i db) \<subseteq> set (db_turns db)"
  by (auto simp: list_turns_def keyed_turns_def)

lemma turn_view_turn:
  assumes "turn_view i db = Inr (view, t)"
  shows "t \<in> set (db_turns db)" and "tn_id t = i"
proof -
  from assms obtain u :: turn where u: "read_thread (tn_thread u) db = Inr view" "find (\<lambda>t. tn_id t = i) (vw_turns view) = Some t"
    by (cases "find_turn i db") (auto simp: turn_view_def split: option.splits sum.splits)
  then have "vw_turns view = list_turns (tn_thread u) db" by (auto simp: read_thread_def split: option.splits)
  with lookup_row_key [of tn_id i "vw_turns view" t] u(2) set_list_turns show "t \<in> set (db_turns db)" "tn_id t = i"
    by (auto simp: lookup_row_def)
qed

lemma turn_view_shape: "turn_view i db = Inr vc \<Longrightarrow> db_ok db \<Longrightarrow> turn_shape (snd vc)"
  using turn_view_turn(1) [of i db "fst vc" "snd vc"] by (auto simp: db_ok_def turn_ok_def)

lemma conv_step_kept:
  assumes "conv_step old db db'" and "db_ok old" and "kept_from db0 db"
  shows "kept_from db0 db'"
  using assms
proof cases
qed (auto intro!: kept_snd settings_kept begin_turn_from_kept complete_turn_from_kept manifest_from_kept terminal_from_kept
      direct_command_from_kept copies_kept summary_kept [folded store_summary_def] activity_kept dest: turn_view_shape)

lemma empty_db_ok: "db_ok empty_db"
  by (simp add: db_ok_def empty_db_def entries_of_def contiguous_def)

lemma history_kept: "conv_history h \<Longrightarrow> h \<noteq> [] \<and> (\<forall>old \<in> set h. kept_from old (hd h) \<and> db_ok old)"
proof (induction rule: conv_history.induct)
  case history_start
  then show ?case using empty_db_ok by (simp add: kept_from_def)
next
  case (history_step h old db)
  then have "db_ok old" by blast
  with history_step have kept: "kept_from x db" if "x \<in> set h" for x
    using conv_step_kept that by blast
  moreover have "db_ok db" using kept history_step.hyps(2) by (auto simp: kept_from_def)
  ultimately show ?case using history_step.IH by (auto simp: kept_from_def)
qed

section \<open>What readers see\<close>

lemma history_suffix: "conv_history h \<Longrightarrow> i < length h \<Longrightarrow> conv_history (drop i h)"
proof (induction arbitrary: i rule: conv_history.induct)
  case history_start
  then show ?case by (simp add: conv_history.history_start)
next
  case (history_step h old db)
  then show ?case by (cases i) (auto intro: conv_history.history_step)
qed

lemma list_entries_contiguous: "contiguous (entries_of i db) \<Longrightarrow> list_entries i db = entries_of i db"
  unfolding list_entries_def contiguous_def by (rule sort_key_id_if_sorted) (simp del: upt_Suc add: Suc_eq_plus1 [symmetric])

lemma contiguous_nth: "contiguous es \<Longrightarrow> k < length es \<Longrightarrow> en_sequence (es ! k) = k + 1"
  unfolding contiguous_def by (metis (no_types) add.commute length_map nth_map nth_upt length_upt add_diff_cancel_right' less_diff_conv)

lemma next_sequence_read:
  assumes "db_ok db" and "read_thread i db = Inr view"
  shows "next_sequence view = length (entries_of i db) + 1" and "vw_entries view = entries_of i db"
proof -
  have c: "contiguous (entries_of i db)" using assms(1) by (simp add: db_ok_def)
  then show v: "vw_entries view = entries_of i db"
    using assms(2) list_entries_contiguous [of i db] by (auto simp: read_thread_def split: option.splits)
  show "next_sequence view = length (entries_of i db) + 1"
  proof (cases "entries_of i db = []")
    case False
    then show ?thesis
      using contiguous_nth [OF c, of "length (entries_of i db) - 1"] by (simp add: next_sequence_def v last_conv_nth)
  qed (simp add: next_sequence_def v)
qed

lemma filter_before: "contiguous es \<Longrightarrow> n \<le> length es \<Longrightarrow> filter (\<lambda>e. en_sequence e < n + 1) es = take n es"
proof -
  assume c: "contiguous es" and n: "n \<le> length es"
  have "filter (\<lambda>e. en_sequence e < n + 1) (take n es) = take n es"
    using contiguous_nth [OF c] n by (auto simp: filter_id_conv in_set_conv_nth)
  moreover have "filter (\<lambda>e. en_sequence e < n + 1) (drop n es) = []"
    using contiguous_nth [OF c] n by (auto simp: filter_empty_conv in_set_conv_nth)
  ultimately show ?thesis by (metis append_Nil2 append_take_drop_id filter_append)
qed

lemma page_of_list: "rev (take l (take (l + 1) (rev xs))) = drop (length xs - l) xs" "(l < length (take (l + 1) (rev xs))) = (l < length xs)"
  by (simp_all add: rev_take min_def)

lemma entries_page_slice:
  assumes "contiguous (entries_of i db)" and "n \<le> length (entries_of i db)"
  shows "entries_page i (Some (n + 1)) limit db = (drop (n - limit) (take n (entries_of i db)), limit < n)"
    and "entries_page i None limit db = (drop (length (entries_of i db) - limit) (entries_of i db), limit < length (entries_of i db))"
  using assms filter_before [OF assms] list_entries_contiguous [OF assms(1)]
  by (simp_all add: entries_page_def Let_def page_of_list [simplified])

section \<open>What a successful write has done\<close>

lemma transaction_returns: "transaction m db = (Inr x, db') \<longleftrightarrow> m db = (Inr x, db')"
  by (auto simp: transaction_def split: prod.splits sum.splits)

lemma lift_returns: "sbind (lift_result r) f s = (Inr x, s') \<longleftrightarrow> (\<exists>y. r = Inr y \<and> f y s = (Inr x, s'))"
  by (cases r) (simp_all add: sbind_def)

lemma reads_returns: "sbind (reads g) f s = (Inr x, s') \<longleftrightarrow> (\<exists>y. g s = Inr y \<and> f y s = (Inr x, s'))"
  by (cases "g s") (simp_all add: sbind_def)

lemma guard_returns: "andthen (guard_else b e) m s = (Inr x, s') \<longleftrightarrow> b \<and> m s = (Inr x, s')"
  by (simp add: guard_else_def andthen_def sbind_def)

lemma require_returns:
  "sbind (require_thread i) f db = (Inr x, db') \<longleftrightarrow> (\<exists>r. find_thread i db = Some r \<and> f r db = (Inr x, db'))"
  "sbind (require_turn i) g db = (Inr x, db') \<longleftrightarrow> (\<exists>r. find_turn i db = Some r \<and> g r db = (Inr x, db'))"
  by (simp_all add: require_thread_def require_turn_def sbind_def split: option.split)

lemma next_returns:
  "sbind (require_next_sequence e) f db = (Inr x, db') \<longleftrightarrow>
     en_sequence e = expected_sequence (en_thread e) db \<and> f (expected_sequence (en_thread e) db) db = (Inr x, db')"
  "andthen (require_next_sequence e) m db = (Inr x, db') \<longleftrightarrow>
     en_sequence e = expected_sequence (en_thread e) db \<and> m db = (Inr x, db')"
  by (auto simp: require_next_sequence_def sbind_def andthen_def guard_else_def)

lemma append_returns:
  "andthen (append_entry e) m db = (Inr x, db') \<longleftrightarrow>
     \<not> entry_conflicts e db \<and> m (db\<lparr>db_entries := db_entries db @ [e]\<rparr>) = (Inr x, db')"
  by (auto simp: append_entry_def sbind_def andthen_def)

lemma insert_turn_returns:
  "andthen (insert_turn t) m db = (Inr x, db') \<longleftrightarrow>
     \<not> turn_conflicts t db \<and> m (db\<lparr>db_turns := db_turns db @ [t]\<rparr>) = (Inr x, db')"
  by (auto simp: insert_turn_def sbind_def andthen_def)

lemma update_thread_returns:
  "andthen (update_thread t) m db = (Inr x, db') \<Longrightarrow>
     \<exists>ts. m (db\<lparr>db_threads := ts\<rparr>) = (Inr x, db')"
  by (auto simp: update_thread_def require_thread_def sbind_def andthen_def split: option.splits)

lemma update_thread_iff:
  "andthen (update_thread t) m db = (Inr x, db') \<longleftrightarrow> find_thread (th_id t) db \<noteq> None \<and>
     m (db\<lparr>db_threads := map (\<lambda>r. if th_id r = th_id t then t\<lparr>th_created := th_created r\<rparr> else r) (db_threads db)\<rparr>) = (Inr x, db')"
  by (auto simp: update_thread_def require_thread_def sbind_def andthen_def split: option.splits)

lemma touch_thread_returns:
  "andthen (touch_thread i now) m db = (Inr x, db') \<Longrightarrow> \<exists>ts. m (db\<lparr>db_threads := ts\<rparr>) = (Inr x, db')"
  by (auto simp: touch_thread_def update_thread_def require_thread_def sbind_def andthen_def split: option.splits sum.splits prod.splits)

lemma update_turn_returns:
  "andthen (update_turn t) m db = (Inr x, db') \<Longrightarrow>
     m (db\<lparr>db_turns := map (\<lambda>r. if tn_id r = tn_id t then updated_turn t r else r) (db_turns db)\<rparr>) = (Inr x, db')"
  by (auto simp: update_turn_def require_turn_def sbind_def andthen_def split: option.splits if_splits)

lemmas write_returns =
  transaction_returns lift_returns reads_returns guard_returns require_returns next_returns append_returns insert_turn_returns

lemma begin_row_returns:
  assumes "begin_turn_row e t title now db = (Inr x, db')"
  shows "x = t \<and> in_progress_turn (tn_thread t) db = None \<and> en_sequence e = expected_sequence (en_thread e) db \<and>
    \<not> turn_conflicts t (db\<lparr>db_entries := db_entries db @ [e]\<rparr>) \<and>
    db_entries db' = db_entries db @ [e] \<and> db_turns db' = db_turns db @ [t]"
  using assms unfolding begin_turn_row_def
  by (auto simp: write_returns andthen_def [of "reads f" for f] split: if_splits dest!: update_thread_returns)

lemma complete_row_returns:
  assumes "complete_turn_row e t db = (Inr x, db')"
  shows "x = t \<and> en_sequence e = expected_sequence (en_thread e) db \<and>
    (\<exists>r. find_turn (tn_id t) db = Some r \<and> tn_status r = TURN_IN_PROGRESS \<and> tn_thread r = en_thread e) \<and>
    db_entries db' = db_entries db @ [e] \<and>
    db_turns db' = map (\<lambda>r. if tn_id r = tn_id t then updated_turn t r else r) (db_turns db)"
  using assms unfolding complete_turn_row_def
  by (auto simp: write_returns turn_transition_def simp del: run_sbind_prims run_andthen_prims dest!: update_turn_returns touch_thread_returns)

lemma begin_turn_from_busy: "begin_turn_from a b c d e f g j v db = (Inl x, db') \<Longrightarrow> db' = db"
  by (auto simp: begin_turn_from_def Let_def andthen_def sbind_def guard_else_def begin_turn_row_def transaction_def
      split: if_splits prod.splits sum.splits)

lemma direct_command_refused: "append_direct_command_from a b c d g v db = (Inl x, db') \<Longrightarrow> db' = db"
  by (auto simp: append_direct_command_from_def Let_def andthen_def sbind_def guard_else_def append_direct_command_row_def transaction_def
      split: if_splits prod.splits sum.splits)

lemma direct_row_returns:
  assumes "append_direct_command_row e db = (Inr x, db')"
  shows "x = e \<and> en_sequence e = expected_sequence (en_thread e) db \<and> db_entries db' = db_entries db @ [e] \<and> db_turns db' = db_turns db"
  using assms unfolding append_direct_command_row_def
  by (auto simp: write_returns dest!: update_thread_returns)

lemma begin_from_returns:
  assumes "begin_turn_from ellipsis entry_id turn_id now i content config client view db = (Inr x, db')"
  shows "begin_turn_row
      \<lparr>en_id = entry_id, en_thread = i, en_sequence = next_sequence view, en_kind = USER_MESSAGE, en_content = content,
       en_client = Some client, en_metadata = [], en_created = now\<rparr>
      (new_turn turn_id i now config entry_id)
      (if th_title_source (vw_thread view) = AUTOMATIC \<and> vw_entries view = [] then Some (automatic_title ellipsis content) else None)
      now db = (Inr x, db')"
  using assms unfolding begin_turn_from_def Let_def guard_returns by (rule conjunct2)


lemma grown_entries:
  assumes "kept_from old db" and "length (entries_of i old) = length (entries_of i db)"
  shows "entries_of i db = entries_of i old"
proof -
  obtain es where es: "entries_of i db = entries_of i old @ es"
    using assms(1) by (auto simp: kept_from_def db_extends_def entries_of_def)
  then have "es = []" using assms(2) by (metis add_cancel_right_right length_0_conv length_append)
  with es show ?thesis by simp
qed

definition user_message :: "string \<Rightarrow> string \<Rightarrow> nat \<Rightarrow> string \<Rightarrow> string \<Rightarrow> time \<Rightarrow> thread_entry" where
  "user_message entry_id i n content client now =
     \<lparr>en_id = entry_id, en_thread = i, en_sequence = n, en_kind = USER_MESSAGE, en_content = content,
      en_client = Some client, en_metadata = [], en_created = now\<rparr>"

lemma begin_returns:
  assumes ok: "db_ok old" and view: "read_thread i old = Inr view" and "kept_from old db"
    and run: "begin_turn_from ellipsis entry_id turn_id now i content config client view db = (Inr t, db')"
  shows "t = new_turn turn_id i now config entry_id \<and> in_progress_turn i db = None \<and> entries_of i db = entries_of i old \<and>
    db_turns db' = db_turns db @ [t] \<and>
    db_entries db' = db_entries db @ [user_message entry_id i (length (entries_of i db) + 1) content client now]"
proof -
  define e where "e = user_message entry_id i (next_sequence view) content client now"
  define t0 where "t0 = new_turn turn_id i now config entry_id"
  obtain title' where "begin_turn_row e t0 title' now db = (Inr t, db')"
    using begin_from_returns [OF run] unfolding e_def t0_def user_message_def by blast
  note ret = begin_row_returns [OF this]
  have i: "en_thread e = i" "tn_thread t0 = i" "en_sequence e = next_sequence view" by (simp_all add: e_def user_message_def t0_def new_turn_def)
  have "db_ok db" using assms(3) by (simp add: kept_from_def)
  then have seq: "expected_sequence i db = length (entries_of i db) + 1"
    by (simp add: expected_sequence_contiguous db_ok_def)
  moreover have "length (entries_of i old) = length (entries_of i db)"
    using ret seq next_sequence_read [OF ok view] i by simp
  ultimately have same: "entries_of i db = entries_of i old" using grown_entries assms(3) by simp
  have "next_sequence view = length (entries_of i db) + 1" using next_sequence_read [OF ok view] same by simp
  then have "e = user_message entry_id i (length (entries_of i db) + 1) content client now" by (simp only: e_def)
  with ret same i(2) show ?thesis by (simp add: t0_def)
qed

lemma direct_returns:
  assumes ok: "db_ok old" and view: "read_thread i old = Inr view" and "kept_from old db"
    and run: "append_direct_command_from entry_id now i content metadata view db = (Inr x, db')"
  shows "entries_of i db = entries_of i old"
proof -
  obtain e where e: "en_thread e = i" "en_sequence e = next_sequence view" "append_direct_command_row e db = (Inr x, db')"
  proof
    show "append_direct_command_row \<lparr>en_id = entry_id, en_thread = i, en_sequence = next_sequence view, en_kind = DIRECT_COMMAND_ENTRY,
      en_content = content, en_client = None, en_metadata = metadata, en_created = now\<rparr> db = (Inr x, db')"
      using run unfolding append_direct_command_from_def Let_def guard_returns by (rule conjunct2)
  qed simp_all
  have "db_ok db" using assms(3) by (simp add: kept_from_def)
  then have "expected_sequence i db = length (entries_of i db) + 1"
    by (simp add: expected_sequence_contiguous db_ok_def)
  then have "length (entries_of i old) = length (entries_of i db)"
    using direct_row_returns [OF e(3)] e next_sequence_read [OF ok view] by simp
  then show ?thesis using grown_entries assms(3) by simp
qed

text \<open>C12: In every history of the database, whatever older state a writer has read: the entries of a thread
  are numbered 1, 2, 3 in the order they were written, identifiers are unique, a thread has at most one turn in
  progress, and a turn has its user message and, when it has an answer, the answer after it.\<close>

theorem conversation_rows_invariant:
  assumes "conv_history h"
  shows "list_all db_ok h"
  using history_kept [OF assms] by (simp add: list_all_iff)

definition demo_thread :: conv_db where
  "demo_thread = snd (create_thread ''thread_1'' 5 ''workspace'' None None empty_db)"

lemma demo_thread_history: "conv_history [demo_thread, empty_db]"
  unfolding demo_thread_def by (rule history_step [OF history_start, where old = empty_db]) (simp, simp only: list.sel conv_step.creating)

theorem conversation_rows_invariant_witness: "list_all db_ok [demo_thread, empty_db]"
  by (rule conversation_rows_invariant [OF demo_thread_history])

text \<open>C13: From any state of a history to a later one the entries are only appended, a turn that is over does
  not change, a turn keeps its thread, message, model and budgets, and the time of a thread does not go back.\<close>

theorem transcripts_append_only:
  assumes "conv_history h" and "i \<le> j" and "j < length h"
  shows "db_extends (h ! j) (h ! i)"
proof -
  have "conv_history (drop i h)" using history_suffix assms by simp
  moreover have "drop i h ! (j - i) \<in> set (drop i h)" using assms by (intro nth_mem) simp
  then have "h ! j \<in> set (drop i h)" using assms by (simp add: nth_drop)
  ultimately show ?thesis
    using history_kept [of "drop i h"] assms by (auto simp: kept_from_def hd_drop_conv_nth)
qed

theorem transcripts_append_only_witness: "db_extends empty_db demo_thread"
  using transcripts_append_only [OF demo_thread_history, of 0 1] by simp

text \<open>A message or a direct command that was composed from a view whose thread has grown since is refused,
  and the database stays as it is.\<close>

theorem stale_views_write_nothing:
  assumes "conv_history h" and "old \<in> set h" and "read_thread i old = Inr view" and "entries_of i (hd h) \<noteq> entries_of i old"
  shows "(\<exists>e. begin_turn_from ellipsis entry_id turn_id now i content config client view (hd h) = (Inl e, hd h)) \<and>
    (\<exists>e. append_direct_command_from entry_id now i content metadata view (hd h) = (Inl e, hd h))"
proof (intro conjI)
  have ok: "db_ok old" "kept_from old (hd h)" using history_kept assms(1,2) by blast+
  show "\<exists>e. begin_turn_from ellipsis entry_id turn_id now i content config client view (hd h) = (Inl e, hd h)"
  proof (cases "begin_turn_from ellipsis entry_id turn_id now i content config client view (hd h)")
    case (Pair r db)
    show ?thesis
    proof (cases r)
      case (Inl e)
      with Pair begin_turn_from_busy show ?thesis by blast
    next
      case (Inr t)
      with begin_returns [OF ok(1) assms(3) ok(2)] Pair assms(4) show ?thesis by blast
    qed
  qed
  show "\<exists>e. append_direct_command_from entry_id now i content metadata view (hd h) = (Inl e, hd h)"
  proof (cases "append_direct_command_from entry_id now i content metadata view (hd h)")
    case (Pair r db)
    show ?thesis
    proof (cases r)
      case (Inl e)
      with Pair direct_command_refused show ?thesis by blast
    next
      case (Inr t)
      with direct_returns [OF ok(1) assms(3) ok(2)] Pair assms(4) show ?thesis by blast
    qed
  qed
qed


definition demo_config :: turn_config where
  "demo_config =
     \<lparr>tf_provider = ''deepseek'', tf_model = ''chat'', tf_thinking = False, tf_skill_mode = ''auto'',
      tf_budgets = \<lparr>bg_model_calls = 32, bg_tool_calls = 64, bg_retries = 2, bg_compressions = 2, bg_active_seconds = 1800,
        bg_context_tokens = 128000, bg_web_requests = 4\<rparr>\<rparr>"


definition demo_row :: thread where
  "demo_row =
     \<lparr>th_id = ''thread_1'', th_workspace = ''workspace'', th_title = ''New conversation'', th_title_source = AUTOMATIC,
      th_model = None, th_thinking = True, th_skill_mode = ''auto'', th_lineage = None, th_created = 5, th_updated = 5\<rparr>"

definition demo_view :: thread_view where
  "demo_view = \<lparr>vw_thread = demo_row, vw_entries = [], vw_turns = [], vw_summary = None, vw_activities = []\<rparr>"

lemma demo_thread_rows: "demo_thread = empty_db\<lparr>db_threads := [demo_row]\<rparr>"
  by (simp add: demo_thread_def create_thread_def Let_def valid_thread_def bounded_def bounded_option_def demo_row_def empty_db_def
      transaction_def insert_thread_def lookup_row_def guard_else_def andthen_def sbind_def)

lemma demo_read: "read_thread ''thread_1'' demo_thread = Inr demo_view"
  by (simp add: demo_view_def demo_thread_rows read_thread_def find_thread_def empty_db_def demo_row_def lookup_row_def
      list_entries_def entries_of_def list_turns_def keyed_turns_def find_summary_def list_activities_def)



definition begun_thread :: "string option \<Rightarrow> time \<Rightarrow> nat \<Rightarrow> thread \<Rightarrow> thread" where
  "begun_thread title now n r =
     (case title of
        Some new \<Rightarrow> if th_title_source r = AUTOMATIC \<and> n = 1 then r\<lparr>th_title := new, th_updated := now\<rparr> else r\<lparr>th_updated := now\<rparr>
      | None \<Rightarrow> r\<lparr>th_updated := now\<rparr>)"

lemma begin_row_succeeds:
  assumes "find_thread (tn_thread t) db = Some r" and "in_progress_turn (tn_thread t) db = None"
    and "en_sequence e = expected_sequence (en_thread e) db" and "\<not> entry_conflicts e db"
    and "\<not> turn_conflicts t (db\<lparr>db_entries := db_entries db @ [e]\<rparr>)"
    and "monotonic_thread_update r (begun_thread title now (en_sequence e) r) = Inr r'" and "th_id r' = th_id r" and "th_created r' = th_created r"
    and "db_threads db = [r]"
  shows "begin_turn_row e t title now db =
    (Inr t, db\<lparr>db_threads := [r'], db_entries := db_entries db @ [e], db_turns := db_turns db @ [t]\<rparr>)"
proof -
  have "find_thread (th_id r') (db\<lparr>db_entries := es, db_turns := ts\<rparr>) \<noteq> None" for es ts
    using assms(7,9) by (simp add: find_thread_def lookup_row_def)
  moreover have "r'\<lparr>th_created := th_created r\<rparr> = r'" using assms(8) by (cases r') simp
  ultimately show ?thesis
    using assms unfolding begin_turn_row_def begun_thread_def [symmetric] andthen_def [of "reads f" for f]
    by (simp del: run_andthen_prims run_sbind_prims add: write_returns update_thread_iff)
qed

definition demo_busy :: conv_db where
  "demo_busy = snd (begin_turn_from [] ''entry_1'' ''turn_1'' 6 ''thread_1'' ''hello'' demo_config ''client_a'' demo_view demo_thread)"

lemma demo_busy_history: "conv_history [demo_busy, demo_thread, empty_db]"
proof (rule history_step [OF demo_thread_history, where old = demo_thread])
  show "conv_step demo_thread (hd [demo_thread, empty_db]) demo_busy"
    unfolding demo_busy_def list.sel by (rule beginning [OF _ demo_read]) code_simp
qed simp

lemma demo_begun: "begun_thread (Some ''hello'') 6 1 demo_row = demo_row\<lparr>th_title := ''hello'', th_updated := 6\<rparr>"
  by (simp add: begun_thread_def demo_row_def)

lemma demo_begun_valid: "valid_thread (demo_row\<lparr>th_title := ''hello'', th_updated := 6\<rparr>)"
  by (simp add: demo_row_def valid_thread_def bounded_def bounded_option_def)

lemma demo_row_time: "max (th_updated demo_row) 6 = 6"
  by (simp add: demo_row_def)

lemma demo_begin:
  "begin_turn_from [] ''entry_1'' ''turn_1'' 6 ''thread_1'' ''hello'' demo_config ''client_a'' demo_view demo_thread =
     (Inr (new_turn ''turn_1'' ''thread_1'' 6 demo_config ''entry_1''),
      \<lparr>db_threads = [demo_row\<lparr>th_title := ''hello'', th_updated := 6\<rparr>],
       db_entries = [user_message ''entry_1'' ''thread_1'' 1 ''hello'' ''client_a'' 6],
       db_turns = [new_turn ''turn_1'' ''thread_1'' 6 demo_config ''entry_1''], db_summaries = [], db_activities = []\<rparr>)"
proof -
  have a: "valid_client_id ''client_a''" by code_simp
  have b: "automatic_title [] ''hello'' = ''hello''" by code_simp
  have e: "valid_entry (user_message ''entry_1'' ''thread_1'' 1 ''hello'' ''client_a'' 6)"
    by (simp add: valid_entry_def user_message_def bounded_def a MAX_JSON_SAFE_INTEGER_def)
  have t: "valid_turn (new_turn ''turn_1'' ''thread_1'' 6 demo_config ''entry_1'')"
    by (simp add: valid_turn_def bounded_def bounded_option_def new_turn_def demo_config_def
      valid_budget_config_def valid_usage_def empty_usage_def turn_shape_def MAX_JSON_SAFE_INTEGER_def)
  have n: "next_sequence demo_view = 1" "vw_entries demo_view = []" "th_title_source (vw_thread demo_view) = AUTOMATIC"
    by (simp_all add: demo_view_def demo_row_def next_sequence_def)
  have rows [simp]: "db_threads demo_thread = [demo_row]" "db_entries demo_thread = []" "db_turns demo_thread = []"
    by (simp_all add: demo_thread_rows empty_db_def)
  have u [simp]: "en_id (user_message a b c d x y) = a" "en_thread (user_message a b c d x y) = b" "en_sequence (user_message a b c d x y) = c"
    "en_kind (user_message a b c d x y) = USER_MESSAGE" "en_client (user_message a b c d x y) = Some x" for a b c d x y
    by (simp_all add: user_message_def)
  have v [simp]: "tn_id (new_turn a b c d x) = a" "tn_thread (new_turn a b c d x) = b" "tn_checkpoint (new_turn a b c d x) = a"
     "tn_user_entry (new_turn a b c d x) = x" "tn_assistant_entry (new_turn a b c d x) = None" for a b c d x
    by (simp_all add: new_turn_def)
  have r [simp]: "th_id demo_row = ''thread_1''" by (simp add: demo_row_def)
  have row: "begin_turn_row (user_message ''entry_1'' ''thread_1'' 1 ''hello'' ''client_a'' 6)
      (new_turn ''turn_1'' ''thread_1'' 6 demo_config ''entry_1'') (Some ''hello'') 6 demo_thread =
    (Inr (new_turn ''turn_1'' ''thread_1'' 6 demo_config ''entry_1''),
     demo_thread\<lparr>db_threads := [demo_row\<lparr>th_title := ''hello'', th_updated := 6\<rparr>],
       db_entries := db_entries demo_thread @ [user_message ''entry_1'' ''thread_1'' 1 ''hello'' ''client_a'' 6],
       db_turns := db_turns demo_thread @ [new_turn ''turn_1'' ''thread_1'' 6 demo_config ''entry_1'']\<rparr>)"
  proof (rule begin_row_succeeds)
    show "monotonic_thread_update demo_row (begun_thread (Some ''hello'') 6 (en_sequence (user_message ''entry_1'' ''thread_1'' 1 ''hello'' ''client_a'' 6)) demo_row)
      = Inr (demo_row\<lparr>th_title := ''hello'', th_updated := 6\<rparr>)"
      unfolding u demo_begun monotonic_thread_update_def Let_def by (simp add: demo_begun_valid demo_row_time)
  qed (simp_all add: find_thread_def lookup_row_def in_progress_turn_def expected_sequence_def entries_of_def entry_conflicts_def
      turn_conflicts_def find_turn_def turn_references_def has_entry_def)
  then show ?thesis
    using e t by (simp add: begin_turn_from_def Let_def n b user_message_def [symmetric]) (simp add: guard_else_def andthen_def sbind_def demo_thread_rows empty_db_def)
qed

lemma demo_busy_rows: "entries_of ''thread_1'' demo_busy \<noteq> entries_of ''thread_1'' demo_thread"
  unfolding demo_busy_def demo_begin by (simp add: entries_of_def user_message_def demo_thread_rows empty_db_def)

theorem stale_views_write_nothing_witness:
  "(\<exists>e. begin_turn_from [] ''entry_2'' ''turn_2'' 7 ''thread_1'' ''more'' demo_config ''client_b'' demo_view demo_busy = (Inl e, demo_busy)) \<and>
   (\<exists>e. append_direct_command_from ''entry_2'' 7 ''thread_1'' ''ls'' [] demo_view demo_busy = (Inl e, demo_busy))"
  using stale_views_write_nothing [OF demo_busy_history, of demo_thread "''thread_1''" demo_view] demo_read demo_busy_rows by simp

lemma find_at_last: "find P xs = None \<Longrightarrow> P x \<Longrightarrow> find P (xs @ [x]) = Some x"
  by (induction xs) (auto split: if_splits)

lemma in_progress_found:
  "in_progress_turn i db = None \<Longrightarrow> db_turns db' = db_turns db @ [t] \<Longrightarrow> tn_thread t = i \<Longrightarrow> tn_status t = TURN_IN_PROGRESS \<Longrightarrow>
   in_progress_turn i db' = Some t"
  by (simp add: in_progress_turn_def find_at_last)

text \<open>C36: A turn begins only in a thread without a turn in progress.  Then the thread has one more entry, the
  message with the next number, the turn is the one in progress, and no other thread has a new entry.\<close>

theorem begin_turn_effect:
  assumes "conv_history h" and "begin_turn ellipsis entry_id turn_id now i content config client (hd h) = (Inr t, db)"
  shows "in_progress_turn i (hd h) = None \<and> in_progress_turn i db = Some t \<and> db_turns db = db_turns (hd h) @ [t] \<and>
    tn_user_entry t = entry_id \<and> tn_budgets t = tf_budgets config \<and>
    entries_of i db = entries_of i (hd h) @ [user_message entry_id i (length (entries_of i (hd h)) + 1) content client now] \<and>
    (\<forall>j. entries_of j db = entries_of j (hd h) \<or> j = i)"
proof -
  have ok: "db_ok (hd h)" "kept_from (hd h) (hd h)" using history_kept [OF assms(1)] by auto
  obtain view where v: "read_thread i (hd h) = Inr view"
      "begin_turn_from ellipsis entry_id turn_id now i content config client view (hd h) = (Inr t, db)"
    using assms(2) unfolding begin_turn_def guard_returns reads_returns by blast
  note ret = begin_returns [OF ok(1) v(1) ok(2) v(2)]
  then have t: "t = new_turn turn_id i now config entry_id" and e: "db_entries db = db_entries (hd h) @
      [user_message entry_id i (length (entries_of i (hd h)) + 1) content client now]" and ts: "db_turns db = db_turns (hd h) @ [t]"
      and none: "in_progress_turn i (hd h) = None" by simp_all
  have f: "tn_thread t = i" "tn_status t = TURN_IN_PROGRESS" "tn_user_entry t = entry_id" "tn_budgets t = tf_budgets config"
    by (simp_all add: t new_turn_def)
  have "entries_of j db = entries_of j (hd h) @ (if j = i then [user_message entry_id i (length (entries_of i (hd h)) + 1) content client now] else [])" for j
    by (simp add: entries_of_def e user_message_def)
  then show ?thesis using in_progress_found [OF none ts f(1,2)] ts f(3,4) none by auto
qed

theorem begin_turn_effect_witness:
  "in_progress_turn ''thread_1'' demo_busy = Some (new_turn ''turn_1'' ''thread_1'' 6 demo_config ''entry_1'')"
proof -
  have run: "begin_turn [] ''entry_1'' ''turn_1'' 6 ''thread_1'' ''hello'' demo_config ''client_a'' (hd [demo_thread, empty_db])
      = (Inr (new_turn ''turn_1'' ''thread_1'' 6 demo_config ''entry_1''), demo_busy)"
    unfolding begin_turn_def guard_returns reads_returns list.sel
  proof (intro conjI exI [of _ demo_view])
    show "strip ''hello'' \<noteq> []" by code_simp
    show "read_thread ''thread_1'' demo_thread = Inr demo_view" by (rule demo_read)
    show "begin_turn_from [] ''entry_1'' ''turn_1'' 6 ''thread_1'' ''hello'' demo_config ''client_a'' demo_view demo_thread
      = (Inr (new_turn ''turn_1'' ''thread_1'' 6 demo_config ''entry_1''), demo_busy)"
      by (simp only: demo_busy_def demo_begin snd_conv)
  qed
  show ?thesis using begin_turn_effect [OF demo_thread_history run] by simp
qed

text \<open>C38: In a history a page of a thread that ends before entry \<open>n + 1\<close> holds the last entries up to number
  \<open>n\<close>, as many as the limit allows, in order, and says whether older ones are left; the first page ends with the
  last entry.  So the pages that a client reads from the last to the first are the whole transcript.\<close>

theorem transcript_pages:
  assumes "conv_history h" and "n \<le> length (entries_of i (hd h))"
  shows "entries_page i (Some (n + 1)) limit (hd h) = (drop (n - limit) (take n (entries_of i (hd h))), limit < n) \<and>
    entries_page i None limit (hd h) =
      (drop (length (entries_of i (hd h)) - limit) (entries_of i (hd h)), limit < length (entries_of i (hd h)))"
proof -
  have "contiguous (entries_of i (hd h))" using history_kept [OF assms(1)] by (auto simp: db_ok_def)
  from entries_page_slice [OF this assms(2)] show ?thesis by simp
qed

theorem transcript_pages_witness: "fst (entries_page ''thread_1'' None 20 demo_busy) = [user_message ''entry_1'' ''thread_1'' 1 ''hello'' ''client_a'' 6]"
proof -
  have "entries_of ''thread_1'' demo_busy = [user_message ''entry_1'' ''thread_1'' 1 ''hello'' ''client_a'' 6]"
    unfolding demo_busy_def demo_begin by (simp add: entries_of_def user_message_def)
  then show ?thesis using transcript_pages [OF demo_busy_history, of 0 "''thread_1''" 20] by simp
qed

lemma find_unique:
  assumes "distinct (map k xs)" and "x \<in> set xs"
  shows "find (\<lambda>y. k y = k x) xs = Some x"
  using assms by (induction xs) auto

lemma find_among:
  assumes "distinct (map k xs)" and "set ys \<subseteq> set xs" and "x \<in> set ys"
  shows "find (\<lambda>y. k y = k x) ys = Some x"
proof -
  have "find (\<lambda>y. k y = k x) ys \<noteq> None" using assms(3) by (auto simp: find_None_iff)
  then obtain y where y: "find (\<lambda>y. k y = k x) ys = Some y" by blast
  then have "y \<in> set ys" "k y = k x" by (auto simp: find_Some_iff)
  then have "y = x" using assms by (auto simp: distinct_map inj_on_def)
  with y show ?thesis by simp
qed

lemma turn_view_of:
  assumes ok: "db_ok db" and t: "t \<in> set (db_turns db)"
  obtains view where "turn_view (tn_id t) db = Inr (view, t)" and "vw_entries view = entries_of (tn_thread t) db"
proof -
  have d: "distinct (map tn_id (db_turns db))" and "turn_ok (db_entries db) t" and th: "tn_thread t \<in> th_id ` set (db_threads db)"
    using ok t by (simp_all add: db_ok_def)
  then obtain e where "e \<in> set (db_entries db)" "en_id e = tn_user_entry t" "en_thread e = tn_thread t"
    by (auto simp: turn_ok_def)
  then have "t \<in> set (list_turns (tn_thread t) db)"
    using t by (force simp: list_turns_def keyed_turns_def entries_of_def)
  then have f: "find (\<lambda>y. tn_id y = tn_id t) (list_turns (tn_thread t) db) = Some t"
    using find_among [OF d set_list_turns] by blast
  obtain r where "find_thread (tn_thread t) db = Some r" using find_thread_Some [of "tn_thread t" db] th by auto
  then obtain view where view: "read_thread (tn_thread t) db = Inr view" "vw_turns view = list_turns (tn_thread t) db"
    by (simp add: read_thread_def)
  have "turn_view (tn_id t) db = Inr (view, t)"
    using find_unique [OF d t] view f by (simp add: turn_view_def find_turn_def lookup_row_def)
  then show thesis using that next_sequence_read(2) [OF ok view(1)] by blast
qed

lemma updated_finished: "updated_turn (finished_turn e now usage termination manifest r) r = finished_turn e now usage termination manifest r"
  by (simp add: updated_turn_def finished_turn_def)

text \<open>C37: Completing a turn again with the same answer, usage, reason, manifest and citations returns the turn that
  is already completed and leaves the database as it is, whatever identifier and time the second attempt has.\<close>

theorem complete_turn_idempotent:
  assumes "conv_history h" and "complete_turn entry_id now i content usage termination manifest citations (hd h) = (Inr t, db)"
  shows "complete_turn entry_id' now' i content usage termination manifest citations db = (Inr t, db) \<and> tn_status t = TURN_COMPLETED"
proof -
  have ok: "db_ok (hd h)" "kept_from (hd h) (hd h)" using history_kept [OF assms(1)] by auto
  obtain view current where v: "turn_view i (hd h) = Inr (view, current)"
      and run: "complete_turn_from entry_id now content usage termination manifest citations (view, current) (hd h) = (Inr t, db)"
    using assms(2) unfolding complete_turn_def reads_returns by auto
  show ?thesis
  proof (cases "tn_status current = TURN_COMPLETED")
    case True
    with run have "t = current" "db = hd h"
      by (auto simp: complete_turn_from_def split: option.splits if_splits)
    moreover have "complete_turn_from entry_id' now' content usage termination manifest citations (view, current) (hd h) = (Inr t, db)"
      using run True by (simp add: complete_turn_from_def)
    ultimately show ?thesis using v True by (simp add: complete_turn_def sbind_def)
  next
    case False
    obtain m where m: "assistant_metadata citations = Some m"
        and row: "complete_turn_row (assistant_entry entry_id now content m view current) (finished_turn entry_id now usage termination manifest current) (hd h) = (Inr t, db)"
      using run False unfolding complete_turn_from_def Let_def
      by (auto simp: guard_returns simp del: run_andthen_prims split: option.splits if_splits)
    define e where "e = assistant_entry entry_id now content m view current"
    note ret = complete_row_returns [OF row, folded e_def]
    have t: "t = finished_turn entry_id now usage termination manifest current" using ret by simp
    have cur: "current \<in> set (db_turns (hd h))" "tn_id current = i" using turn_view_turn [OF v] by simp_all
    have i: "tn_id t = i" "tn_thread t = tn_thread current" using cur by (simp_all add: t finished_turn_def)
    have "updated_turn t current = t" by (simp add: t updated_finished)
    moreover have "db_turns db = map (\<lambda>r. if tn_id r = tn_id t then updated_turn t r else r) (db_turns (hd h))"
      using ret by (simp add: t)
    ultimately have "t \<in> set (db_turns db)" using cur i by (force simp: image_iff)
    moreover have "db_ok db"
      using kept_snd [OF complete_turn_from_kept ok(2)] run by (metis kept_from_def snd_conv)
    ultimately obtain view' where v': "turn_view i db = Inr (view', t)" and es: "vw_entries view' = entries_of (tn_thread t) db"
      using turn_view_of i by metis
    have "e \<in> set (entries_of (tn_thread t) db)" using ret i by (simp add: entries_of_def e_def assistant_entry_def)
    moreover have "distinct (map en_id (db_entries db))" using \<open>db_ok db\<close> by (simp add: db_ok_def)
    ultimately have "find (\<lambda>y. en_id y = en_id e) (vw_entries view') = Some e"
      unfolding es by (intro find_among [where xs = "db_entries db"]) (auto simp: entries_of_def)
    then have "completed_entry content view' t = Some e"
      by (simp add: completed_entry_def t finished_turn_def e_def assistant_entry_def)
    moreover have "en_metadata e = m" by (simp add: e_def assistant_entry_def)
    ultimately have "complete_turn_from entry_id' now' content usage termination manifest citations (view', t) db = (Inr t, db)"
      using m by (simp add: complete_turn_from_def t finished_turn_def recorded_manifest_def)
    moreover have "tn_status t = TURN_COMPLETED" by (simp add: t finished_turn_def)
    ultimately show ?thesis using v' by (simp add: complete_turn_def sbind_def)
  qed
qed


lemma run_require_thread: "find_thread i db = Some r \<Longrightarrow> require_thread i db = (Inr r, db)"
  by (simp add: require_thread_def)

lemma complete_row_succeeds:
  assumes "find_turn (tn_id t) db = Some r" and "tn_status r = TURN_IN_PROGRESS" and "manifest_unchanged r t" and "tn_thread r = en_thread e"
    and "en_sequence e = expected_sequence (en_thread e) db" and "\<not> entry_conflicts e db"
    and "turn_references (updated_turn t r) (db\<lparr>db_entries := db_entries db @ [e]\<rparr>)" and "tn_status t \<noteq> TURN_IN_PROGRESS"
    and "find_thread (tn_thread t) db = Some th" and "th_id th = tn_thread t" and "monotonic_thread_update th (th\<lparr>th_updated := tn_updated t\<rparr>) = Inr th'"
  shows "fst (complete_turn_row e t db) = Inr t"
proof -
  let ?db = "db\<lparr>db_entries := db_entries db @ [e]\<rparr>"
  have "find_turn (tn_id t) ?db = Some r" using assms(1) by (simp add: find_turn_def)
  then have up: "update_turn t ?db = (Inr t, ?db\<lparr>db_turns := map (\<lambda>r. if tn_id r = tn_id t then updated_turn t r else r) (db_turns db)\<rparr>)"
    using assms(7,8) by (simp add: update_turn_def require_turn_def sbind_def andthen_def)
  have th': "th_id th' = th_id th" using monotonic_times [OF assms(11)] by simp
  have touch: "fst (touch_thread (tn_thread t) (tn_updated t) (db\<lparr>db_entries := es, db_turns := ts\<rparr>)) = Inr ()" for es ts
  proof -
    let ?d = "db\<lparr>db_entries := es, db_turns := ts\<rparr>"
    have a: "find_thread (tn_thread t) ?d = Some th" "find_thread (th_id th') ?d = Some th" using assms(9,10) th' by (simp_all add: find_thread_def)
    obtain d' where d': "update_thread th' ?d = (Inr th', d')"
      by (simp add: update_thread_def andthen_def [of "require_thread i" for i] sbind_def [of "require_thread i" for i] run_require_thread [OF a(2)])
    show ?thesis
      unfolding touch_thread_def sbind_def [of "require_thread i" for i] run_require_thread [OF a(1)] prod.case sum.case run_sbind_prims assms(11)
      by (simp add: andthen_def sbind_def d')
  qed
  have "fst (andthen (touch_thread (tn_thread t) (tn_updated t)) (ret t) (db\<lparr>db_entries := es, db_turns := ts\<rparr>)) = Inr t" for es ts
  proof -
    obtain d' where "touch_thread (tn_thread t) (tn_updated t) (db\<lparr>db_entries := es, db_turns := ts\<rparr>) = (Inr (), d')"
      using touch [of ts es] by (metis prod.collapse)
    then show ?thesis by (simp add: andthen_def sbind_def)
  qed
  then have "\<exists>db'. andthen (update_turn t) (andthen (touch_thread (tn_thread t) (tn_updated t)) (ret t)) ?db = (Inr t, db')"
    using up by (simp add: run_andthen_Inr prod_eq_iff)
  then obtain db' where "andthen (update_turn t) (andthen (touch_thread (tn_thread t) (tn_updated t)) (ret t)) ?db = (Inr t, db')" ..
  with assms have "complete_turn_row e t db = (Inr t, db')"
    unfolding complete_turn_row_def by (simp del: run_andthen_prims run_sbind_prims add: write_returns turn_transition_def)
  then show ?thesis by simp
qed

definition demo_done :: conv_db where
  "demo_done = snd (complete_turn ''entry_2'' 9 ''turn_1'' ''done'' empty_usage ''completed'' [] [] demo_busy)"

lemma demo_turn:
  "turn_view ''turn_1'' demo_busy =
     Inr (\<lparr>vw_thread = demo_row\<lparr>th_title := ''hello'', th_updated := 6\<rparr>, vw_entries = [user_message ''entry_1'' ''thread_1'' 1 ''hello'' ''client_a'' 6],
           vw_turns = [new_turn ''turn_1'' ''thread_1'' 6 demo_config ''entry_1''], vw_summary = None, vw_activities = []\<rparr>,
          new_turn ''turn_1'' ''thread_1'' 6 demo_config ''entry_1'')"
  unfolding demo_busy_def demo_begin
  by (simp add: turn_view_def find_turn_def lookup_row_def read_thread_def find_thread_def demo_row_def new_turn_def list_entries_def
      entries_of_def user_message_def list_turns_def keyed_turns_def find_summary_def list_activities_def)

lemma demo_complete:
  "fst (complete_turn ''entry_2'' 9 ''turn_1'' ''done'' empty_usage ''completed'' [] [] demo_busy) =
     Inr (finished_turn ''entry_2'' 9 empty_usage ''completed'' [] (new_turn ''turn_1'' ''thread_1'' 6 demo_config ''entry_1''))"
proof -
  have m: "assistant_metadata [] = Some [(''citations'', JList [])]" by code_simp
  have tv: "valid_turn (finished_turn ''entry_2'' 9 empty_usage ''completed'' [] (new_turn ''turn_1'' ''thread_1'' 6 demo_config ''entry_1''))"
    by (simp add: valid_turn_def bounded_def bounded_option_def new_turn_def demo_config_def finished_turn_def
      valid_budget_config_def valid_usage_def empty_usage_def turn_shape_def MAX_JSON_SAFE_INTEGER_def)
  define t where "t = finished_turn ''entry_2'' 9 empty_usage ''completed'' [] (new_turn ''turn_1'' ''thread_1'' 6 demo_config ''entry_1'')"
  define e where "e = \<lparr>en_id = ''entry_2'', en_thread = ''thread_1'', en_sequence = 2, en_kind = ASSISTANT_MESSAGE,
      en_content = ''done'', en_client = None, en_metadata = [(''citations'', JList [])], en_created = 9\<rparr>"
  have ev: "valid_entry e" by (simp add: e_def valid_entry_def bounded_def MAX_JSON_SAFE_INTEGER_def)
  have ts: "tn_id t = ''turn_1''" "tn_thread t = ''thread_1''" "tn_status t = TURN_COMPLETED" "tn_manifest t = []" "tn_assistant_entry t = Some ''entry_2''"
     "tn_updated t = 9" by (simp_all add: t_def finished_turn_def new_turn_def recorded_manifest_def)
  have es: "en_id e = ''entry_2''" "en_thread e = ''thread_1''" "en_sequence e = 2" "en_kind e = ASSISTANT_MESSAGE" "en_client e = None"
    by (simp_all add: e_def)
  have row: "fst (complete_turn_row e t demo_busy) = Inr t"
  proof (rule complete_row_succeeds)
    show "find_turn (tn_id t) demo_busy = Some (new_turn ''turn_1'' ''thread_1'' 6 demo_config ''entry_1'')"
      unfolding ts demo_busy_def demo_begin by (simp add: find_turn_def lookup_row_def new_turn_def)
    show "find_thread (tn_thread t) demo_busy = Some (demo_row\<lparr>th_title := ''hello'', th_updated := 6\<rparr>)"
      unfolding ts demo_busy_def demo_begin by (simp add: find_thread_def lookup_row_def demo_row_def)
    show "monotonic_thread_update (demo_row\<lparr>th_title := ''hello'', th_updated := 6\<rparr>)
        (demo_row\<lparr>th_title := ''hello'', th_updated := 6\<rparr>\<lparr>th_updated := tn_updated t\<rparr>) = Inr (demo_row\<lparr>th_title := ''hello'', th_updated := 9\<rparr>)"
      unfolding ts monotonic_thread_update_def Let_def by (simp add: demo_row_def valid_thread_def bounded_def bounded_option_def)
    show "turn_references (updated_turn t (new_turn ''turn_1'' ''thread_1'' 6 demo_config ''entry_1'')) (demo_busy\<lparr>db_entries := db_entries demo_busy @ [e]\<rparr>)"
      unfolding demo_busy_def demo_begin
      by (simp add: turn_references_def has_entry_def entries_of_def updated_turn_def new_turn_def user_message_def ts es)
    show "\<not> entry_conflicts e demo_busy" unfolding demo_busy_def demo_begin
      by (simp add: entry_conflicts_def es entries_of_def user_message_def find_thread_def lookup_row_def demo_row_def)
    show "en_sequence e = expected_sequence (en_thread e) demo_busy" unfolding demo_busy_def demo_begin
      by (simp add: expected_sequence_def entries_of_def es user_message_def)
  qed (simp_all add: ts es new_turn_def manifest_unchanged_def demo_row_def)
  have "assistant_entry ''entry_2'' 9 ''done'' [(''citations'', JList [])]
      \<lparr>vw_thread = demo_row\<lparr>th_title := ''hello'', th_updated := 6\<rparr>, vw_entries = [user_message ''entry_1'' ''thread_1'' 1 ''hello'' ''client_a'' 6],
           vw_turns = [new_turn ''turn_1'' ''thread_1'' 6 demo_config ''entry_1''], vw_summary = None, vw_activities = []\<rparr>
      (new_turn ''turn_1'' ''thread_1'' 6 demo_config ''entry_1'') = e"
    by (simp add: assistant_entry_def e_def next_sequence_def user_message_def new_turn_def)
  moreover have "tn_status (new_turn ''turn_1'' ''thread_1'' 6 demo_config ''entry_1'') = TURN_IN_PROGRESS" by (simp add: new_turn_def)
  ultimately show ?thesis
    using row ev tv unfolding t_def [symmetric]
    by (simp add: complete_turn_def sbind_def [of "reads f" for f] demo_turn complete_turn_from_def Let_def turn_transition_def m t_def [symmetric])
qed

theorem complete_turn_idempotent_witness:
  "complete_turn ''entry_3'' 12 ''turn_1'' ''done'' empty_usage ''completed'' [] [] demo_done =
     (Inr (finished_turn ''entry_2'' 9 empty_usage ''completed'' [] (new_turn ''turn_1'' ''thread_1'' 6 demo_config ''entry_1'')), demo_done)"
proof -
  have "complete_turn ''entry_2'' 9 ''turn_1'' ''done'' empty_usage ''completed'' [] [] (hd [demo_busy, demo_thread, empty_db]) =
     (Inr (finished_turn ''entry_2'' 9 empty_usage ''completed'' [] (new_turn ''turn_1'' ''thread_1'' 6 demo_config ''entry_1'')), demo_done)"
    using demo_complete by (simp add: demo_done_def prod_eq_iff)
  from complete_turn_idempotent [OF demo_busy_history this] show ?thesis by simp
qed

end
