(* ===== verification/TurnRecovery.thy ===== *)
theory TurnRecovery
  imports TurnServices ConversationHistory
begin

text \<open>
  The recovery of turns of \<open>application/turns.py\<close> and the facts of \<open>application/turn_facts.py\<close>:
  what the next process makes of the turns that a dead one left, from their rows and the last
  checkpoints of their graphs.  A checkpoint whose values do not parse is \<open>CORRUPT\<close>.  The
  events, the sealing of change sets and the deletion of checkpoints go to other services; what
  they are asked is logged, and a parameter says where they fail.
\<close>

section \<open>Facts\<close>

record turn_facts =
  fa_usage :: usage_summary
  fa_manifest :: "json_dict list"
  fa_citations :: "citation list"

definition no_facts :: turn_facts where
  "no_facts = \<lparr>fa_usage = empty_usage, fa_manifest = [], fa_citations = []\<rparr>"

definition usage_of_state :: "agent_state \<Rightarrow> usage_summary" where
  "usage_of_state s =
     (let u = as_usage s in
      \<lparr>us_input = count_of u ''input_tokens'', us_output = count_of u ''output_tokens'', us_reasoning = count_of u ''reasoning_tokens'',
       us_cache_read = count_of u ''cache_read_tokens'', us_cache_write = count_of u ''cache_write_tokens'',
       us_model_calls = as_model_calls s, us_tool_calls = as_tool_calls s, us_retries = as_retries s,
       us_compressions = as_compressions s, us_web_requests = as_web_requests s, us_active_seconds = as_active_seconds s\<rparr>)"

text \<open>\<open>observed_turn_facts\<close> of a state; \<open>None\<close> is a validation error.\<close>

definition observed_turn_facts :: "agent_state \<Rightarrow> turn_facts option" where
  "observed_turn_facts s =
     (if valid_usage (usage_of_state s) \<and> length (as_citations s) \<le> 128
      then Some \<lparr>fa_usage = usage_of_state s, fa_manifest = as_manifest s, fa_citations = as_citations s\<rparr> else None)"

section \<open>The checks of a checkpoint\<close>

definition resumable_reasons :: "string list" where
  "resumable_reasons = [''model_budget_exhausted'', ''tool_budget_exhausted'', ''active_time_budget_exhausted'']"

definition same_dict :: "json_dict \<Rightarrow> json_dict \<Rightarrow> bool" where
  "same_dict a b \<longleftrightarrow> list_all (\<lambda>k. map_of a k = map_of b k) (map fst a @ map fst b)"

definition skip_metadata :: "string \<Rightarrow> json_dict" where
  "skip_metadata reason = [(''executed'', JBool False), (''reason'', JString reason)]"

definition valid_budget_skip_result :: "tool_result \<Rightarrow> string option \<Rightarrow> bool" where
  "valid_budget_skip_result r reason \<longleftrightarrow>
     (case reason of
        None \<Rightarrow> False
      | Some why \<Rightarrow>
          let message = ''Tool call was not executed: '' @ why @ ''.'' in
          why \<in> set resumable_reasons \<and> tr_status r = ERROR \<and> tr_content r = message \<and>
          same_dict (tr_metadata r) (skip_metadata why) \<and>
          (case tr_error r of
             None \<Rightarrow> False
           | Some e \<Rightarrow> te_code e = EXECUTION_FAILED \<and> te_message e = message \<and> \<not> te_retryable e) \<and>
          tr_presentation r = None)"

definition not_run :: "tool_result \<Rightarrow> bool" where
  "not_run r \<longleftrightarrow> map_of (tr_metadata r) ''executed'' = Some (JBool False)"

text \<open>\<open>_executed_tool_result_count\<close>: the calls that ran, when the skipped ones come last.\<close>

fun count_executed :: "string option \<Rightarrow> bool \<Rightarrow> nat \<Rightarrow> tool_result list \<Rightarrow> nat option" where
  "count_executed reason skipped executed [] = Some executed"
| "count_executed reason skipped executed (r # rs) =
     (if \<not> valid_result r then None
      else if not_run r
      then (if valid_budget_skip_result r reason then count_executed reason True executed rs else None)
      else if skipped then None
      else count_executed reason False (executed + 1) rs)"

definition executed_tool_result_count :: "agent_state \<Rightarrow> nat option" where
  "executed_tool_result_count s = count_executed (as_termination s) False 0 (as_results s)"

definition valid_usage_counts :: "(string \<times> nat) list \<Rightarrow> bool" where
  "valid_usage_counts u \<longleftrightarrow>
     list_all (\<lambda>(k, n). k \<in> set (map fst (usage_fields no_usage)) \<and>
       n \<le> (if k = ''provider_retries'' then 6 else MAX_JSON_SAFE_INTEGER)) u"

definition valid_citations :: "(string \<Rightarrow> bool) \<Rightarrow> citation list \<Rightarrow> bool" where
  "valid_citations locator_ok cs \<longleftrightarrow>
     list_all (\<lambda>c. valid_citation_id (ci_id c) \<and> valid_title (ci_title c) \<and> valid_url locator_ok (ci_url c)) cs \<and>
     (case new_allocator cs of Inl _ \<Rightarrow> False | Inr _ \<Rightarrow> True)"

definition checkpoint_budget_state_is_valid :: "(string \<Rightarrow> bool) \<Rightarrow> agent_state \<Rightarrow> turn \<Rightarrow> bool" where
  "checkpoint_budget_state_is_valid locator_ok s t \<longleftrightarrow>
     valid_usage_counts (as_usage s) \<and> valid_citations locator_ok (as_citations s) \<and>
     (case as_termination s of None \<Rightarrow> True | Some reason \<Rightarrow> strip reason \<noteq> [] \<and> length reason \<le> 128) \<and>
     (let b = tn_budgets t in
      as_model_calls s \<le> bg_model_calls b \<and> as_tool_calls s \<le> bg_tool_calls b \<and> as_web_requests s \<le> bg_web_requests b \<and>
      as_retries s \<le> bg_retries b \<and> as_compressions s \<le> bg_compressions b \<and> 0 \<le> as_active_seconds s) \<and>
     (case executed_tool_result_count s of None \<Rightarrow> False | Some n \<Rightarrow> n \<le> as_tool_calls s)"

definition checkpoint_identity_is_valid :: "(string \<Rightarrow> bool) \<Rightarrow> agent_state \<Rightarrow> thread_view \<Rightarrow> turn \<Rightarrow> string \<Rightarrow> bool" where
  "checkpoint_identity_is_valid locator_ok s view t workspace_key \<longleftrightarrow>
     th_id (vw_thread view) = tn_thread t \<and> th_workspace (vw_thread view) = workspace_key \<and> as_workspace_key s = workspace_key \<and>
     as_thread_id s = tn_thread t \<and> as_turn_id s = tn_id t \<and> provider_value (sm_provider (as_model s)) = tn_provider t \<and>
     sm_model (as_model s) = tn_model t \<and> as_thinking s = tn_thinking t \<and> checkpoint_budget_state_is_valid locator_ok s t"

text \<open>\<open>_resumable_budget_interruption\<close>\<close>

definition resumable_budget_interruption :: "agent_state \<Rightarrow> turn \<Rightarrow> bool" where
  "resumable_budget_interruption s t \<longleftrightarrow>
     (case as_termination s of
        None \<Rightarrow> False
      | Some reason \<Rightarrow>
          reason \<in> set resumable_reasons \<and> as_model_calls s < bg_model_calls (tn_budgets t) \<and> as_pending s \<noteq> [] \<and>
          list_ex (\<lambda>r. same_dict (tr_metadata r) (skip_metadata reason)) (as_results s))"

text \<open>\<open>_uncertain_tool_call\<close>: the next call may have run before the process died; \<open>None\<close> is a
  lookup that failed.\<close>

definition uncertain_tool_call :: "(string \<Rightarrow> replay_safety option) \<Rightarrow> agent_state \<Rightarrow> bool" where
  "uncertain_tool_call replay s \<longleftrightarrow>
     as_next s < length (as_pending s) \<and>
     (let call = as_pending s ! as_next s in
      tc_id call \<notin> set (map tr_call_id (as_results s)) \<and> replay (tc_name call) \<noteq> Some REPLAYABLE)"

section \<open>The services of the coordinator\<close>

datatype checkpoint = CHECKPOINT agent_state | CORRUPT

datatype recovery_event = TURN_STARTED_EVENT | TURN_COMPLETED_EVENT | TURN_FAILED_EVENT string

record turn_store =
  ts_db :: conv_db
  ts_checkpoints :: "(string \<times> checkpoint) list"
  ts_sealed :: "string list"
  ts_events :: "(string \<times> recovery_event) list"

record turn_services =
  tw_workspace_key :: string
  tw_lib :: context_lib
  tw_locator :: "string \<Rightarrow> bool"
  tw_validator :: "agent_state \<Rightarrow> turn \<Rightarrow> thread_view \<Rightarrow> bool"
  tw_replay :: "string \<Rightarrow> replay_safety option"
  tw_changes_reconciled :: bool
  tw_seal_fails :: "string \<Rightarrow> bool"
  tw_delete_fails :: "string \<Rightarrow> bool"
  tw_swap_time :: "string \<Rightarrow> time"
  tw_end_time :: "string \<Rightarrow> time"
  tw_entry_id :: "string \<Rightarrow> string"
  tw_raises_late :: "string \<Rightarrow> bool"

datatype recovery_error = RecoveryConversation conversation_error | RecoveryRaises string

type_synonym 'a recovery = "(turn_store, recovery_error, 'a) eff"

definition on_db :: "'a conv \<Rightarrow> 'a recovery" where
  "on_db m = (\<lambda>st. case m (ts_db st) of
     (Inl e, db) \<Rightarrow> (Inl (RecoveryConversation e), st\<lparr>ts_db := db\<rparr>)
   | (Inr x, db) \<Rightarrow> (Inr x, st\<lparr>ts_db := db\<rparr>))"

definition checkpoint_of :: "string \<Rightarrow> turn_store \<Rightarrow> checkpoint option" where
  "checkpoint_of i st = map_of (ts_checkpoints st) i"

definition delete_checkpoint :: "turn_services \<Rightarrow> string \<Rightarrow> unit recovery" where
  "delete_checkpoint w i =
     andthen (guard_else (\<not> tw_delete_fails w i) (RecoveryRaises ''checkpoint''))
       (modify (\<lambda>st. st\<lparr>ts_checkpoints := filter (\<lambda>kv. fst kv \<noteq> i) (ts_checkpoints st)\<rparr>))"

text \<open>\<open>_cleanup_turn\<close>: the checkpoint goes also when sealing fails; \<open>_cleanup_committed_turn\<close>
  suppresses what it raises.\<close>

definition seal_changes :: "turn_services \<Rightarrow> string \<Rightarrow> unit recovery" where
  "seal_changes w i =
     andthen (guard_else (\<not> tw_seal_fails w i) (RecoveryRaises ''seal''))
       (modify (\<lambda>st. st\<lparr>ts_sealed := ts_sealed st @ [i]\<rparr>))"

definition cleanup_turn :: "turn_services \<Rightarrow> bool \<Rightarrow> string \<Rightarrow> unit recovery" where
  "cleanup_turn w seal i =
     (\<lambda>st. case (if seal then seal_changes w i st else (Inr (), st)) of
        (r, st1) \<Rightarrow> (case delete_checkpoint w i st1 of
           (Inl e, st2) \<Rightarrow> (Inl e, st2)
         | (Inr _, st2) \<Rightarrow> (r, st2)))"

definition cleanup_committed_turn :: "turn_services \<Rightarrow> bool \<Rightarrow> string \<Rightarrow> unit recovery" where
  "cleanup_committed_turn w seal i = (\<lambda>st. (Inr (), snd (cleanup_turn w seal i st)))"

section \<open>The frozen context\<close>

text \<open>What a compare-and-swap that met another manifest finds.\<close>

definition swapped_elsewhere :: "turn \<Rightarrow> json_dict list \<Rightarrow> turn recovery" where
  "swapped_elsewhere t manifest =
     reads (\<lambda>st. case read_thread (tn_thread t) (ts_db st) of
       Inl e \<Rightarrow> Inl (RecoveryConversation e)
     | Inr view \<Rightarrow>
         (case find (\<lambda>u. tn_id u = tn_id t) (vw_turns view) of
            None \<Rightarrow> Inl (RecoveryRaises ''StopIteration'')
          | Some current \<Rightarrow>
              if tn_status current = TURN_IN_PROGRESS \<and> tn_manifest current = manifest then Inr current
              else Inl (RecoveryConversation ConversationConflict)))"

definition swap_context_manifest :: "turn_services \<Rightarrow> turn \<Rightarrow> json_dict list \<Rightarrow> turn recovery" where
  "swap_context_manifest w t manifest =
     (\<lambda>st. case on_db (compare_and_swap_context_manifest (tw_swap_time w (tn_id t)) (tn_id t) manifest (tn_manifest t)) st of
        (Inl (RecoveryConversation ConversationConflict), st') \<Rightarrow> swapped_elsewhere t manifest st'
      | r \<Rightarrow> r)"

definition user_entry_of :: "thread_view \<Rightarrow> turn \<Rightarrow> thread_entry option" where
  "user_entry_of view t = find (\<lambda>e. en_id e = tn_user_entry t) (vw_entries view)"

definition reconcile_frozen_context_snapshot :: "turn_services \<Rightarrow> agent_state \<Rightarrow> thread_view \<Rightarrow> turn \<Rightarrow> turn option recovery" where
  "reconcile_frozen_context_snapshot w s view t =
     (let candidate = t\<lparr>tn_manifest := as_manifest s\<rparr> in
      case user_entry_of view t of
        None \<Rightarrow> ret None
      | Some e \<Rightarrow>
          if en_kind e \<noteq> USER_MESSAGE then ret None
          else if \<not> frozen_context_snapshot_is_valid (tw_lib w) s candidate view True then ret None
          else if \<not> tw_validator w s candidate view then ret None
          else if tn_manifest t = as_manifest s then ret (Some t)
          else if \<not> frozen_context_manifests_share_lineage (as_manifest s) (tn_manifest t) then ret None
          else sbind (swap_context_manifest w t (as_manifest s)) (\<lambda>u. ret (Some u)))"

section \<open>Recovery at startup\<close>

datatype recovery_status = FINALIZED | RESUMABLE | RECOVERY_FAILED string | CLEANED | INTERACTION_REQUIRED

record recovery_result =
  rr_thread :: string
  rr_turn :: string
  rr_status :: recovery_status

definition client_message_id :: "thread_view \<Rightarrow> turn \<Rightarrow> string option" where
  "client_message_id view t = (case user_entry_of view t of None \<Rightarrow> None | Some e \<Rightarrow> en_client e)"

text \<open>\<open>_emit_recovery_events\<close>: nothing is emitted when the projector cannot be made.\<close>

definition emit_recovery_events :: "turn \<Rightarrow> recovery_event \<Rightarrow> unit recovery" where
  "emit_recovery_events t terminal_event =
     modify (\<lambda>st. case read_thread (tn_thread t) (ts_db st) of
       Inl _ \<Rightarrow> st
     | Inr view \<Rightarrow>
         if client_message_id view t = None then st
         else st\<lparr>ts_events := ts_events st @ [(tn_id t, TURN_STARTED_EVENT), (tn_id t, terminal_event)]\<rparr>)"

definition fail_recovery :: "turn_services \<Rightarrow> turn \<Rightarrow> string \<Rightarrow> turn_facts \<Rightarrow> unit recovery" where
  "fail_recovery w t code facts =
     andthen (on_db (fail_turn (tw_end_time w (tn_id t)) (tn_id t) code (Some (fa_usage facts)) (fa_manifest facts)))
    (andthen (cleanup_committed_turn w True (tn_id t))
      (emit_recovery_events t (TURN_FAILED_EVENT code)))"

definition recovery_of :: "turn \<Rightarrow> recovery_status \<Rightarrow> recovery_result option" where
  "recovery_of t status = Some \<lparr>rr_thread = tn_thread t, rr_turn = tn_id t, rr_status = status\<rparr>"

definition fail_with :: "turn_services \<Rightarrow> turn \<Rightarrow> string \<Rightarrow> turn_facts \<Rightarrow> recovery_result option recovery" where
  "fail_with w t code facts = andthen (fail_recovery w t code facts) (ret (recovery_of t (RECOVERY_FAILED code)))"

definition observe :: "agent_state \<Rightarrow> turn_facts recovery" where
  "observe s = reads (\<lambda>_. case observed_turn_facts s of None \<Rightarrow> Inl (RecoveryRaises ''ValidationError'') | Some f \<Rightarrow> Inr f)"

definition reason_or_completed :: "agent_state \<Rightarrow> string" where
  "reason_or_completed s = (case as_termination s of Some (c # cs) \<Rightarrow> c # cs | _ \<Rightarrow> ''completed'')"

text \<open>A turn in progress whose checkpoint passed the checks.\<close>

definition finish_recovery :: "turn_services \<Rightarrow> agent_state \<Rightarrow> turn \<Rightarrow> recovery_result option recovery" where
  "finish_recovery w s t =
     (case as_answer s of
        Some answer \<Rightarrow>
          sbind (observe s) (\<lambda>facts.
          andthen (on_db (complete_turn (tw_entry_id w (tn_id t)) (tw_end_time w (tn_id t)) (tn_id t) answer (fa_usage facts)
              (reason_or_completed s) (fa_manifest facts) (fa_citations facts)))
         (andthen (cleanup_committed_turn w True (tn_id t))
         (andthen (emit_recovery_events t TURN_COMPLETED_EVENT) (ret (recovery_of t FINALIZED)))))
      | None \<Rightarrow>
          (case as_termination s of
             Some reason \<Rightarrow>
               if resumable_budget_interruption s t then ret (recovery_of t RESUMABLE)
               else sbind (observe s) (fail_with w t reason)
           | None \<Rightarrow>
               ret (recovery_of t (if uncertain_tool_call (tw_replay w) s then INTERACTION_REQUIRED else RESUMABLE))))"

text \<open>The context of a checkpoint; a conflict of its manifest fails the turn.\<close>

definition reconcile_context :: "turn_services \<Rightarrow> agent_state \<Rightarrow> thread_view \<Rightarrow> turn \<Rightarrow> (string + turn) recovery" where
  "reconcile_context w s view t =
     (\<lambda>st. case reconcile_frozen_context_snapshot w s view t st of
        (Inl (RecoveryConversation ConversationConflict), st') \<Rightarrow> (Inr (Inl ''context_snapshot_conflict''), st')
      | (Inl e, st') \<Rightarrow> (Inl e, st')
      | (Inr None, st') \<Rightarrow> (Inr (Inl ''context_snapshot_missing''), st')
      | (Inr (Some u), st') \<Rightarrow> (Inr (Inr u), st'))"

definition reconcile_turn :: "turn_services \<Rightarrow> thread_view \<Rightarrow> turn \<Rightarrow> recovery_result option recovery" where
  "reconcile_turn w view t =
     sbind (gets (checkpoint_of (tn_id t))) (\<lambda>checkpoint.
       if tn_status t \<noteq> TURN_IN_PROGRESS
       then (if checkpoint = None then ret None
             else andthen (delete_checkpoint w (tn_id t)) (ret (recovery_of t CLEANED)))
       else
         (case checkpoint of
            None \<Rightarrow> fail_with w t ''checkpoint_missing'' no_facts
          | Some CORRUPT \<Rightarrow> fail_with w t ''checkpoint_corrupt'' no_facts
          | Some (CHECKPOINT s) \<Rightarrow>
              if \<not> checkpoint_identity_is_valid (tw_locator w) s view t (tw_workspace_key w)
              then fail_with w t ''checkpoint_corrupt'' no_facts
              else
                sbind (reconcile_context w s view t) (\<lambda>r.
                  case r of Inl code \<Rightarrow> fail_with w t code no_facts | Inr u \<Rightarrow> finish_recovery w s u)))"




section \<open>Resuming and giving up\<close>

definition turn_execution_failed :: "string \<Rightarrow> recovery_error" where
  "turn_execution_failed code = RecoveryRaises code"

definition require_thread_workspace :: "turn_services \<Rightarrow> thread \<Rightarrow> unit recovery" where
  "require_thread_workspace w th =
     guard_else (th_workspace th = tw_workspace_key w) (turn_execution_failed ''thread_workspace_mismatch'')"

definition read_view_of :: "string \<Rightarrow> thread_view recovery" where
  "read_view_of i = reads (\<lambda>st. map_sum RecoveryConversation id (read_thread i (ts_db st)))"

text \<open>A check that fails the turn and then the request.\<close>

definition give_up :: "turn_services \<Rightarrow> turn \<Rightarrow> string \<Rightarrow> 'a recovery" where
  "give_up w t code = andthen (fail_recovery w t code no_facts) (raise (turn_execution_failed code))"

text \<open>\<open>resume_unfinished\<close> up to the start of its operation: the turn and the message that it continues.\<close>

definition resume_unfinished :: "turn_services \<Rightarrow> string \<Rightarrow> string option \<Rightarrow> (turn \<times> string) recovery" where
  "resume_unfinished w thread_id expected =
     sbind (read_view_of thread_id) (\<lambda>view.
     andthen (require_thread_workspace w (vw_thread view))
    (case find (\<lambda>t. tn_status t = TURN_IN_PROGRESS \<and> (case expected of None \<Rightarrow> True | Some i \<Rightarrow> tn_id t = i)) (vw_turns view) of
       None \<Rightarrow> raise (turn_execution_failed ''recovery_stale'')
     | Some t \<Rightarrow>
         sbind (gets (checkpoint_of (tn_id t))) (\<lambda>checkpoint.
           case checkpoint of
             None \<Rightarrow> give_up w t ''checkpoint_missing''
           | Some CORRUPT \<Rightarrow> give_up w t ''checkpoint_corrupt''
           | Some (CHECKPOINT s) \<Rightarrow>
               if \<not> checkpoint_identity_is_valid (tw_locator w) s view t (tw_workspace_key w) then give_up w t ''checkpoint_corrupt''
               else sbind (reconcile_context w s view t) (\<lambda>r.
                 case r of
                   Inl code \<Rightarrow> give_up w t code
                 | Inr u \<Rightarrow>
                     (case client_message_id view u of
                        None \<Rightarrow> raise (RecoveryRaises ''StopIteration'')
                      | Some client \<Rightarrow> ret (u, client))))))"

text \<open>\<open>_latest_observed_facts\<close>; a state without valid facts raises.\<close>

definition latest_observed_facts :: "string \<Rightarrow> turn_store \<Rightarrow> turn_facts option" where
  "latest_observed_facts i st =
     (case checkpoint_of i st of Some (CHECKPOINT s) \<Rightarrow> observed_turn_facts s | _ \<Rightarrow> Some no_facts)"

definition abort_recovery :: "turn_services \<Rightarrow> string \<Rightarrow> string \<Rightarrow> unit recovery" where
  "abort_recovery w thread_id turn_id =
     sbind (read_view_of thread_id) (\<lambda>view.
     andthen (require_thread_workspace w (vw_thread view))
    (case find (\<lambda>t. tn_id t = turn_id) (vw_turns view) of
       None \<Rightarrow> raise (turn_execution_failed ''recovery_stale'')
     | Some t \<Rightarrow>
         andthen (guard_else (tn_status t = TURN_IN_PROGRESS) (turn_execution_failed ''recovery_stale''))
        (sbind (gets (latest_observed_facts turn_id)) (\<lambda>facts.
           case facts of
             None \<Rightarrow> raise (RecoveryRaises ''ValidationError'')
           | Some f \<Rightarrow>
               andthen (on_db (fail_turn (tw_end_time w turn_id) turn_id ''recovery_aborted'' (Some (fa_usage f)) (fa_manifest f)))
                 (cleanup_turn w True turn_id)))))"

section \<open>The end of a turn\<close>

text \<open>\<open>_current_turn\<close>\<close>

definition current_turn :: "turn \<Rightarrow> turn_store \<Rightarrow> (thread_view \<times> turn) option" where
  "current_turn t st =
     (case read_thread (tn_thread t) (ts_db st) of
        Inl _ \<Rightarrow> None
      | Inr view \<Rightarrow> map_option (\<lambda>u. (view, u)) (find (\<lambda>u. tn_id u = tn_id t) (vw_turns view)))"

definition expected_terminal_manifest :: "turn \<Rightarrow> turn_facts \<Rightarrow> turn_store \<Rightarrow> json_dict list option" where
  "expected_terminal_manifest t facts st =
     map_option (\<lambda>(_, u). if fa_manifest facts = [] then tn_manifest u else fa_manifest facts) (current_turn t st)"

text \<open>What \<open>_completed_turn_matches\<close>, \<open>_failed_turn_matches\<close> and \<open>_cancelled_turn_matches\<close>
  look for in the row.\<close>

definition row_matches :: "turn \<Rightarrow> turn_facts \<Rightarrow> json_dict list option \<Rightarrow> (thread_view \<Rightarrow> turn \<Rightarrow> bool) \<Rightarrow> turn_store \<Rightarrow> bool" where
  "row_matches t facts expected p st \<longleftrightarrow>
     (case (expected, current_turn t st) of
        (Some manifest, Some (view, u)) \<Rightarrow> p view u \<and> tn_usage u = fa_usage facts \<and> tn_manifest u = manifest
      | _ \<Rightarrow> False)"

definition completed_turn_matches :: "turn \<Rightarrow> string \<Rightarrow> string \<Rightarrow> turn_facts \<Rightarrow> json_dict list option \<Rightarrow> turn_store \<Rightarrow> bool" where
  "completed_turn_matches t answer reason facts expected =
     row_matches t facts expected (\<lambda>view u.
       tn_status u = TURN_COMPLETED \<and> tn_termination u = Some reason \<and>
       (case find (\<lambda>e. Some (en_id e) = tn_assistant_entry u) (vw_entries view) of
          None \<Rightarrow> False
        | Some e \<Rightarrow> en_kind e = ASSISTANT_MESSAGE \<and> en_content e = answer \<and>
            en_metadata e = [(''citations'', JList (map citation_json (fa_citations facts)))]))"

definition failed_turn_matches :: "turn \<Rightarrow> string \<Rightarrow> turn_facts \<Rightarrow> json_dict list option \<Rightarrow> turn_store \<Rightarrow> bool" where
  "failed_turn_matches t code facts expected =
     row_matches t facts expected (\<lambda>_ u. tn_status u = TURN_FAILED \<and> tn_error u = Some code)"

definition cancelled_turn_matches :: "turn \<Rightarrow> turn_facts \<Rightarrow> json_dict list option \<Rightarrow> turn_store \<Rightarrow> bool" where
  "cancelled_turn_matches t facts expected =
     row_matches t facts expected (\<lambda>_ u. tn_status u = TURN_CANCELLED \<and> tn_termination u = Some ''cancelled'')"

text \<open>A write may raise after its transaction committed.\<close>

definition durable_write :: "turn_services \<Rightarrow> turn \<Rightarrow> turn conv \<Rightarrow> unit recovery" where
  "durable_write w t m =
     andthen (on_db m) (guard_else (\<not> tw_raises_late w (tn_id t)) (RecoveryRaises ''write''))"

definition persist_terminal_write :: "unit recovery \<Rightarrow> (turn_store \<Rightarrow> bool) \<Rightarrow> unit recovery" where
  "persist_terminal_write action committed =
     (\<lambda>st. case action st of
        (Inl e, st') \<Rightarrow> if committed st' then (Inr (), st') else (Inl e, st')
      | r \<Rightarrow> r)"

definition persist_completed_turn :: "turn_services \<Rightarrow> turn \<Rightarrow> string \<Rightarrow> string \<Rightarrow> turn_facts \<Rightarrow> unit recovery" where
  "persist_completed_turn w t answer reason facts =
     sbind (gets (expected_terminal_manifest t facts)) (\<lambda>expected.
       persist_terminal_write
         (durable_write w t (complete_turn (tw_entry_id w (tn_id t)) (tw_end_time w (tn_id t)) (tn_id t) answer (fa_usage facts)
            reason (fa_manifest facts) (fa_citations facts)))
         (completed_turn_matches t answer reason facts expected))"

definition persist_failed_turn :: "turn_services \<Rightarrow> turn \<Rightarrow> string \<Rightarrow> turn_facts \<Rightarrow> unit recovery" where
  "persist_failed_turn w t code facts =
     sbind (gets (expected_terminal_manifest t facts)) (\<lambda>expected.
       persist_terminal_write
         (durable_write w t (fail_turn (tw_end_time w (tn_id t)) (tn_id t) code (Some (fa_usage facts)) (fa_manifest facts)))
         (failed_turn_matches t code facts expected))"

definition persist_cancelled_turn :: "turn_services \<Rightarrow> turn \<Rightarrow> turn_facts \<Rightarrow> unit recovery" where
  "persist_cancelled_turn w t facts =
     sbind (gets (expected_terminal_manifest t facts)) (\<lambda>expected.
       persist_terminal_write
         (durable_write w t (cancel_turn (tw_end_time w (tn_id t)) (tn_id t) (Some (fa_usage facts)) (fa_manifest facts)))
         (cancelled_turn_matches t facts expected))"

definition persist_completed_turn_and_cleanup :: "turn_services \<Rightarrow> turn \<Rightarrow> string \<Rightarrow> string \<Rightarrow> turn_facts \<Rightarrow> unit recovery" where
  "persist_completed_turn_and_cleanup w t answer reason facts =
     andthen (persist_completed_turn w t answer reason facts) (cleanup_committed_turn w True (tn_id t))"

definition persist_failed_turn_and_cleanup :: "turn_services \<Rightarrow> bool \<Rightarrow> turn \<Rightarrow> string \<Rightarrow> turn_facts \<Rightarrow> unit recovery" where
  "persist_failed_turn_and_cleanup w seal t code facts =
     andthen (persist_failed_turn w t code facts) (cleanup_committed_turn w seal (tn_id t))"

text \<open>\<open>_failure_observed_facts\<close> and \<open>_cancellation_observed_facts\<close>: none when they cannot be had in time.\<close>

definition facts_or_none :: "bool \<Rightarrow> string \<Rightarrow> turn_store \<Rightarrow> turn_facts" where
  "facts_or_none late i st = (if late then no_facts else case latest_observed_facts i st of None \<Rightarrow> no_facts | Some f \<Rightarrow> f)"

definition persist_cancelled_turn_and_cleanup :: "turn_services \<Rightarrow> bool \<Rightarrow> turn \<Rightarrow> unit recovery" where
  "persist_cancelled_turn_and_cleanup w late t =
     sbind (gets (facts_or_none late (tn_id t))) (\<lambda>facts.
     andthen (persist_cancelled_turn w t facts) (cleanup_committed_turn w True (tn_id t)))"

text \<open>What the execution of the graph came to, and the durable end of its turn.\<close>

datatype turn_outcome = OUTCOME_CANCELLED | OUTCOME_RAISED | OUTCOME_RETURNED agent_state

definition outcome_of :: "agent_error + agent_state \<Rightarrow> turn_outcome" where
  "outcome_of r =
     (case r of Inr s \<Rightarrow> OUTCOME_RETURNED s | Inl (AgentRaises ServiceCancelled) \<Rightarrow> OUTCOME_CANCELLED | Inl _ \<Rightarrow> OUTCOME_RAISED)"

definition conclude_turn :: "turn_services \<Rightarrow> bool \<Rightarrow> turn \<Rightarrow> turn_outcome \<Rightarrow> unit recovery" where
  "conclude_turn w late t outcome =
     (let failed = sbind (gets (facts_or_none late (tn_id t))) (persist_failed_turn_and_cleanup w True t ''agent_execution_failed'') in
      case outcome of
        OUTCOME_CANCELLED \<Rightarrow> persist_cancelled_turn_and_cleanup w late t
      | OUTCOME_RAISED \<Rightarrow> failed
      | OUTCOME_RETURNED s \<Rightarrow>
          (case observed_turn_facts s of
             None \<Rightarrow> failed
           | Some facts \<Rightarrow>
               (case as_answer s of
                  None \<Rightarrow> persist_failed_turn_and_cleanup w True t (reason_or_completed s) facts
                | Some answer \<Rightarrow> persist_completed_turn_and_cleanup w t answer (reason_or_completed s) facts)))"

text \<open>\<open>_terminalize_unstarted_turn\<close>\<close>

definition terminalize_unstarted_turn :: "turn_services \<Rightarrow> turn \<Rightarrow> bool \<Rightarrow> unit recovery" where
  "terminalize_unstarted_turn w t cancelled =
     sbind (read_view_of (tn_thread t)) (\<lambda>view.
       case find (\<lambda>u. tn_id u = tn_id t) (vw_turns view) of
         None \<Rightarrow> ret ()
       | Some u \<Rightarrow>
           if tn_status u \<noteq> TURN_IN_PROGRESS then ret ()
           else if cancelled then andthen (on_db (cancel_turn (tw_end_time w (tn_id t)) (tn_id t) None [])) (ret ())
           else andthen (on_db (fail_turn (tw_end_time w (tn_id t)) (tn_id t) ''operation_start_failed'' None [])) (ret ()))"

section \<open>What an operation on a turn changes\<close>

definition turn_frame :: "string \<Rightarrow> conv_db \<Rightarrow> conv_db \<Rightarrow> bool" where
  "turn_frame i db db' \<longleftrightarrow>
     map (\<lambda>t. (tn_id t, tn_thread t)) (db_turns db') = map (\<lambda>t. (tn_id t, tn_thread t)) (db_turns db) \<and>
     (\<forall>j. j \<noteq> i \<longrightarrow> find_turn j db' = find_turn j db)"

lemma turn_frame_refl [simp]: "turn_frame i db db"
  by (simp add: turn_frame_def)

lemma updated_turn_id [simp]: "tn_id (updated_turn t r) = tn_id r" "tn_thread (updated_turn t r) = tn_thread r"
  by (simp_all add: updated_turn_def)

lemma find_updated:
  "lookup_row tn_id j (map (\<lambda>r. if tn_id r = tn_id t then updated_turn t r else r) xs) =
     (if j = tn_id t then map_option (updated_turn t) (lookup_row tn_id j xs) else lookup_row tn_id j xs)"
  by (induction xs) (auto simp: lookup_row_def)

lemma written_turn:
  assumes "db_turns db' = map (\<lambda>r. if tn_id r = tn_id t then updated_turn t r else r) (db_turns db)"
  shows "turn_frame (tn_id t) db db'" and "find_turn (tn_id t) db' = map_option (updated_turn t) (find_turn (tn_id t) db)"
  using assms by (auto simp: turn_frame_def find_turn_def find_updated)

lemma terminal_row_returns:
  assumes "update_terminal_turn t db = (Inr x, db')"
  shows "x = t \<and> db_turns db' = map (\<lambda>r. if tn_id r = tn_id t then updated_turn t r else r) (db_turns db)"
  using assms unfolding update_terminal_turn_def
  by (auto simp: write_returns simp del: run_sbind_prims run_andthen_prims dest!: update_turn_returns touch_thread_returns)


lemma turn_view_row:
  assumes "db_ok db" and "turn_view i db = Inr (view, current)"
  shows "find_turn i db = Some current"
proof -
  have "distinct (map tn_id (db_turns db))" using assms(1) by (simp add: db_ok_def)
  with turn_view_turn [OF assms(2)] find_unique [of tn_id "db_turns db" current] show ?thesis
    by (simp add: find_turn_def lookup_row_def)
qed





lemma returned_ok:
  assumes "db_ok db" and "\<And>db0. kept_by db0 m" and "m db = (r, db')"
  shows "db_ok db'"
  using kept_snd [OF assms(2), of db db] assms(1,3) by (simp add: kept_from_def)


lemma kept_ok: "kept_by db m \<Longrightarrow> db_ok db \<Longrightarrow> m db = (r, db') \<Longrightarrow> db_ok db'"
  using kept_snd [of db m db] by (simp add: kept_from_def)

lemma operations_ok:
  assumes "db_ok db"
  shows "fail_turn now i code usage manifest db = (r, db') \<Longrightarrow> db_ok db'"
    and "complete_turn e now i answer u reason manifest citations db = (r, db') \<Longrightarrow> db_ok db'"
    and "compare_and_swap_context_manifest now i manifest expected db = (r, db') \<Longrightarrow> db_ok db'"
proof -
  show "db_ok db'" if "fail_turn now i code usage manifest db = (r, db')"
  proof (cases "turn_view i db")
    case (Inr vc)
    with that show ?thesis
      using kept_ok [OF terminal_from_kept(1) [OF turn_view_shape [OF Inr assms]] assms] assms
      by (auto simp: fail_turn_def split: if_splits)
  qed (use that assms in \<open>auto simp: fail_turn_def split: if_splits\<close>)
  show "db_ok db'" if "complete_turn e now i answer u reason manifest citations db = (r, db')"
    using that assms kept_ok [OF complete_turn_from_kept assms]
    by (auto simp: complete_turn_def split: sum.splits)
  show "db_ok db'" if "compare_and_swap_context_manifest now i manifest expected db = (r, db')"
    using that assms kept_ok [OF manifest_from_kept(2) assms]
    by (auto simp: compare_and_swap_context_manifest_def split: sum.splits)
qed

section \<open>What recovering a turn changes\<close>

text \<open>Only the row and the checkpoint of the turns in a set change.\<close>

definition store_frame :: "string set \<Rightarrow> turn_store \<Rightarrow> turn_store \<Rightarrow> bool" where
  "store_frame I st st' \<longleftrightarrow>
     db_ok (ts_db st') \<and>
     map (\<lambda>t. (tn_id t, tn_thread t)) (db_turns (ts_db st')) = map (\<lambda>t. (tn_id t, tn_thread t)) (db_turns (ts_db st)) \<and>
     (\<forall>j. j \<notin> I \<longrightarrow> find_turn j (ts_db st') = find_turn j (ts_db st) \<and> checkpoint_of j st' = checkpoint_of j st)"



lemma store_frame_mono: "store_frame I st st1 \<Longrightarrow> I \<subseteq> J \<Longrightarrow> store_frame J st st1"
  by (auto simp: store_frame_def)




















section \<open>Startup\<close>










section \<open>A sample startup\<close>

definition stale_turn :: turn where
  "stale_turn =
     \<lparr>tn_id = ''turn_1'', tn_thread = ''thread_1'', tn_checkpoint = ''turn_1'', tn_status = TURN_IN_PROGRESS, tn_provider = ''deepseek'',
      tn_model = ''chat'', tn_thinking = False, tn_skill_mode = ''auto'', tn_budgets = tf_budgets demo_config, tn_user_entry = ''entry_1'',
      tn_assistant_entry = None, tn_usage = empty_usage, tn_termination = None, tn_error = None, tn_manifest = [], tn_created = 6,
      tn_updated = 6, tn_completed = None\<rparr>"

definition stale_db :: conv_db where
  "stale_db =
     \<lparr>db_threads = [demo_row], db_entries = [user_message ''entry_1'' ''thread_1'' 1 ''hello'' ''client_a'' 6], db_turns = [stale_turn],
      db_summaries = [], db_activities = []\<rparr>"

definition stale_view :: thread_view where
  "stale_view = \<lparr>vw_thread = demo_row, vw_entries = db_entries stale_db, vw_turns = [stale_turn], vw_summary = None, vw_activities = []\<rparr>"

lemma stale_read: "read_thread ''thread_1'' stale_db = Inr stale_view"
  by (simp add: read_thread_def stale_view_def stale_db_def find_thread_def lookup_row_def demo_row_def list_entries_def entries_of_def
      list_turns_def keyed_turns_def stale_turn_def user_message_def find_summary_def list_activities_def)

lemma stale_turn_view: "turn_view ''turn_1'' stale_db = Inr (stale_view, stale_turn)"
proof -
  have "find_turn ''turn_1'' stale_db = Some stale_turn" "tn_thread stale_turn = ''thread_1''" "tn_id stale_turn = ''turn_1''"
    by (simp_all add: find_turn_def lookup_row_def stale_db_def stale_turn_def)
  then show ?thesis by (simp add: turn_view_def stale_read) (simp add: stale_view_def)
qed

lemma stale_ok: "db_ok stale_db"
  by (auto simp: db_ok_def stale_db_def stale_turn_def demo_row_def user_message_def entries_of_def contiguous_def turn_ok_def turn_shape_def)

definition failed_turn :: turn where
  "failed_turn = stale_turn\<lparr>tn_status := TURN_FAILED, tn_error := Some ''checkpoint_missing'', tn_updated := 8, tn_completed := Some 8\<rparr>"

lemma stale_valid: "valid_turn failed_turn"
  by (simp add: valid_turn_def failed_turn_def stale_turn_def bounded_def bounded_option_def turn_shape_def valid_usage_def empty_usage_def
      MAX_JSON_SAFE_INTEGER_def valid_budget_config_def demo_config_def)

definition failed_db :: conv_db where
  "failed_db = stale_db\<lparr>db_turns := [failed_turn], db_threads := [demo_row\<lparr>th_updated := 8\<rparr>]\<rparr>"

lemma stale_row: "update_terminal_turn failed_turn stale_db = (Inr failed_turn, failed_db)"
proof -
  have "find_turn ''turn_1'' stale_db = Some stale_turn" by (simp add: find_turn_def lookup_row_def stale_db_def stale_turn_def)
  moreover have "monotonic_thread_update demo_row (demo_row\<lparr>th_updated := 8\<rparr>) = Inr (demo_row\<lparr>th_updated := 8\<rparr>)"
    unfolding monotonic_thread_update_def Let_def by (simp add: demo_row_def valid_thread_def bounded_def bounded_option_def)
  ultimately show ?thesis
    by (simp add: update_terminal_turn_def transaction_def require_turn_def turn_transition_def manifest_unchanged_def update_turn_def
        touch_thread_def require_thread_def update_thread_def turn_references_def has_entry_def entries_of_def find_thread_def find_turn_def
        lookup_row_def stale_db_def failed_db_def failed_turn_def stale_turn_def demo_row_def user_message_def updated_turn_def
        andthen_def sbind_def)
qed

lemma stale_failed:
  "fail_turn 8 ''turn_1'' ''checkpoint_missing'' (Some empty_usage) [] stale_db = (Inr failed_turn, failed_db)"
proof -
  have "stale_turn\<lparr>tn_status := TURN_FAILED, tn_error := Some ''checkpoint_missing'', tn_usage := empty_usage, tn_manifest := [],
      tn_updated := 8, tn_completed := Some 8\<rparr> = failed_turn" by (simp add: failed_turn_def stale_turn_def)
  moreover have "tn_status stale_turn = TURN_IN_PROGRESS" "tn_manifest stale_turn = []" by (simp_all add: stale_turn_def)
  moreover have "strip ''checkpoint_missing'' \<noteq> []" by code_simp
  ultimately show ?thesis
    by (simp add: fail_turn_def stale_turn_view fail_turn_from_def Let_def recorded_manifest_def turn_transition_def stale_valid stale_row)
qed

definition quiet_services :: turn_services where
  "quiet_services =
     \<lparr>tw_workspace_key = ''workspace'', tw_lib = sample_lib, tw_locator = \<lambda>_. True, tw_validator = \<lambda>_ _ _. True, tw_replay = \<lambda>_. None,
      tw_changes_reconciled = True, tw_seal_fails = \<lambda>_. False, tw_delete_fails = \<lambda>_. False, tw_swap_time = \<lambda>_. 7,
      tw_end_time = \<lambda>_. 8, tw_entry_id = \<lambda>_. ''entry_9'', tw_raises_late = \<lambda>_. False\<rparr>"

definition stale_store :: turn_store where
  "stale_store = \<lparr>ts_db = stale_db, ts_checkpoints = [], ts_sealed = [], ts_events = []\<rparr>"



lemma cancel_ok:
  assumes "db_ok db" and "cancel_turn now i usage manifest db = (r, db')"
  shows "db_ok db'"
proof (cases "turn_view i db")
  case (Inr vc)
  with assms show ?thesis
    using kept_ok [OF terminal_from_kept(2) [OF turn_view_shape [OF Inr assms(1)]] assms(1)]
    by (auto simp: cancel_turn_def)
qed (use assms in \<open>auto simp: cancel_turn_def\<close>)

lemma find_turn_id: "find_turn i db = Some t \<Longrightarrow> tn_id t = i \<and> t \<in> set (db_turns db)"
  using lookup_row_key [of tn_id i "db_turns db" t] by (simp add: find_turn_def)

lemma current_turn_row:
  assumes ok: "db_ok (ts_db st)" and u: "find_turn (tn_id t) (ts_db st) = Some u" and th: "tn_thread u = tn_thread t"
  obtains view where "current_turn t st = Some (view, u)" and "vw_entries view = entries_of (tn_thread t) (ts_db st)"
proof -
  note ui = find_turn_id [OF u]
  obtain view where view: "turn_view (tn_id u) (ts_db st) = Inr (view, u)" "vw_entries view = entries_of (tn_thread u) (ts_db st)"
    using turn_view_of [OF ok conjunct2 [OF ui]] by blast
  have read: "read_thread (tn_thread t) (ts_db st) = Inr view"
    using view(1) u ui th by (auto simp: turn_view_def split: sum.splits option.splits)
  have "find (\<lambda>x. tn_id x = tn_id t) (vw_turns view) = Some u"
    using view(1) read u ui th by (auto simp: turn_view_def split: option.splits)
  with read that [of view] view(2) th show thesis by (simp add: current_turn_def)
qed

lemma failed_row:
  assumes ok: "db_ok db" and t: "find_turn i db = Some t" "tn_status t = TURN_IN_PROGRESS"
    and run: "fail_turn now i code (Some usage) manifest db = (Inr x, db')"
  shows "\<exists>u. find_turn i db' = Some u \<and> tn_thread u = tn_thread t \<and> tn_status u = TURN_FAILED \<and> tn_error u = Some code \<and>
    tn_usage u = usage \<and> tn_manifest u = recorded_manifest manifest t"
proof -
  have ti: "tn_id t = i" using find_turn_id t(1) by blast
  obtain view current where "turn_view i db = Inr (view, current)" and
    from_view: "fail_turn_from now code (Some usage) manifest (view, current) db = (Inr x, db')"
    using run by (auto simp: fail_turn_def write_returns simp del: run_sbind_prims run_andthen_prims)
  with turn_view_row [OF ok] t(1) have "current = t" by fastforce
  define u where "u = t\<lparr>tn_status := TURN_FAILED, tn_error := Some code, tn_usage := usage,
      tn_manifest := recorded_manifest manifest t, tn_updated := now, tn_completed := Some now\<rparr>"
  from \<open>current = t\<close> from_view t(2) have "update_terminal_turn u db = (Inr x, db')" unfolding u_def
    by (auto simp: fail_turn_from_def Let_def split: if_splits)
  from terminal_row_returns [OF this] written_turn(2) [of db' u db] t(1) ti show ?thesis
    by (simp add: u_def updated_turn_def)
qed

lemma cancelled_row:
  assumes ok: "db_ok db" and t: "find_turn i db = Some t" "tn_status t = TURN_IN_PROGRESS"
    and run: "cancel_turn now i (Some usage) manifest db = (Inr x, db')"
  shows "\<exists>u. find_turn i db' = Some u \<and> tn_thread u = tn_thread t \<and> tn_status u = TURN_CANCELLED \<and> tn_termination u = Some ''cancelled'' \<and>
    tn_usage u = usage \<and> tn_manifest u = recorded_manifest manifest t"
proof -
  have ti: "tn_id t = i" using find_turn_id t(1) by blast
  obtain view current where "turn_view i db = Inr (view, current)" and
    from_view: "cancel_turn_from now (Some usage) manifest (view, current) db = (Inr x, db')"
    using run by (auto simp: cancel_turn_def write_returns simp del: run_sbind_prims run_andthen_prims)
  with turn_view_row [OF ok] t(1) have "current = t" by fastforce
  define u where "u = t\<lparr>tn_status := TURN_CANCELLED, tn_termination := Some ''cancelled'', tn_usage := usage,
      tn_manifest := recorded_manifest manifest t, tn_updated := now, tn_completed := Some now\<rparr>"
  from \<open>current = t\<close> from_view t(2) have "update_terminal_turn u db = (Inr x, db')" unfolding u_def
    by (auto simp: cancel_turn_from_def Let_def split: if_splits)
  from terminal_row_returns [OF this] written_turn(2) [of db' u db] t(1) ti show ?thesis
    by (simp add: u_def updated_turn_def)
qed

lemma completed_row:
  assumes ok: "db_ok db" and t: "find_turn i db = Some t" "tn_status t = TURN_IN_PROGRESS"
    and run: "complete_turn entry_id now i answer usage reason manifest citations db = (Inr x, db')"
  shows "\<exists>u e. find_turn i db' = Some u \<and> tn_thread u = tn_thread t \<and> tn_status u = TURN_COMPLETED \<and> tn_termination u = Some reason \<and>
    tn_usage u = usage \<and> tn_manifest u = recorded_manifest manifest t \<and> tn_assistant_entry u = Some (en_id e) \<and>
    e \<in> set (entries_of (tn_thread t) db') \<and> en_kind e = ASSISTANT_MESSAGE \<and> en_content e = answer \<and>
    en_metadata e = [(''citations'', JList (map citation_json citations))]"
proof -
  have ti: "tn_id t = i" using find_turn_id t(1) by blast
  obtain view current where "turn_view i db = Inr (view, current)" and
    from_view: "complete_turn_from entry_id now answer usage reason manifest citations (view, current) db = (Inr x, db')"
    using run by (auto simp: complete_turn_def reads_returns simp del: run_sbind_prims run_andthen_prims)
  with turn_view_row [OF ok] t(1) have "current = t" by fastforce
  with from_view t(2) obtain metadata where md: "assistant_metadata citations = Some metadata" and
    row: "complete_turn_row (assistant_entry entry_id now answer metadata view t) (finished_turn entry_id now usage reason manifest t) db = (Inr x, db')"
    by (auto simp: complete_turn_from_def Let_def split: if_splits option.splits)
  have "metadata = [(''citations'', JList (map citation_json citations))]"
    using md by (auto simp: assistant_metadata_def split: if_splits sum.splits)
  moreover have "find_turn i db' = Some (finished_turn entry_id now usage reason manifest t)"
    using complete_row_returns [OF row] written_turn(2) [of db' "finished_turn entry_id now usage reason manifest t" db] t(1) ti
    by (auto simp: finished_turn_def updated_turn_def)
  moreover have "assistant_entry entry_id now answer metadata view t \<in> set (entries_of (tn_thread t) db')"
    using complete_row_returns [OF row] by (auto simp: entries_of_def assistant_entry_def)
  ultimately show ?thesis
    by (intro exI [of _ "finished_turn entry_id now usage reason manifest t"] exI [of _ "assistant_entry entry_id now answer metadata view t"])
      (simp add: finished_turn_def assistant_entry_def)
qed

lemma expected_recorded:
  assumes "db_ok (ts_db st)" and "find_turn (tn_id t) (ts_db st) = Some t"
  shows "expected_terminal_manifest t facts st = Some (recorded_manifest (fa_manifest facts) t)"
  by (rule current_turn_row [OF assms refl]) (simp add: expected_terminal_manifest_def recorded_manifest_def)

lemma refused_writes:
  "fail_turn now i code usage manifest db = (Inl e, db') \<Longrightarrow> db' = db"
  "cancel_turn now i usage manifest db = (Inl e, db') \<Longrightarrow> db' = db"
  "complete_turn entry_id now i answer u reason manifest citations db = (Inl e, db') \<Longrightarrow> db' = db"
  by (auto simp: fail_turn_def fail_turn_from_def cancel_turn_def cancel_turn_from_def complete_turn_def complete_turn_from_def
      update_terminal_turn_def complete_turn_row_def transaction_def Let_def
      split: sum.splits prod.splits if_splits option.splits)

lemma persist_exact:
  assumes "\<And>x db'. m (ts_db st) = (Inr x, db') \<Longrightarrow> committed (st\<lparr>ts_db := db'\<rparr>)"
    and "\<And>e db'. m (ts_db st) = (Inl e, db') \<Longrightarrow> db' = ts_db st" and "\<not> committed st"
  shows "persist_terminal_write (durable_write w t m) committed st =
    (case m (ts_db st) of (Inr _, db') \<Rightarrow> (Inr (), st\<lparr>ts_db := db'\<rparr>) | (Inl e, _) \<Rightarrow> (Inl (RecoveryConversation e), st))"
proof -
  obtain r db' where m: "m (ts_db st) = (r, db')" by fastforce
  show ?thesis
  proof (cases r)
    case (Inl e)
    with m assms(2) have "db' = ts_db st" by blast
    with Inl m assms(3) show ?thesis by (simp add: persist_terminal_write_def durable_write_def on_db_def andthen_def sbind_def)
  next
    case (Inr x)
    with m assms(1) have "committed (st\<lparr>ts_db := db'\<rparr>)" by blast
    with Inr m show ?thesis by (simp add: persist_terminal_write_def durable_write_def on_db_def andthen_def sbind_def)
  qed
qed

lemma row_matches_row:
  assumes "db_ok (ts_db st)" and "find_turn (tn_id t) (ts_db st) = Some u" and "tn_thread u = tn_thread t"
  shows "\<exists>view. vw_entries view = entries_of (tn_thread t) (ts_db st) \<and>
    (\<forall>facts manifest p. row_matches t facts (Some manifest) p st \<longleftrightarrow> p view u \<and> tn_usage u = fa_usage facts \<and> tn_manifest u = manifest)"
  by (rule current_turn_row [OF assms]) (auto simp: row_matches_def)

text \<open>C14: The durable end of a turn in progress is exactly its transaction: when the conversation takes the answer,
  the failure or the cancellation of the turn, the write returns with that database, also when the call raised after the
  commit, since the row, the answer's entry and its citations are recognised; when the transaction is refused, its error
  is raised and nothing has changed.\<close>

theorem terminal_write_exact:
  fixes facts :: turn_facts
  assumes "db_ok (ts_db st)" and "find_turn (tn_id t) (ts_db st) = Some t" and "tn_status t = TURN_IN_PROGRESS"
  shows "persist_completed_turn w t answer reason facts st =
      (case complete_turn (tw_entry_id w (tn_id t)) (tw_end_time w (tn_id t)) (tn_id t) answer (fa_usage facts) reason
          (fa_manifest facts) (fa_citations facts) (ts_db st) of
         (Inr _, db') \<Rightarrow> (Inr (), st\<lparr>ts_db := db'\<rparr>) | (Inl e, _) \<Rightarrow> (Inl (RecoveryConversation e), st)) \<and>
    persist_failed_turn w t code facts st =
      (case fail_turn (tw_end_time w (tn_id t)) (tn_id t) code (Some (fa_usage facts)) (fa_manifest facts) (ts_db st) of
         (Inr _, db') \<Rightarrow> (Inr (), st\<lparr>ts_db := db'\<rparr>) | (Inl e, _) \<Rightarrow> (Inl (RecoveryConversation e), st)) \<and>
    persist_cancelled_turn w t facts st =
      (case cancel_turn (tw_end_time w (tn_id t)) (tn_id t) (Some (fa_usage facts)) (fa_manifest facts) (ts_db st) of
         (Inr _, db') \<Rightarrow> (Inr (), st\<lparr>ts_db := db'\<rparr>) | (Inl e, _) \<Rightarrow> (Inl (RecoveryConversation e), st))"
proof (intro conjI)
  note expected = expected_recorded [OF assms(1,2), of facts]
  note now = row_matches_row [OF assms(1,2) refl]
  have open1: "\<not> row_matches t facts manifest p st" if "\<And>view u. p view u \<Longrightarrow> tn_status u \<noteq> TURN_IN_PROGRESS" for manifest p
  proof (cases manifest)
    case (Some x)
    show ?thesis unfolding Some using now that assms(3) by blast
  qed (simp add: row_matches_def)
  show "persist_completed_turn w t answer reason facts st =
      (case complete_turn (tw_entry_id w (tn_id t)) (tw_end_time w (tn_id t)) (tn_id t) answer (fa_usage facts) reason
          (fa_manifest facts) (fa_citations facts) (ts_db st) of
         (Inr _, db') \<Rightarrow> (Inr (), st\<lparr>ts_db := db'\<rparr>) | (Inl e, _) \<Rightarrow> (Inl (RecoveryConversation e), st))"
    unfolding persist_completed_turn_def run_sbind_prims expected
  proof (rule persist_exact)
    fix x db'
    assume run: "complete_turn (tw_entry_id w (tn_id t)) (tw_end_time w (tn_id t)) (tn_id t) answer (fa_usage facts) reason
      (fa_manifest facts) (fa_citations facts) (ts_db st) = (Inr x, db')"
    have ok: "db_ok db'" by (rule operations_ok(2) [OF assms(1) run])
    obtain u e where u: "find_turn (tn_id t) db' = Some u" "tn_thread u = tn_thread t" and
      rest: "tn_status u = TURN_COMPLETED" "tn_termination u = Some reason" "tn_usage u = fa_usage facts"
        "tn_manifest u = recorded_manifest (fa_manifest facts) t" "tn_assistant_entry u = Some (en_id e)" and
      e: "e \<in> set (entries_of (tn_thread t) db')" "en_kind e = ASSISTANT_MESSAGE" "en_content e = answer"
        "en_metadata e = [(''citations'', JList (map citation_json (fa_citations facts)))]"
      using completed_row [OF assms(1-3) run] by blast
    have "distinct (map en_id (entries_of (tn_thread t) db'))"
      using ok by (auto simp: db_ok_def entries_of_def distinct_map_filter)
    from find_unique [OF this e(1)] have f: "find (\<lambda>y. Some (en_id y) = tn_assistant_entry u) (entries_of (tn_thread t) db') = Some e"
      by (simp add: rest(5))
    show "completed_turn_matches t answer reason facts (Some (recorded_manifest (fa_manifest facts) t)) (st\<lparr>ts_db := db'\<rparr>)"
      unfolding completed_turn_matches_def
      using row_matches_row [of "st\<lparr>ts_db := db'\<rparr>" t u] ok u rest e f by auto
  qed (rule refused_writes(3), assumption, unfold completed_turn_matches_def, rule open1, simp)
  show "persist_failed_turn w t code facts st =
      (case fail_turn (tw_end_time w (tn_id t)) (tn_id t) code (Some (fa_usage facts)) (fa_manifest facts) (ts_db st) of
         (Inr _, db') \<Rightarrow> (Inr (), st\<lparr>ts_db := db'\<rparr>) | (Inl e, _) \<Rightarrow> (Inl (RecoveryConversation e), st))"
    unfolding persist_failed_turn_def run_sbind_prims expected
  proof (rule persist_exact)
    fix x db'
    assume run: "fail_turn (tw_end_time w (tn_id t)) (tn_id t) code (Some (fa_usage facts)) (fa_manifest facts) (ts_db st) = (Inr x, db')"
    have ok: "db_ok db'" by (rule operations_ok(1) [OF assms(1) run])
    obtain u where u: "find_turn (tn_id t) db' = Some u" "tn_thread u = tn_thread t" "tn_status u = TURN_FAILED" "tn_error u = Some code"
      "tn_usage u = fa_usage facts" "tn_manifest u = recorded_manifest (fa_manifest facts) t"
      using failed_row [OF assms(1-3) run] by blast
    show "failed_turn_matches t code facts (Some (recorded_manifest (fa_manifest facts) t)) (st\<lparr>ts_db := db'\<rparr>)"
      unfolding failed_turn_matches_def
      using row_matches_row [of "st\<lparr>ts_db := db'\<rparr>" t u] ok u by auto
  qed (rule refused_writes(1), assumption, unfold failed_turn_matches_def, rule open1, simp)
  show "persist_cancelled_turn w t facts st =
      (case cancel_turn (tw_end_time w (tn_id t)) (tn_id t) (Some (fa_usage facts)) (fa_manifest facts) (ts_db st) of
         (Inr _, db') \<Rightarrow> (Inr (), st\<lparr>ts_db := db'\<rparr>) | (Inl e, _) \<Rightarrow> (Inl (RecoveryConversation e), st))"
    unfolding persist_cancelled_turn_def run_sbind_prims expected
  proof (rule persist_exact)
    fix x db'
    assume run: "cancel_turn (tw_end_time w (tn_id t)) (tn_id t) (Some (fa_usage facts)) (fa_manifest facts) (ts_db st) = (Inr x, db')"
    have ok: "db_ok db'" by (rule cancel_ok [OF assms(1) run])
    obtain u where u: "find_turn (tn_id t) db' = Some u" "tn_thread u = tn_thread t" "tn_status u = TURN_CANCELLED"
      "tn_termination u = Some ''cancelled''" "tn_usage u = fa_usage facts" "tn_manifest u = recorded_manifest (fa_manifest facts) t"
      using cancelled_row [OF assms(1-3) run] by blast
    show "cancelled_turn_matches t facts (Some (recorded_manifest (fa_manifest facts) t)) (st\<lparr>ts_db := db'\<rparr>)"
      unfolding cancelled_turn_matches_def
      using row_matches_row [of "st\<lparr>ts_db := db'\<rparr>" t u] ok u by auto
  qed (rule refused_writes(2), assumption, unfold cancelled_turn_matches_def, rule open1, simp)
qed

theorem terminal_write_exact_witness:
  "persist_failed_turn (quiet_services\<lparr>tw_raises_late := \<lambda>_. True\<rparr>) stale_turn ''checkpoint_missing'' no_facts stale_store =
     (Inr (), stale_store\<lparr>ts_db := failed_db\<rparr>)"
proof -
  have "db_ok (ts_db stale_store)" "find_turn (tn_id stale_turn) (ts_db stale_store) = Some stale_turn"
    "tn_status stale_turn = TURN_IN_PROGRESS"
    by (simp_all add: stale_store_def stale_ok) (simp_all add: find_turn_def lookup_row_def stale_db_def stale_turn_def)
  from terminal_write_exact [OF this, of "quiet_services\<lparr>tw_raises_late := \<lambda>_. True\<rparr>" "[]" "[]" no_facts "''checkpoint_missing''"] stale_failed
  show ?thesis by (simp add: quiet_services_def stale_store_def no_facts_def stale_turn_def)
qed

section \<open>A turn that broke off after its budget\<close>

lemma settle_call_results: "as_results (settle_call w reserved blocked v s) = as_results s"
  by (cases rule: settle_call_cases [of w reserved blocked v s]) (auto simp: fail_call_def accept_turn_def Let_def)

lemma stream_call_results:
  assumes "stream_call w i reserved q s l = (Inr s', l')"
  shows "as_results s' = as_results s"
proof -
  obtain events raised where gw: "aw_gateway w i (as_model s) q = (events, raised)" by fastforce
  obtain v0 blocked where stream: "consume_stream (aw_budget w) events
       \<lparr>sv_state = charge_model_attempt 0 s, sv_completed = [], sv_failure = None, sv_text = [], sv_retries = 0, sv_projected = []\<rparr> = (v0, blocked)"
    by fastforce
  from consume_stream_state [OF stream] have "as_results (sv_state v0) = as_results s"
    by (auto simp: charge_model_attempt_def)
  then show ?thesis
    using assms unfolding stream_call_def
    by (auto simp: gw stream Let_def log_notes_def add_active_segment_def settle_call_results split: if_splits)
qed

lemma call_model_results:
  assumes "call_model w i s l = (Inr s', l')"
  shows "as_results s' = as_results s"
proof -
  have "as_results (drop_finished_calls s) = as_results s" by (simp add: drop_finished_calls_def)
  with assms show ?thesis unfolding call_model_def
    by (auto simp: Let_def log_notes_def dest!: stream_call_results split: if_splits)
qed

lemma count_without_reason:
  assumes "r \<in> set rs" and "not_run r" and "case reason of None \<Rightarrow> True | Some why \<Rightarrow> why \<notin> set resumable_reasons"
  shows "count_executed reason skipped n rs = None"
  using assms(1)
proof (induction rs arbitrary: skipped n)
  case (Cons a rs)
  have "\<not> valid_budget_skip_result x reason" for x
    using assms(3) by (auto simp: valid_budget_skip_result_def Let_def split: option.splits)
  with Cons assms(2) show ?case by auto
qed simp

lemma skipped_not_run: "not_run (not_executed call reason)"
  by (simp add: not_run_def not_executed_def refused_result_def)

text \<open>C40: when a budget is used up, the agent answers the calls that are left with a refusal and asks the model once
  more for an answer. If that request does not end normally, by a refused retry or an error of the provider after part
  of the answer, the turn has its answer and ends with the new reason; but a checkpoint with a refused call and a reason
  that is no exhausted budget counts as corrupt. A process that dies before the answer is written to the conversation
  loses it: the next startup fails the turn as \<open>checkpoint_corrupt\<close> without its usage and deletes the checkpoint.\<close>

theorem broken_off_answer_lost:
  assumes "not_executed call exhausted \<in> set (as_results s)" and "call_model aw i s l = (Inr s', l')"
    and "as_termination s' = Some reason" and "reason \<notin> set resumable_reasons"
    and "checkpoint_of (tn_id t) st = Some (CHECKPOINT s')" and "tn_status t = TURN_IN_PROGRESS"
  shows "reconcile_turn w view t st = fail_with w t ''checkpoint_corrupt'' no_facts st"
proof -
  have "as_results s' = as_results s" using assms(2) by (rule call_model_results)
  then have "executed_tool_result_count s' = None"
    using count_without_reason [OF assms(1) skipped_not_run] assms(3,4) by (simp add: executed_tool_result_count_def)
  then have "\<not> checkpoint_identity_is_valid (tw_locator w) s' view t (tw_workspace_key w)"
    by (simp add: checkpoint_identity_is_valid_def checkpoint_budget_state_is_valid_def)
  then show ?thesis using assms(5,6) by (simp add: reconcile_turn_def)
qed

text \<open>A turn that has used up its tool calls; the model's last answer breaks off.\<close>

definition broken_runtime :: "unit turn_runtime" where
  "broken_runtime = sample_runtime\<lparr>rn_gateway := (\<lambda>_ _ _. ([StreamEvent (TextDelta ''So far''), StreamEvent (TurnFailed
     \<lparr>me_code = TIMEOUT, me_message = ''slow'', me_retryable = False, me_provider = KIMI, me_status = None\<rparr>)], None))\<rparr>"

definition spent_state :: agent_state where
  "spent_state =
     (new_agent_state ''t'' ''u'' ''w'' sample_model False)
       \<lparr>as_messages := [UserMessage ''hi''], as_tool_calls := 4, as_model_calls := 1, as_termination := Some ''tool_budget_exhausted'',
        as_results := [not_executed \<lparr>tc_id = ''c1'', tc_name = ''read_file'', tc_arguments = ''{}''\<rparr> ''tool_budget_exhausted'']\<rparr>"

theorem broken_off_answer_lost_witness:
  "\<exists>s' l'. call_model (turn_world broken_runtime sample_turn ''hi'') 3 spent_state [] = (Inr s', l') \<and> as_answer s' = Some ''So far'' \<and>
     reconcile_turn quiet_services stale_view sample_turn (stale_store\<lparr>ts_checkpoints := [(''u'', CHECKPOINT s')]\<rparr>) =
     fail_with quiet_services sample_turn ''checkpoint_corrupt'' no_facts (stale_store\<lparr>ts_checkpoints := [(''u'', CHECKPOINT s')]\<rparr>)"
proof -
  define w where "w = turn_world broken_runtime sample_turn ''hi''"
  have w: "aw_budget w = turn_budget_of sample_budgets" "aw_catalog w 3 = []" "aw_clock w 3 = (0, 0)"
    "aw_gateway w 3 m q = ([StreamEvent (TextDelta ''So far''), StreamEvent (TurnFailed
     \<lparr>me_code = TIMEOUT, me_message = ''slow'', me_retryable = False, me_provider = KIMI, me_status = None\<rparr>)], None)" for m q
    by (simp_all add: w_def turn_world_def broken_runtime_def sample_runtime_def sample_turn_def
        skill_tool_catalog_mode_def tool_catalog_for_skill_mode_def specifications_def Let_def)
  have drop: "drop_finished_calls spent_state = spent_state" by (simp add: drop_finished_calls_def spent_state_def new_agent_state_def)
  have s1: "as_messages spent_state \<noteq> []" "as_model_calls spent_state = 1" "as_tool_calls spent_state = 4" "as_active_seconds spent_state = 0"
    by (simp_all add: spent_state_def new_agent_state_def)
  have budget: "tb_model_calls (turn_budget_of sample_budgets) = 4" "tb_tool_calls (turn_budget_of sample_budgets) = 4"
    "tb_active_seconds (turn_budget_of sample_budgets) = 60" by (simp_all add: turn_budget_of_def sample_budgets_def)
  have "\<exists>s' l'. call_model w 3 spent_state [] = (Inr s', l') \<and> as_answer s' = Some ''So far'' \<and> as_termination s' = Some ''model_timeout''"
    using s1
    by (simp add: call_model_def drop loop_exhaustion_def call_decision_def model_call_decision_def w budget request_of_def
        valid_model_request_def stream_call_def log_notes_def add_active_segment_def settle_call_def fail_call_def visible_text_def
        or_string_def error_value_def Let_def)
  then obtain s' l' where run: "call_model (turn_world broken_runtime sample_turn ''hi'') 3 spent_state [] = (Inr s', l')"
    and s': "as_answer s' = Some ''So far''" "as_termination s' = Some ''model_timeout''" unfolding w_def by blast
  have "not_executed \<lparr>tc_id = ''c1'', tc_name = ''read_file'', tc_arguments = ''{}''\<rparr> ''tool_budget_exhausted'' \<in> set (as_results spent_state)"
    by (simp add: spent_state_def)
  from broken_off_answer_lost [OF this run s'(2), of sample_turn "stale_store\<lparr>ts_checkpoints := [(''u'', CHECKPOINT s')]\<rparr>"]
  show ?thesis using run s' by (simp add: resumable_reasons_def checkpoint_of_def sample_turn_def)
qed

end
