(* ===== verification/WorkspacePolicy.thy ===== *)
theory WorkspacePolicy
  imports PathSyntax Tools
begin

text \<open>
  \<open>core/tools/policy.py\<close>: the resolution of a path that a tool names, on what \<open>lstat\<close> says
  of the root of the workspace and of every component below it.  A component is the list of the
  names below the root.
\<close>

section \<open>What lstat says\<close>

type_synonym file_identity = "nat \<times> nat \<times> nat"

datatype path_kind = REGULAR_FILE | DIRECTORY_KIND | LINK_KIND | OTHER_KIND

record file_status =
  fs_kind :: path_kind
  fs_reparse :: bool
  fs_identity :: file_identity

datatype lstat_outcome = LstatMissing | LstatFails | LstatIs file_status

text \<open>The platform, the identity that the session has bound to the root, whether the root can still
  be opened with it, and \<open>lstat\<close>.\<close>

record workspace_view =
  wv_platform :: path_platform
  wv_root :: file_identity
  wv_opens :: bool
  wv_lstat :: "string list \<Rightarrow> lstat_outcome"

record safe_path =
  sp_requested :: string
  sp_relative :: "string list"
  sp_root :: file_identity
  sp_identity :: "file_identity option"

definition is_link_status :: "file_status \<Rightarrow> bool" where
  "is_link_status st \<longleftrightarrow> fs_kind st = LINK_KIND \<or> fs_reparse st"

section \<open>Sensitive paths\<close>

definition sensitive_part :: "string \<Rightarrow> bool" where
  "sensitive_part part \<longleftrightarrow>
     part = ''.ssh'' \<or> part = ''.env'' \<or> (starts_with ''.env.'' part \<and> part \<noteq> ''.env.example'') \<or>
     part \<in> {''id_rsa'', ''id_ed25519''} \<or> ends_with ''.pem'' part \<or> ends_with ''.key'' part \<or>
     contains_sub ''credentials'' part \<or> contains_sub ''secrets'' part"

text \<open>\<open>_is_sensitive\<close>; its last branch, \<open>.aws/credentials\<close>, is a case of the one before.\<close>

fun sensitive_from :: "string list \<Rightarrow> bool" where
  "sensitive_from [] = False"
| "sensitive_from (part # rest) =
     (sensitive_part part \<or> (part = ''.aws'' \<and> (case rest of [] \<Rightarrow> False | next # _ \<Rightarrow> next = ''credentials'')) \<or> sensitive_from rest)"

definition is_sensitive :: "string list \<Rightarrow> bool" where
  "is_sensitive relative = sensitive_from (map casefold relative)"

section \<open>Resolution\<close>

definition path_failure :: "tool_error_code \<Rightarrow> string \<Rightarrow> string \<Rightarrow> expected_failure" where
  "path_failure code message requested = (expected_failure_of code message)\<lparr>ef_metadata := [(''path'', JString requested)]\<rparr>"

definition validate_workspace_path_syntax :: "path_platform \<Rightarrow> string \<Rightarrow> expected_failure + unit" where
  "validate_workspace_path_syntax platform requested =
     (case validate_workspace_relative_path_syntax platform requested of
        Inr _ \<Rightarrow> Inr ()
      | Inl ESCAPE \<Rightarrow> Inl (expected_failure_of WORKSPACE_ESCAPE ''Path is outside the workspace boundary.'')
      | Inl AMBIGUOUS \<Rightarrow> Inl (path_failure INVALID_ARGUMENTS ''Path contains an ambiguous filesystem component.'' requested))"

text \<open>The loop over the components: those before, the ones that follow.\<close>

fun inspect_components ::
  "workspace_view \<Rightarrow> bool \<Rightarrow> string \<Rightarrow> string list \<Rightarrow> string list \<Rightarrow> expected_failure + file_status option"
where
  "inspect_components v must_exist requested before rest =
     (let final = (rest = []) in
      case wv_lstat v before of
        LstatMissing \<Rightarrow>
          if must_exist \<or> \<not> final then Inl (path_failure NOT_FOUND ''Path was not found.'' requested) else Inr None
      | LstatFails \<Rightarrow> Inl (path_failure PERMISSION_DENIED ''Path could not be inspected safely.'' requested)
      | LstatIs st \<Rightarrow>
          if is_link_status st
          then Inl (path_failure PERMISSION_DENIED ''Links and reparse points are not allowed in workspace paths.'' requested)
          else if before = [] \<and> fs_identity st \<noteq> wv_root v
          then Inl (path_failure CONFLICT ''Workspace root changed after this session started.'' requested)
          else if \<not> final \<and> fs_kind st \<noteq> DIRECTORY_KIND
          then Inl (path_failure INVALID_ARGUMENTS ''Path component is not a directory.'' requested)
          else (case rest of [] \<Rightarrow> Inr (Some st) | c # cs \<Rightarrow> inspect_components v must_exist requested (before @ [c]) cs))"

definition has_kind :: "path_kind \<Rightarrow> file_status option \<Rightarrow> bool" where
  "has_kind k st = (case st of None \<Rightarrow> False | Some s \<Rightarrow> fs_kind s = k)"

definition relative_parts :: "path_platform \<Rightarrow> string \<Rightarrow> string list" where
  "relative_parts platform requested = filter (\<lambda>p. p \<noteq> ''.'') (pp_parts (parse_path platform requested))"

definition resolve_workspace_path ::
  "workspace_view \<Rightarrow> string \<Rightarrow> bool \<Rightarrow> path_kind option \<Rightarrow> bool \<Rightarrow> expected_failure + safe_path"
where
  "resolve_workspace_path v requested must_exist expected_kind allow_sensitive =
     (case validate_workspace_path_syntax (wv_platform v) requested of
        Inl e \<Rightarrow> Inl e
      | Inr _ \<Rightarrow>
          let relative = relative_parts (wv_platform v) requested in
          if \<not> wv_opens v
          then Inl (path_failure CONFLICT ''Workspace root changed after this session started.'' requested)
          else if \<not> allow_sensitive \<and> (is_sensitive (pp_parts (parse_path (wv_platform v) requested)) \<or> is_sensitive relative)
          then Inl (path_failure PERMISSION_DENIED ''Sensitive paths are not available to tools.'' requested)
          else
            (case inspect_components v must_exist requested [] relative of
               Inl e \<Rightarrow> Inl e
             | Inr st \<Rightarrow>
                 if must_exist \<and> expected_kind = Some REGULAR_FILE \<and> \<not> has_kind REGULAR_FILE st
                 then Inl (path_failure INVALID_ARGUMENTS ''Path is not a file.'' requested)
                 else if must_exist \<and> expected_kind = Some DIRECTORY_KIND \<and> \<not> has_kind DIRECTORY_KIND st
                 then Inl (path_failure INVALID_ARGUMENTS ''Path is not a directory.'' requested)
                 else Inr \<lparr>sp_requested = requested, sp_relative = relative, sp_root = wv_root v, sp_identity = map_option fs_identity st\<rparr>))"

section \<open>What a resolved path is\<close>

lemma validated_syntax: "validate_workspace_path_syntax platform requested = Inr u \<Longrightarrow> validate_workspace_relative_path_syntax platform requested = Inr ()"
  by (cases "validate_workspace_relative_path_syntax platform requested")
    (auto simp: validate_workspace_path_syntax_def split: syntax_kind.splits)

lemma relative_parts_plain:
  assumes "validate_workspace_relative_path_syntax platform requested = Inr ()" and "c \<in> set (relative_parts platform requested)"
  shows "c \<noteq> [] \<and> c \<noteq> ''.'' \<and> c \<noteq> ''..'' \<and> CHR ''/'' \<notin> set c"
proof (cases platform)
  case Posix
  have "\<not> starts_with ''/'' requested" using assms(1) by (simp add: Posix validate_posix_accepts)
  then have "relative_parts Posix requested = filter (\<lambda>p. p \<noteq> ''.'') (posix_components requested)"
    by (simp add: relative_parts_def parse_path_def posix_relative_parts)
  then have "c \<in> set (posix_components requested)" using assms(2) Posix by simp
  with accepted_posix_components_plain [of requested] assms(1) Posix show ?thesis
    by (auto simp: list_all_iff plain_component_def)
next
  case Windows
  from validate_windows_accepts [OF assms(1) [unfolded Windows]]
  have w: "pp_drive (pure_windows_path requested) = []" "pp_root (pure_windows_path requested) = []"
    "''..'' \<notin> set (pp_parts (pure_windows_path requested))" by simp_all
  obtain d r rest where split: "windows_splitroot (to_windows requested) = (d, r, rest)" by (metis prod_cases3)
  have rest: "set rest \<subseteq> set (to_windows requested)"
    using split by (auto simp: windows_splitroot_def Let_def dest: in_set_dropD split: if_splits)
  have slash: "CHR ''/'' \<notin> set (to_windows requested)" by (auto simp: to_windows_def bslash_def)
  have "pp_parts (pure_windows_path requested) = filter (\<lambda>c. c \<noteq> [] \<and> c \<noteq> ''.'') (split_on bslash rest)"
    using w(1,2) split by (simp add: pure_windows_path_def Let_def)
  then have "c \<noteq> []" "c \<noteq> ''.''" "c \<in> set (split_on bslash rest)" "c \<in> set (pp_parts (pure_windows_path requested))"
    using assms(2) Windows by (auto simp: relative_parts_def parse_path_def)
  with split_on_chars [of c bslash rest] rest slash w(3) show ?thesis by auto
qed

lemma inspected:
  "inspect_components v must_exist requested before rest = Inr r \<Longrightarrow>
     (\<forall>k < length rest. \<exists>st. wv_lstat v (before @ take k rest) = LstatIs st \<and> fs_kind st = DIRECTORY_KIND \<and> \<not> is_link_status st) \<and>
     (case r of None \<Rightarrow> \<not> must_exist \<and> wv_lstat v (before @ rest) = LstatMissing
      | Some st \<Rightarrow> wv_lstat v (before @ rest) = LstatIs st \<and> \<not> is_link_status st)"
proof (induction rest arbitrary: before)
  case Nil
  then show ?case by (auto simp: Let_def split: lstat_outcome.splits if_splits)
next
  case (Cons c cs)
  then obtain st where st: "wv_lstat v before = LstatIs st" "fs_kind st = DIRECTORY_KIND" "\<not> is_link_status st"
    and rest: "inspect_components v must_exist requested (before @ [c]) cs = Inr r"
    by (auto simp: Let_def split: lstat_outcome.splits if_splits)
  have "\<exists>st. wv_lstat v (before @ take k (c # cs)) = LstatIs st \<and> fs_kind st = DIRECTORY_KIND \<and> \<not> is_link_status st"
    if "k < length (c # cs)" for k
    using that st Cons.IH [OF rest] by (cases k) auto
  with Cons.IH [OF rest] show ?case by (auto split: option.splits)
qed

lemma inspected_root:
  "inspect_components v must_exist requested [] rest = Inr r \<Longrightarrow> wv_lstat v [] = LstatIs st \<Longrightarrow> fs_identity st = wv_root v"
  by (subst (asm) inspect_components.simps) (auto simp: Let_def split: if_splits)

lemma kind_no_link: "fs_kind st = k \<Longrightarrow> k \<noteq> LINK_KIND \<Longrightarrow> \<not> fs_reparse st \<Longrightarrow> \<not> is_link_status st"
  by (auto simp: is_link_status_def)

text \<open>C11: a path that a tool may use lies below the root that the session is bound to: its
  components are names, none of them \<open>..\<close>, every directory on the way is a directory and neither
  the path nor a directory on the way is a link or a reparse point; it is not sensitive unless the
  tool may read sensitive paths; it exists and has the kind that was asked for, or it is missing
  where it may be.\<close>

theorem resolved_path_contained:
  assumes "resolve_workspace_path v requested must_exist expected_kind allow_sensitive = Inr p"
  shows "(\<forall>c \<in> set (sp_relative p). c \<noteq> [] \<and> c \<noteq> ''.'' \<and> c \<noteq> ''..'' \<and> CHR ''/'' \<notin> set c) \<and>
    (allow_sensitive \<or> \<not> is_sensitive (sp_relative p)) \<and>
    (\<forall>st. wv_lstat v [] = LstatIs st \<longrightarrow> fs_identity st = wv_root v) \<and>
    (\<forall>k < length (sp_relative p). \<exists>st. wv_lstat v (take k (sp_relative p)) = LstatIs st \<and> fs_kind st = DIRECTORY_KIND \<and> \<not> is_link_status st) \<and>
    (case sp_identity p of
       None \<Rightarrow> \<not> must_exist \<and> wv_lstat v (sp_relative p) = LstatMissing
     | Some i \<Rightarrow> \<exists>st. wv_lstat v (sp_relative p) = LstatIs st \<and> fs_identity st = i \<and> \<not> is_link_status st \<and>
         (must_exist \<and> expected_kind = Some REGULAR_FILE \<longrightarrow> fs_kind st = REGULAR_FILE) \<and>
         (must_exist \<and> expected_kind = Some DIRECTORY_KIND \<longrightarrow> fs_kind st = DIRECTORY_KIND))"
proof -
  define rel where "rel = relative_parts (wv_platform v) requested"
  obtain r where syn: "validate_workspace_relative_path_syntax (wv_platform v) requested = Inr ()"
    and r: "inspect_components v must_exist requested [] rel = Inr r"
    and p: "sp_relative p = rel" "sp_identity p = map_option fs_identity r" "allow_sensitive \<or> \<not> is_sensitive rel"
    and kind: "must_exist \<Longrightarrow> expected_kind = Some REGULAR_FILE \<Longrightarrow> has_kind REGULAR_FILE r"
      "must_exist \<Longrightarrow> expected_kind = Some DIRECTORY_KIND \<Longrightarrow> has_kind DIRECTORY_KIND r"
    using assms unfolding resolve_workspace_path_def rel_def Let_def
    by (auto dest: validated_syntax split: sum.splits if_splits)
  note plain = relative_parts_plain [OF syn, folded rel_def]
  have walk: "(\<forall>k < length rel. \<exists>st. wv_lstat v (take k rel) = LstatIs st \<and> fs_kind st = DIRECTORY_KIND \<and> \<not> is_link_status st) \<and>
     (case r of None \<Rightarrow> \<not> must_exist \<and> wv_lstat v rel = LstatMissing
      | Some st \<Rightarrow> wv_lstat v rel = LstatIs st \<and> \<not> is_link_status st)"
    using inspected [OF r] by (auto split: option.splits)
  have root: "\<forall>st. wv_lstat v [] = LstatIs st \<longrightarrow> fs_identity st = wv_root v" using inspected_root [OF r] by blast
  have last: "case sp_identity p of None \<Rightarrow> \<not> must_exist \<and> wv_lstat v rel = LstatMissing
     | Some i \<Rightarrow> \<exists>st. wv_lstat v rel = LstatIs st \<and> fs_identity st = i \<and> \<not> is_link_status st \<and>
         (must_exist \<and> expected_kind = Some REGULAR_FILE \<longrightarrow> fs_kind st = REGULAR_FILE) \<and>
         (must_exist \<and> expected_kind = Some DIRECTORY_KIND \<longrightarrow> fs_kind st = DIRECTORY_KIND)"
    using walk kind p(2) by (cases r) (auto simp: has_kind_def)
  show ?thesis unfolding p(1) using plain walk root last p(3) by blast
qed

definition sample_workspace :: workspace_view where
  "sample_workspace =
     \<lparr>wv_platform = Posix, wv_root = (1, 2, 3), wv_opens = True,
      wv_lstat = (\<lambda>path.
        if path = [] then LstatIs \<lparr>fs_kind = DIRECTORY_KIND, fs_reparse = False, fs_identity = (1, 2, 3)\<rparr>
        else if path = [''src''] then LstatIs \<lparr>fs_kind = DIRECTORY_KIND, fs_reparse = False, fs_identity = (1, 4, 3)\<rparr>
        else if path = [''src'', ''a.py''] then LstatIs \<lparr>fs_kind = REGULAR_FILE, fs_reparse = False, fs_identity = (1, 5, 6)\<rparr>
        else if path = [''out''] then LstatIs \<lparr>fs_kind = LINK_KIND, fs_reparse = False, fs_identity = (1, 7, 8)\<rparr>
        else LstatMissing)\<rparr>"

theorem resolved_path_contained_witness:
  "resolve_workspace_path sample_workspace ''src/./a.py'' True (Some REGULAR_FILE) False =
     Inr \<lparr>sp_requested = ''src/./a.py'', sp_relative = [''src'', ''a.py''], sp_root = (1, 2, 3), sp_identity = Some (1, 5, 6)\<rparr> \<and>
   (\<exists>e. resolve_workspace_path sample_workspace ''out/x'' True None False = Inl e) \<and>
   (\<exists>e. resolve_workspace_path sample_workspace ''src/.ENV'' False None False = Inl e) \<and>
   (\<exists>st. wv_lstat sample_workspace [''src''] = LstatIs st \<and> fs_kind st = DIRECTORY_KIND)"
proof -
  let ?p = "\<lparr>sp_requested = ''src/./a.py'', sp_relative = [''src'', ''a.py''], sp_root = (1, 2, 3), sp_identity = Some (1, 5, 6)\<rparr>"
  have run: "resolve_workspace_path sample_workspace ''src/./a.py'' True (Some REGULAR_FILE) False = Inr ?p" by code_simp
  have "\<not> isl (resolve_workspace_path sample_workspace ''src/./a.py'' True (Some REGULAR_FILE) False)"
    "isl (resolve_workspace_path sample_workspace ''out/x'' True None False)"
    "isl (resolve_workspace_path sample_workspace ''src/.ENV'' False None False)"
    by code_simp+
  moreover have "\<exists>st. wv_lstat sample_workspace (take 1 (sp_relative ?p)) = LstatIs st \<and> fs_kind st = DIRECTORY_KIND"
    using resolved_path_contained [OF run] by (elim conjE) (drule spec [of _ 1], auto)
  ultimately show ?thesis using run by (auto simp: isl_def)
qed

end
