(* ===== verification/CommandPolicy.thy ===== *)
theory CommandPolicy
  imports PathSyntax ExplicitPaths Tools
begin

text \<open>
  \<open>core/tools/command_policy.py\<close>: the hard checks on a shell command before it runs, for a host
  with POSIX paths.  A command is split into segments, a segment into words, and a segment that
  starts another shell or a wrapper is inspected again with the command inside it.  The parser of
  Python programs and the decoder of encoded PowerShell commands are parameters.
\<close>

section \<open>Words\<close>

datatype shell_dialect = CMD_SHELL | POSIX_SHELL | POWER_SHELL

text \<open>Why a command is denied.\<close>

type_synonym denial = string

record inspection_state =
  is_nodes :: nat
  is_outside :: bool

type_synonym 'a inspect = "(inspection_state, denial, 'a) eff"










definition lstrip_chars :: "char list \<Rightarrow> string \<Rightarrow> string" where
  "lstrip_chars cs s = dropWhile (\<lambda>c. c \<in> set cs) s"

definition slashes :: "char list" where
  "slashes = [CHR ''/'', bslash]"




definition windows_components :: "string \<Rightarrow> string list" where
  "windows_components s =
     (case windows_splitroot (to_windows s) of (_, _, rest) \<Rightarrow> filter (\<lambda>c. c \<noteq> [] \<and> c \<noteq> ''.'') (split_on bslash rest))"




section \<open>Segments\<close>









section \<open>Words of a segment\<close>






section \<open>Paths\<close>

text \<open>An absolute path as \<open>normpath\<close> leaves it: whether it starts with exactly two slashes, and
  its components.\<close>

record host_path =
  hp_double :: bool
  hp_parts :: "string list"

text \<open>The components after \<open>..\<close> has taken the one before it, below a root.\<close>

fun resolve_dots :: "string list \<Rightarrow> string list \<Rightarrow> string list" where
  "resolve_dots done [] = done"
| "resolve_dots done (c # cs) = resolve_dots (if c = ''..'' then butlast done else done @ [c]) cs"

definition absolute_path :: "string \<Rightarrow> host_path" where
  "absolute_path s = \<lparr>hp_double = (posix_root s = ''//''), hp_parts = resolve_dots [] (posix_components s)\<rparr>"

definition join_path :: "host_path \<Rightarrow> string \<Rightarrow> host_path" where
  "join_path cwd s = cwd\<lparr>hp_parts := resolve_dots (hp_parts cwd) (posix_components s)\<rparr>"

definition windows_anchor :: "string \<Rightarrow> string" where
  "windows_anchor s = (case windows_splitroot (to_windows s) of (drive, rt, _) \<Rightarrow> drive @ rt)"

text \<open>The root that \<open>pathlib\<close> gives to a bare share.\<close>

definition share_root :: "string \<Rightarrow> bool" where
  "share_root drive \<longleftrightarrow>
     starts_with [bslash] drive \<and> \<not> ends_with [bslash] drive \<and>
     (let parts = split_on bslash drive in
      (length parts = 4 \<and> parts ! 2 \<notin> {''?'', ''.''}) \<or> length parts = 6)"

definition windows_absolute :: "string \<Rightarrow> bool" where
  "windows_absolute s \<longleftrightarrow>
     (case windows_splitroot (to_windows s) of (drive, rt, _) \<Rightarrow> drive \<noteq> [] \<and> (rt \<noteq> [] \<or> share_root drive))"

definition is_filesystem_root :: "string \<Rightarrow> bool" where
  "is_filesystem_root value \<longleftrightarrow>
     (let cleaned = rstrip_chars ''.,'' (strip value) in
      cleaned = ''/'' \<or> cleaned = [bslash] \<or>
      (windows_anchor cleaned \<noteq> [] \<and>
       casefold (rstrip_chars slashes cleaned) = casefold (rstrip_chars slashes (windows_anchor cleaned))))"

definition normalizes_to_filesystem_root :: "string \<Rightarrow> bool" where
  "normalizes_to_filesystem_root value \<longleftrightarrow>
     (starts_with ''/'' value \<and> hp_parts (absolute_path value) = []) \<or>
     (windows_absolute value \<and> rstrip_chars slashes (windows_anchor value) \<noteq> [] \<and>
      resolve_dots [] (windows_components value) = [])"

definition glob_chars :: "char list" where
  "glob_chars = ''*?[''"

definition glob_base :: "string \<Rightarrow> string" where
  "glob_base value =
     (if \<not> list_ex (\<lambda>c. c \<in> set glob_chars) value then value
      else
        let raw_prefix = takeWhile (\<lambda>c. c \<notin> set glob_chars) value; prefix = rstrip_chars slashes raw_prefix in
        if prefix \<noteq> [] then prefix
        else if starts_with ''/'' raw_prefix \<or> starts_with [bslash] raw_prefix then take 1 raw_prefix
        else ''.'')"

definition cwd_markers :: "string list" where
  "cwd_markers = [''%cd%'', ''$pwd.path'', ''${pwd}'', ''$pwd'', ''$(pwd)'']"

definition names_marker :: "string \<Rightarrow> string \<Rightarrow> bool" where
  "names_marker lowered marker \<longleftrightarrow>
     lowered = marker \<or> starts_with (marker @ ''/'') lowered \<or> starts_with (marker @ [bslash]) lowered"

definition native_path :: "string \<Rightarrow> host_path \<Rightarrow> host_path option" where
  "native_path value cwd =
     (let cleaned = glob_base (rstrip_chars '','' (strip value)) in
      if cleaned = [] then None
      else
        (case find (names_marker (casefold cleaned)) cwd_markers of
           Some marker \<Rightarrow> Some (join_path cwd (lstrip_chars slashes (drop (length marker) cleaned)))
         | None \<Rightarrow>
             if list_ex (\<lambda>c. c \<in> set [CHR ''$'', CHR ''%'', CHR 0x60]) cleaned then None
             else if windows_absolute cleaned then None
             else if starts_with ''/'' cleaned then Some (absolute_path cleaned)
             else Some (join_path cwd cleaned)))"



definition dangerous_delete_target :: "string \<Rightarrow> host_path \<Rightarrow> host_path \<Rightarrow> bool" where
  "dangerous_delete_target value cwd workspace =
     (let cleaned = glob_base (rstrip_chars '','' (strip value)) in
      is_filesystem_root cleaned \<or> normalizes_to_filesystem_root cleaned \<or> native_path cleaned cwd = Some workspace)"

section \<open>Block devices\<close>





section \<open>Patterns\<close>

text \<open>\<open>[A-Za-z_][A-Za-z0-9_]*=.*\<close>\<close>

definition word_char :: "char \<Rightarrow> bool" where
  "word_char c \<longleftrightarrow> is_lower (fold_char c) \<or> is_digit c \<or> c = CHR ''_''"





section \<open>Joining words\<close>

definition shell_safe_char :: "char \<Rightarrow> bool" where
  "shell_safe_char c \<longleftrightarrow> word_char c \<or> c \<in> set ''@%+=:,./-''"

definition shell_quote :: "string \<Rightarrow> string" where
  "shell_quote s =
     (if s = [] then [single_quote, single_quote]
      else if list_all shell_safe_char s then s
      else single_quote #
        concat (map (\<lambda>c. if c = single_quote then [single_quote, double_quote, single_quote, double_quote, single_quote] else [c]) s) @
        [single_quote])"

text \<open>One argument of \<open>list2cmdline\<close>: the pending backslashes and the rest.\<close>

fun cmd_argument :: "bool \<Rightarrow> nat \<Rightarrow> string \<Rightarrow> string" where
  "cmd_argument quoted n [] = replicate (if quoted then 2 * n else n) bslash @ (if quoted then [double_quote] else [])"
| "cmd_argument quoted n (c # cs) =
     (if c = bslash then cmd_argument quoted (n + 1) cs
      else if c = double_quote then replicate (2 * n) bslash @ [bslash, double_quote] @ cmd_argument quoted 0 cs
      else replicate n bslash @ [c] @ cmd_argument quoted 0 cs)"

definition cmd_quote :: "string \<Rightarrow> string" where
  "cmd_quote s =
     (let quoted = CHR '' '' \<in> set s \<or> CHR 0x09 \<in> set s \<or> s = [] in
      (if quoted then [double_quote] else []) @ cmd_argument quoted 0 s)"

definition join_command_tokens :: "shell_dialect \<Rightarrow> string list \<Rightarrow> string" where
  "join_command_tokens d parts = join_with '' '' (map (if d = CMD_SHELL then cmd_quote else shell_quote) parts)"

section \<open>Programs in other languages\<close>

text \<open>What the inspection reads of the syntax tree of a Python program.\<close>

datatype py_node =
    PyImport "(string \<times> string option) list"
  | PyImportFrom "string option" "(string \<times> string option) list"
  | PyCall py_node "py_node list" "(string option \<times> py_node) list"
  | PyString string
  | PyJoined "py_node list"
  | PySequence "py_node list"
  | PyName string
  | PyAttribute py_node string
  | PyOther "py_node list"

record command_world =
  cw_workspace :: host_path
  cw_parse :: "string \<Rightarrow> py_node option"
  cw_decode :: "string \<Rightarrow> string option"

type_synonym nested_inspection = "shell_dialect \<Rightarrow> host_path \<Rightarrow> string \<Rightarrow> host_path list inspect"


fun all_some :: "'a option list \<Rightarrow> 'a list option" where
  "all_some [] = Some []"
| "all_some (None # xs) = None"
| "all_some (Some x # xs) = map_option (\<lambda>ys. x # ys) (all_some xs)"

definition constant_string :: "py_node \<Rightarrow> string option" where
  "constant_string node = (case node of PyString s \<Rightarrow> Some s | _ \<Rightarrow> None)"

definition literal_string :: "py_node \<Rightarrow> string option" where
  "literal_string node =
     (case node of
        PyString s \<Rightarrow> Some s
      | PyJoined items \<Rightarrow> map_option concat (all_some (map constant_string items))
      | _ \<Rightarrow> None)"

definition literal_command :: "shell_dialect \<Rightarrow> py_node \<Rightarrow> string option" where
  "literal_command d node =
     (case literal_string node of
        Some s \<Rightarrow> Some s
      | None \<Rightarrow>
          (case node of
             PySequence items \<Rightarrow> map_option (join_command_tokens d) (all_some (map literal_string items))
           | _ \<Rightarrow> None))"

fun dotted_name :: "py_node \<Rightarrow> string option" where
  "dotted_name (PyName i) = Some i"
| "dotted_name (PyAttribute value attr) = map_option (\<lambda>prefix. prefix @ ''.'' @ attr) (dotted_name value)"
| "dotted_name _ = None"

definition call_argument :: "py_node list \<Rightarrow> (string option \<times> py_node) list \<Rightarrow> nat \<Rightarrow> string list \<Rightarrow> py_node option" where
  "call_argument args keywords position names =
     (if position < length args then Some (args ! position)
      else map_option snd (find (\<lambda>(name, _). \<exists>n \<in> set names. name = Some n) keywords))"

definition process_calls :: "string list" where
  "process_calls =
     [''os.popen'', ''os.system'', ''subprocess.Popen'', ''subprocess.call'', ''subprocess.check_call'',
      ''subprocess.check_output'', ''subprocess.run'']"

type_synonym py_aliases = "(string \<times> string) list"

definition import_names :: "(string \<times> string option) list \<Rightarrow> py_aliases \<Rightarrow> py_aliases" where
  "import_names names aliases =
     fold (\<lambda>(name, as_name) m.
       (case as_name of Some a \<Rightarrow> a | None \<Rightarrow> hd (split_on CHR ''.'' name), name) # m) names aliases"

definition import_from_names :: "string \<Rightarrow> (string \<times> string option) list \<Rightarrow> py_aliases \<Rightarrow> py_aliases" where
  "import_from_names package names aliases =
     fold (\<lambda>(name, as_name) m. (case as_name of Some a \<Rightarrow> a | None \<Rightarrow> name, package @ ''.'' @ name) # m) names aliases"

definition resolved_name :: "py_aliases \<Rightarrow> string \<Rightarrow> string" where
  "resolved_name aliases raw =
     (case split_on CHR ''.'' raw of
        [] \<Rightarrow> raw
      | first # left_over \<Rightarrow>
          join_with ''.'' ((case map_of aliases first of None \<Rightarrow> first | Some name \<Rightarrow> name) # left_over))"

text \<open>What \<open>visit_Call\<close> checks of one call.\<close>

definition inspect_call ::
  "command_world \<Rightarrow> nested_inspection \<Rightarrow> shell_dialect \<Rightarrow> host_path \<Rightarrow> py_aliases \<Rightarrow> py_node \<Rightarrow> py_node list
   \<Rightarrow> (string option \<times> py_node) list \<Rightarrow> unit inspect"
where
  "inspect_call w nested d cwd aliases callee args keywords =
     (case dotted_name callee of
        None \<Rightarrow> ret ()
      | Some raw \<Rightarrow>
          let resolved = resolved_name aliases raw in
          if resolved \<in> set process_calls
          then
            (case Option.bind (call_argument args keywords 0 [''args'', ''cmd'', ''command'']) (literal_command d) of
               None \<Rightarrow> ret ()
             | Some command \<Rightarrow>
                 let literal_cwd = Option.bind (call_argument args keywords (length args) [''cwd'']) literal_string;
                     nested_cwd = (case Option.bind literal_cwd (\<lambda>s. native_path s cwd) of None \<Rightarrow> cwd | Some p \<Rightarrow> p)
                 in andthen (nested d nested_cwd command) (ret ()))
          else if resolved = ''shutil.rmtree''
          then
            (case Option.bind (call_argument args keywords 0 [''path'']) literal_string of
               None \<Rightarrow> ret ()
             | Some target \<Rightarrow>
                 guard_else (\<not> dangerous_delete_target target cwd (cw_workspace w))
                   ''Destructive Python calls cannot target a filesystem or workspace root.'')
          else ret ())"

fun visit_python ::
  "command_world \<Rightarrow> nested_inspection \<Rightarrow> shell_dialect \<Rightarrow> host_path \<Rightarrow> py_node \<Rightarrow> py_aliases \<Rightarrow> py_aliases inspect"
and visit_all ::
  "command_world \<Rightarrow> nested_inspection \<Rightarrow> shell_dialect \<Rightarrow> host_path \<Rightarrow> py_node list \<Rightarrow> py_aliases \<Rightarrow> py_aliases inspect"
where
  "visit_python w nested d cwd (PyImport names) aliases = ret (import_names names aliases)"
| "visit_python w nested d cwd (PyImportFrom package names) aliases =
     ret (case package of None \<Rightarrow> aliases | Some m \<Rightarrow> import_from_names m names aliases)"
| "visit_python w nested d cwd (PyCall callee args keywords) aliases =
     andthen (inspect_call w nested d cwd aliases callee args keywords)
    (sbind (visit_python w nested d cwd callee aliases) (\<lambda>aliases1.
     sbind (visit_all w nested d cwd args aliases1) (\<lambda>aliases2.
       visit_all w nested d cwd (map snd keywords) aliases2)))"
| "visit_python w nested d cwd (PyJoined items) aliases = visit_all w nested d cwd items aliases"
| "visit_python w nested d cwd (PySequence items) aliases = visit_all w nested d cwd items aliases"
| "visit_python w nested d cwd (PyAttribute value attr) aliases = visit_python w nested d cwd value aliases"
| "visit_python w nested d cwd (PyOther items) aliases = visit_all w nested d cwd items aliases"
| "visit_python w nested d cwd (PyString s) aliases = ret aliases"
| "visit_python w nested d cwd (PyName i) aliases = ret aliases"
| "visit_all w nested d cwd [] aliases = ret aliases"
| "visit_all w nested d cwd (node # nodes) aliases =
     sbind (visit_python w nested d cwd node aliases) (\<lambda>aliases1. visit_all w nested d cwd nodes aliases1)"




section \<open>PowerShell\<close>









section \<open>Wrappers\<close>








definition after_equals :: "string \<Rightarrow> string" where
  "after_equals s = drop 1 (dropWhile (\<lambda>c. c \<noteq> CHR ''='') s)"

text \<open>The value of an option in its three spellings: the next word, after an equals sign, attached.\<close>

definition option_value ::
  "string list \<Rightarrow> string \<Rightarrow> string \<Rightarrow> denial \<Rightarrow> string \<Rightarrow> string list \<Rightarrow> denial + (string \<times> string list) option"
where
  "option_value names long short missing r rs =
     (let option = casefold r in
      if option \<in> set names then (case rs of [] \<Rightarrow> Inl missing | v # rs' \<Rightarrow> Inr (Some (v, rs')))
      else if starts_with long option then Inr (Some (after_equals r, rs))
      else if starts_with short r \<and> 2 < length r then Inr (Some (drop 2 r, rs))
      else Inr None)"










section \<open>Changes of the working directory\<close>






section \<open>One segment\<close>

















section \<open>A command\<close>



definition unique_paths :: "host_path list \<Rightarrow> host_path list" where
  "unique_paths paths = rev (remdups (rev paths))"






section \<open>What an allowed command is\<close>


abbreviation "env_chdir \<equiv> option_value [''-c'', ''--chdir''] ''--chdir='' ''-C'' ''Environment wrapper is missing its working directory.''"
abbreviation "env_argv0 \<equiv> option_value [''-a'', ''--argv0''] ''--argv0='' ''-a'' ''Environment wrapper is missing its argv0 value.''"
abbreviation "env_split \<equiv> option_value [''-s'', ''--split-string''] ''--split-string='' ''-S'' ''Environment wrapper is missing its payload.''"
















lemma unique_paths_set [simp]: "set (unique_paths xs) = set xs"
  by (simp add: unique_paths_def)

lemma unique_paths_empty [simp]: "unique_paths xs = [] \<longleftrightarrow> xs = []"
  by (simp add: unique_paths_def)
































end
