(* ===== verification/Spec2Isabelle.thy ===== *)
theory Spec2Isabelle
  imports Permissions PathSyntax ChangeUndo TurnRecovery WorkspacePolicy CommandPolicy
begin

text \<open>
  A model of the Python core of \<open>awesome_agent\<close> (\<open>src/src/awesome_agent\<close>), a coding
  assistant for the terminal.  A user message starts a turn.  The turn prepares its context,
  calls a model, runs the tools the model asks for and checks the answer.  A tool runs only
  with permission and changes the workspace only through a journal, so a change can be
  undone and a process that dies leaves a state the next one repairs.

  \<^bold>\<open>Conventions.\<close>  A class is a record, an enumeration a datatype, a string a list of
  characters below 256, an unbounded integer an \<open>int\<close> or, where it is never negative, a
  \<open>nat\<close>, a \<open>float\<close> a \<open>rat\<close>.  Code that raises is \<open>('s, 'e, 'a) eff\<close> of
  \<open>Prelude\<close>: a function from a state to an error or a value, and the state it leaves.
  An \<open>await\<close> of code outside the model is a call of a parameter: an answer may
  depend on the number of the step it is asked in.

  \<^bold>\<open>Theories.\<close>
  \<^item> \<open>Prelude\<close>: the effects with their triples, tables in insertion order, strings.
  \<^item> \<open>Permissions\<close> (\<open>core/tools/permissions.py\<close>): the default policy and the session
    that holds the grants of a process; what may run without a question in every reachable session.
  \<^item> \<open>PathSyntax\<close> (\<open>core/workspace/path_syntax.py\<close>): the paths a tool may name.
  \<^item> \<open>ChangeModels\<close>, \<open>ChangeTree\<close>, \<open>ChangeRestore\<close>, \<open>ChangeJournal\<close>,
    \<open>ChangeRecovery\<close>, \<open>ChangeOperations\<close>, \<open>ChangeUndo\<close> (\<open>core/changes/*\<close>,
    \<open>storage/changes.py\<close>): change sets, the workspace tree and the writes on it, blobs and
    pending rows, reconciliation, undo and redo.  A crash is a run with a number of writes it may
    still make.  The refinements state that after the reconciliation of the next process a write, an
    undo or a redo has happened completely or not at all; undo and redo are inverse.
  \<^item> \<open>Modeling\<close> (\<open>modeling/*\<close>): requests, events and the gateway with its retries.
  \<^item> \<open>Citations\<close>, \<open>AnswerCitations\<close> (\<open>core/citations.py\<close>,
    \<open>agent/finalization.py\<close>): the numbering of the sources of a turn, the collection from its
    tool results and the source list of its answer.
  \<^item> \<open>Tools\<close>, \<open>Registry\<close>, \<open>Executor\<close> (\<open>core/tools/contracts.py\<close>,
    \<open>errors.py\<close>, \<open>context.py\<close>, \<open>registry.py\<close>, \<open>executor.py\<close>): the contracts of
    tools, quotas and grants, the registry and one execution with its approval, deadline, audit
    record and events.
  \<^item> \<open>AgentLoop\<close>, \<open>AgentRuns\<close>, \<open>AgentTermination\<close> (\<open>agent/*\<close>): the
    state, budgets and nodes of the agent graph.  The locale \<open>agent_services\<close> states what a turn
    needs of its services; in it every transcript sent to the model is complete, no call runs twice,
    the budgets hold and the graph ends before its recursion limit.
  \<^item> \<open>ContextBuilder\<close> (\<open>context/models.py\<close>, \<open>tokens.py\<close>, \<open>builder.py\<close>): the
    sources of a request, their order, deduplication, memory budgets, truncation and token limit.

  \<^item> \<open>ConversationModels\<close>, \<open>ConversationStore\<close>, \<open>ConversationService\<close>,
    \<open>ConversationFork\<close>, \<open>ConversationHistory\<close> (\<open>conversation/*\<close>,
    \<open>storage/conversations.py\<close>): threads, their numbered entries, turns and summaries, the
    transactions on their rows, the operations of the service, forks and retries.  A history is a
    sequence of such operations, whatever older state each of them read; in it the rows keep their
    invariant, transcripts only grow and a turn that is over stays as it is.
  \<^item> \<open>Compression\<close>, \<open>ExplicitPaths\<close>, \<open>ContextManifest\<close>, \<open>AppContext\<close>
    (\<open>context/compression.py\<close>, \<open>context/path_refs.py\<close>, \<open>context/models.py\<close>,
    \<open>application/context.py\<close>): the plan and the request of a summary, the paths a message names,
    the JSON form of manifests, the sources and the context of a turn, its compression and the
    validation of a frozen context.
  \<^item> \<open>TurnServices\<close> (\<open>application/composition.py\<close>): the services above put together for one
    turn.  It interprets the locale \<open>agent_services\<close> as \<open>assembled\<close>, so what the agent graph
    guarantees is stated of the assembled program.
  \<^item> \<open>TurnRecovery\<close> (\<open>application/turns.py\<close>, \<open>application/turn_facts.py\<close>): what the
    next process makes of unfinished turns from their rows and checkpoints, and the durable end of a
    turn.  Startup leaves every turn either over and without a checkpoint or resumable.
  \<^item> \<open>WorkspacePolicy\<close> (\<open>core/tools/policy.py\<close>): the walk that resolves a path a tool
    names; a resolved path lies below the root, and no component is a link or sensitive.
  \<^item> \<open>CommandPolicy\<close> (\<open>core/tools/command_policy.py\<close>): the checks on a shell command in
    three dialects.  \<open>opens\<close> relates a command to the commands it starts; every one that an
    allowed command reaches has been checked.

  \<^bold>\<open>Bounds and fuel.\<close>  \<open>run_graph\<close> takes the number of steps it may still
  make; 2048 is the recursion limit of the source.  With at most \<open>k\<close> tool calls in a completed
  turn a turn takes at most \<open>tb_model_calls * (k + 2) + 4\<close> steps.  The retries of the gateway and
  the writes before a crash are counted the same way.  \<open>inspect_command\<close> counts the wrappers it
  may still open, one more than the depth limit of the source, and at zero it denies.

  \<^bold>\<open>Not modelled.\<close>  The HTTP clients of providers and services, the MCP client, the
  JSON-RPC server and the terminal program: input and output of other programs.  SQLite
  connections, migrations, leases and the file-system calls below a read or a write: the stores
  are their rows, the workspace is a tree of nodes.  The asyncio tasks and the operation phases
  around a turn and the channels of the graph library: a turn is one sequence of steps, its
  checkpoint is a state.  The parsers of configuration files, skill packages, memory files and
  archives, which are reads of the disk around formats of other libraries, the text that commands
  print, secret redaction by regular expressions of the library, and Windows paths in the command
  policy.  The Python parser and the UTF-16 decoder of the command policy, \<open>lstat\<close>, the token
  encoder, the hash functions and the clocks are parameters.
\<close>

end
